theory Spec2Isabelle
  imports Complex_Main
begin

section \<open>Scoring and XP ledger (lib/xpSystem.ts)\<close>

text \<open>
  The store behind \<^verbatim>\<open>prisma\<close> is modelled as three tables (lists of rows) and a counter
  that hands out row ids. Every operation takes the store and returns its outcome
  together with the store as it stands when the operation returns or throws: the
  source opens no transaction, so writes made before a throw stay.

  Numbers: the integer columns (\<^verbatim>\<open>xp\<close>, \<^verbatim>\<open>baseScore\<close>, \<^verbatim>\<open>attempts\<close>, ...) are \<open>int\<close>,
  without the bound of the column type; the weights and the curve, which the source
  computes in JavaScript numbers, are \<open>real\<close>, with \<^verbatim>\<open>Math.pow\<close> as the power, \<^verbatim>\<open>Math.exp\<close>
  as \<open>exp\<close>, \<^verbatim>\<open>Math.floor\<close> as the floor and \<^verbatim>\<open>Math.round\<close> (round half up) as
  \<open>round\<close>. The source computes them in IEEE doubles: the model is exact where the
  source rounds, which can differ only where a value lies within rounding error of
  the point at which the floor or the rounding changes.
\<close>

subsection \<open>Decay model\<close>

definition SCORE_DECAY :: real where
  "SCORE_DECAY = 8 / 10"

definition MAX_WRONG_ATTEMPTS :: int where
  "MAX_WRONG_ATTEMPTS = 5"

definition MIN_DYNAMIC_BASE_SCORE :: int where
  "MIN_DYNAMIC_BASE_SCORE = 25"

definition CURVE_A1 :: real where
  "CURVE_A1 = 890125 / 100000"

definition CURVE_a1 :: real where
  "CURVE_a1 = - (279323 / 10000000)"

definition CURVE_B1 :: real where
  "CURVE_B1 = 246239 / 10000"

definition CURVE_b1 :: real where
  "CURVE_b1 = - (402639 / 1000000)"

definition getWrongAttempts :: "int \<Rightarrow> int" where
  "getWrongAttempts attempts = max 0 (min MAX_WRONG_ATTEMPTS (attempts - 1))"

definition getSolveWeight :: "int \<Rightarrow> real" where
  "getSolveWeight attempts = SCORE_DECAY ^ nat (getWrongAttempts attempts)"

definition curved :: "real \<Rightarrow> real" where
  "curved weightedSolves =
     CURVE_A1 * exp (CURVE_a1 * weightedSolves) +
     CURVE_B1 * exp (CURVE_b1 * weightedSolves)"

definition getDynamicBaseFromWeightedSolves :: "real \<Rightarrow> int" where
  "getDynamicBaseFromWeightedSolves weightedSolves =
     max MIN_DYNAMIC_BASE_SCORE (round (curved weightedSolves))"

subsection \<open>The store\<close>

text \<open>
  Modelled from the spec: the Prisma schema is not among the sources. The columns are
  the ones the code reads and writes; the defaults of a created row (counters 0, flags
  false, \<^verbatim>\<open>awardedXp\<close> 0, \<^verbatim>\<open>preFinalizeAwardedXp\<close> null, \<^verbatim>\<open>finalizeDelta\<close> 0) follow the
  data model of the specification. Row ids are opaque and never reused; a counter
  stands for the generator.
\<close>

type_synonym dbid = nat

record user =
  u_id :: dbid
  discordId :: string
  xp :: int

record problem =
  p_id :: dbid
  number :: string
  originalBaseScore :: int
  baseScore :: int
  p_attempts :: int
  solves :: int
  isFinalized :: bool
  finalizedAt :: "nat option"

record userAttempt =
  a_id :: dbid
  userId :: dbid
  problemId :: dbid
  attempts :: int
  solved :: bool
  awardedXp :: int
  preFinalizeAwardedXp :: "int option"
  finalizeDelta :: int

record db =
  users :: "user list"
  problems :: "problem list"
  userAttempts :: "userAttempt list"
  nextId :: dbid

definition emptyDb :: db where
  "emptyDb = \<lparr>users = [], problems = [], userAttempts = [], nextId = 0\<rparr>"

text \<open>
  The failures. The source throws plain \<^verbatim>\<open>Error\<close>s told apart by their message; each
  throw site gets the constructor the specification names for it.
  \<open>ExternalSourceError\<close> is the failure of the spreadsheet lookup.
\<close>

datatype error =
    NotFound
  | AlreadyFinalized
  | NotFinalized
  | FinalizedProblemError
  | ExternalSourceError

record AttemptResult =
  ar_awardedXP :: int
  ar_userXP :: int
  ar_attemptNumber :: int
  ar_totalProblemAttempts :: int
  ar_totalProblemSolves :: int
  ar_weightedSolves :: real
  ar_originalBaseScore :: int
  ar_currentBaseScore :: int

record ResetProblemResult =
  rr_problemNumber :: string
  rr_clearedUserAttempts :: nat
  rr_originalBaseScore :: int
  rr_currentBaseScore :: int

record FinalizeProblemResult =
  fr_problemNumber :: string
  fr_finalBaseScore :: int
  fr_weightedSolves :: real
  fr_adjustedUsers :: nat
  fr_initializedUsers :: nat

record UnfinalizeProblemResult =
  ur_problemNumber :: string
  ur_restoredBaseScore :: int
  ur_revertedUsers :: nat

subsection \<open>Queries and row updates\<close>

text \<open>
  \<^verbatim>\<open>findUnique\<close> is \<open>find\<close> on the table; \<^verbatim>\<open>update\<close> rewrites the row with the given key.
  Each \<^verbatim>\<open>update\<close> in the source addresses a row the same operation has just read or
  created, by a unique key.
\<close>

definition findUserByDiscordId :: "string \<Rightarrow> db \<Rightarrow> user option" where
  "findUserByDiscordId d s = find (\<lambda>u. discordId u = d) (users s)"

definition findUserById :: "dbid \<Rightarrow> db \<Rightarrow> user option" where
  "findUserById i s = find (\<lambda>u. u_id u = i) (users s)"

definition findProblemByNumber :: "string \<Rightarrow> db \<Rightarrow> problem option" where
  "findProblemByNumber n s = find (\<lambda>p. number p = n) (problems s)"

definition findUserAttempt :: "dbid \<Rightarrow> dbid \<Rightarrow> db \<Rightarrow> userAttempt option" where
  "findUserAttempt uid pid s =
     find (\<lambda>a. userId a = uid \<and> problemId a = pid) (userAttempts s)"

definition findSolvedAttempts :: "dbid \<Rightarrow> db \<Rightarrow> userAttempt list" where
  "findSolvedAttempts pid s =
     filter (\<lambda>a. problemId a = pid \<and> solved a) (userAttempts s)"

definition setUserXpByDiscordId :: "string \<Rightarrow> int \<Rightarrow> db \<Rightarrow> db" where
  "setUserXpByDiscordId d v s =
     s\<lparr>users := map (\<lambda>u. if discordId u = d then u\<lparr>xp := v\<rparr> else u) (users s)\<rparr>"

definition setUserXpById :: "dbid \<Rightarrow> int \<Rightarrow> db \<Rightarrow> db" where
  "setUserXpById i v s =
     s\<lparr>users := map (\<lambda>u. if u_id u = i then u\<lparr>xp := v\<rparr> else u) (users s)\<rparr>"

definition updateProblem :: "dbid \<Rightarrow> (problem \<Rightarrow> problem) \<Rightarrow> db \<Rightarrow> db" where
  "updateProblem i f s =
     s\<lparr>problems := map (\<lambda>p. if p_id p = i then f p else p) (problems s)\<rparr>"

definition updateUserAttempt :: "dbid \<Rightarrow> (userAttempt \<Rightarrow> userAttempt) \<Rightarrow> db \<Rightarrow> db" where
  "updateUserAttempt i f s =
     s\<lparr>userAttempts := map (\<lambda>a. if a_id a = i then f a else a) (userAttempts s)\<rparr>"

definition sumSolveWeights :: "userAttempt list \<Rightarrow> real" where
  "sumSolveWeights solvedAttempts =
     foldl (\<lambda>sum attempt. sum + getSolveWeight (attempts attempt)) 0 solvedAttempts"

definition getWeightedSolves :: "dbid \<Rightarrow> db \<Rightarrow> real" where
  "getWeightedSolves pid s = sumSolveWeights (findSolvedAttempts pid s)"

subsection \<open>User ledger\<close>

definition adjustUserXPByDbId :: "dbid \<Rightarrow> int \<Rightarrow> db \<Rightarrow> (error + unit) \<times> db" where
  "adjustUserXPByDbId uid delta s =
     (if delta = 0 then (Inr (), s)
      else case findUserById uid s of
        None \<Rightarrow> (Inr (), s)
      | Some u \<Rightarrow> (Inr (), setUserXpById uid (max 0 (xp u + delta)) s))"

definition getOrCreateUser :: "string \<Rightarrow> db \<Rightarrow> user \<times> db" where
  "getOrCreateUser d s =
     (case findUserByDiscordId d s of
        Some u \<Rightarrow> (u, s)
      | None \<Rightarrow>
          (let u = \<lparr>u_id = nextId s, discordId = d, xp = 0\<rparr>
           in (u, s\<lparr>users := users s @ [u], nextId := nextId s + 1\<rparr>)))"

definition addXP :: "string \<Rightarrow> int \<Rightarrow> db \<Rightarrow> (error + int) \<times> db" where
  "addXP d amount s =
     (let (u, s1) = getOrCreateUser d s;
          newXP = max 0 (xp u + amount)
      in (Inr newXP, setUserXpByDiscordId d newXP s1))"

definition removeXP :: "string \<Rightarrow> int \<Rightarrow> db \<Rightarrow> (error + int) \<times> db" where
  "removeXP d amount s =
     (let (u, s1) = getOrCreateUser d s;
          newXP = max 0 (xp u - amount)
      in (Inr newXP, setUserXpByDiscordId d newXP s1))"

subsection \<open>Reset\<close>

definition resetProblemStats :: "string \<Rightarrow> db \<Rightarrow> (error + ResetProblemResult) \<times> db" where
  "resetProblemStats problemNumber s =
     (case findProblemByNumber problemNumber s of
        None \<Rightarrow> (Inl NotFound, s)
      | Some p \<Rightarrow>
          (let deleted = length (filter (\<lambda>a. problemId a = p_id p) (userAttempts s));
               s1 = s\<lparr>userAttempts := filter (\<lambda>a. problemId a \<noteq> p_id p) (userAttempts s)\<rparr>;
               resetBaseScore =
                 (if originalBaseScore p > 0 then originalBaseScore p else baseScore p);
               upd = (\<lambda>q. q\<lparr>p_attempts := 0, solves := 0, baseScore := resetBaseScore\<rparr>);
               s2 = updateProblem (p_id p) upd s1;
               updatedProblem = upd p
           in (Inr \<lparr>rr_problemNumber = number updatedProblem,
                    rr_clearedUserAttempts = deleted,
                    rr_originalBaseScore = originalBaseScore updatedProblem,
                    rr_currentBaseScore = baseScore updatedProblem\<rparr>, s2)))"

subsection \<open>Finalize and unfinalize\<close>

text \<open>
  The body of the loop of \<^verbatim>\<open>finalizeProblemScoring\<close>: \<open>attempt\<close> is the row as the
  \<^verbatim>\<open>findMany\<close> before the loop returned it; the accumulator is the store with the two
  counters.
\<close>

definition baselineAward :: "userAttempt \<Rightarrow> int" where
  "baselineAward attempt =
     (case preFinalizeAwardedXp attempt of Some b \<Rightarrow> b | None \<Rightarrow> awardedXp attempt)"

definition finalAward :: "int \<Rightarrow> userAttempt \<Rightarrow> int" where
  "finalAward finalBaseScore attempt =
     \<lfloor>real_of_int finalBaseScore * getSolveWeight (attempts attempt)\<rfloor>"

definition finalizeAttempt ::
  "int \<Rightarrow> userAttempt \<Rightarrow> db \<times> nat \<times> nat \<Rightarrow> db \<times> nat \<times> nat" where
  "finalizeAttempt finalBaseScore attempt acc =
     (case acc of (s, adjustedUsers, initializedUsers) \<Rightarrow>
        let baseline = baselineAward attempt;
            final = finalAward finalBaseScore attempt;
            (delta, s1, adjusted1, initialized1) =
              (if baseline = 0 then (0, s, adjustedUsers, initializedUsers + 1)
               else let delta = final - baseline
                    in if delta \<noteq> 0
                       then (delta, snd (adjustUserXPByDbId (userId attempt) delta s),
                             adjustedUsers + 1, initializedUsers)
                       else (delta, s, adjustedUsers, initializedUsers));
            s2 = updateUserAttempt (a_id attempt)
                   (\<lambda>a. a\<lparr>preFinalizeAwardedXp := Some baseline,
                           awardedXp := final,
                           finalizeDelta := delta\<rparr>) s1
        in (s2, adjusted1, initialized1))"

definition finalizeProblemScoring ::
  "nat \<Rightarrow> string \<Rightarrow> db \<Rightarrow> (error + FinalizeProblemResult) \<times> db" where
  "finalizeProblemScoring now problemNumber s =
     (case findProblemByNumber problemNumber s of
        None \<Rightarrow> (Inl NotFound, s)
      | Some p \<Rightarrow>
          if isFinalized p then (Inl AlreadyFinalized, s)
          else
            let solvedAttempts = findSolvedAttempts (p_id p) s;
                weightedSolves = sumSolveWeights solvedAttempts;
                finalBaseScore = getDynamicBaseFromWeightedSolves weightedSolves;
                (s1, adjustedUsers, initializedUsers) =
                  fold (finalizeAttempt finalBaseScore) solvedAttempts (s, 0, 0);
                s2 = updateProblem (p_id p)
                       (\<lambda>q. q\<lparr>baseScore := finalBaseScore,
                               isFinalized := True,
                               finalizedAt := Some now\<rparr>) s1
            in (Inr \<lparr>fr_problemNumber = number p,
                     fr_finalBaseScore = finalBaseScore,
                     fr_weightedSolves = weightedSolves,
                     fr_adjustedUsers = adjustedUsers,
                     fr_initializedUsers = initializedUsers\<rparr>, s2))"

definition unfinalizeAttempt :: "userAttempt \<Rightarrow> db \<times> nat \<Rightarrow> db \<times> nat" where
  "unfinalizeAttempt attempt acc =
     (case acc of (s, revertedUsers) \<Rightarrow>
        (case preFinalizeAwardedXp attempt of
           None \<Rightarrow> (s, revertedUsers)
         | Some pre \<Rightarrow>
            let reverseDelta = - finalizeDelta attempt;
                (s1, reverted1) =
                  (if reverseDelta \<noteq> 0
                   then (snd (adjustUserXPByDbId (userId attempt) reverseDelta s),
                         revertedUsers + 1)
                   else (s, revertedUsers));
                s2 = updateUserAttempt (a_id attempt)
                       (\<lambda>a. a\<lparr>awardedXp := pre,
                               preFinalizeAwardedXp := None,
                               finalizeDelta := 0\<rparr>) s1
            in (s2, reverted1)))"

definition unfinalizeProblemScoring ::
  "string \<Rightarrow> db \<Rightarrow> (error + UnfinalizeProblemResult) \<times> db" where
  "unfinalizeProblemScoring problemNumber s =
     (case findProblemByNumber problemNumber s of
        None \<Rightarrow> (Inl NotFound, s)
      | Some p \<Rightarrow>
          if \<not> isFinalized p then (Inl NotFinalized, s)
          else
            let solvedAttempts = findSolvedAttempts (p_id p) s;
                (s1, revertedUsers) = fold unfinalizeAttempt solvedAttempts (s, 0);
                weightedSolves = getWeightedSolves (p_id p) s1;
                restoredBaseScore = getDynamicBaseFromWeightedSolves weightedSolves;
                s2 = updateProblem (p_id p)
                       (\<lambda>q. q\<lparr>baseScore := restoredBaseScore,
                               isFinalized := False,
                               finalizedAt := None\<rparr>) s1
            in (Inr \<lparr>ur_problemNumber = number p,
                     ur_restoredBaseScore = restoredBaseScore,
                     ur_revertedUsers = revertedUsers\<rparr>, s2))"

subsection \<open>Recording an attempt\<close>

text \<open>
  The spreadsheet lookup is a parameter \<open>sheet\<close>: for a problem number it gives
  \<^verbatim>\<open>parseInt(getProblemByNumber(n).baseScore, 10)\<close>, or fails when the sheet has no such
  row (a cell that is no number is a failure as well: the integer column cannot hold
  NaN).

  \<open>loadOrCreateProblem\<close> is the head of \<^verbatim>\<open>recordAttempt\<close> up to the finalized check,
  \<open>backfillOriginalBaseScore\<close> the legacy backfill, \<open>scoreAttempt\<close> the rest. The local
  variable \<^verbatim>\<open>problem\<close> of the source is rebound only by the create and by the backfill;
  the later updates of the problem row do not change it.
\<close>

definition loadOrCreateProblem ::
  "(string \<Rightarrow> error + int) \<Rightarrow> string \<Rightarrow> db \<Rightarrow> (error + problem) \<times> db" where
  "loadOrCreateProblem sheet problemNumber s =
     (case findProblemByNumber problemNumber s of
        Some p \<Rightarrow> (Inr p, s)
      | None \<Rightarrow>
          (case sheet problemNumber of
             Inl e \<Rightarrow> (Inl e, s)
           | Inr original \<Rightarrow>
               let p = \<lparr>p_id = nextId s, number = problemNumber,
                        originalBaseScore = original, baseScore = original,
                        p_attempts = 0, solves = 0,
                        isFinalized = False, finalizedAt = None\<rparr>
               in (Inr p, s\<lparr>problems := problems s @ [p], nextId := nextId s + 1\<rparr>)))"

definition backfillOriginalBaseScore ::
  "(string \<Rightarrow> error + int) \<Rightarrow> string \<Rightarrow> problem \<Rightarrow> db \<Rightarrow> (error + problem) \<times> db" where
  "backfillOriginalBaseScore sheet problemNumber p s =
     (if originalBaseScore p \<le> 0
      then (case sheet problemNumber of
              Inl e \<Rightarrow> (Inl e, s)
            | Inr fallbackOriginal \<Rightarrow>
                (Inr (p\<lparr>originalBaseScore := fallbackOriginal\<rparr>),
                 updateProblem (p_id p)
                   (\<lambda>q. q\<lparr>originalBaseScore := fallbackOriginal\<rparr>) s))
      else (Inr p, s))"

definition getOrCreateUserAttempt :: "dbid \<Rightarrow> dbid \<Rightarrow> db \<Rightarrow> userAttempt \<times> db" where
  "getOrCreateUserAttempt uid pid s =
     (case findUserAttempt uid pid s of
        Some a \<Rightarrow> (a, s)
      | None \<Rightarrow>
          (let a = \<lparr>a_id = nextId s, userId = uid, problemId = pid,
                    attempts = 0, solved = False, awardedXp = 0,
                    preFinalizeAwardedXp = None, finalizeDelta = 0\<rparr>
           in (a, s\<lparr>userAttempts := userAttempts s @ [a], nextId := nextId s + 1\<rparr>)))"

definition scoreAttempt :: "string \<Rightarrow> bool \<Rightarrow> problem \<Rightarrow> db \<Rightarrow> AttemptResult \<times> db" where
  "scoreAttempt discord isCorrect p s =
     (let (dbUser, s1) = getOrCreateUser discord s;
          (userAttempt, s2) = getOrCreateUserAttempt (u_id dbUser) (p_id p) s1;
          newAttempts = attempts userAttempt + 1;
          solvedAfterReview = (solved userAttempt \<or> isCorrect);
          s3 = updateUserAttempt (a_id userAttempt)
                 (\<lambda>a. a\<lparr>attempts := newAttempts, solved := solvedAfterReview\<rparr>) s2;
          newlySolved = (isCorrect \<and> \<not> solved userAttempt);
          newGlobalAttempts = p_attempts p + 1;
          newGlobalSolves = solves p + (if newlySolved then 1 else 0);
          s4 = updateProblem (p_id p)
                 (\<lambda>q. q\<lparr>p_attempts := newGlobalAttempts, solves := newGlobalSolves\<rparr>) s3;
          weightedSolves = sumSolveWeights (findSolvedAttempts (p_id p) s4);
          newBaseScore = getDynamicBaseFromWeightedSolves weightedSolves;
          s5 = updateProblem (p_id p) (\<lambda>q. q\<lparr>baseScore := newBaseScore\<rparr>) s4
      in if newlySolved
         then
           let baseForAward =
                 (if originalBaseScore p > 0 then originalBaseScore p else baseScore p);
               awardedXP = \<lfloor>real_of_int baseForAward * getSolveWeight newAttempts\<rfloor>;
               (res, s6) = addXP discord awardedXP s5;
               userXP = (case res of Inr v \<Rightarrow> v | Inl e \<Rightarrow> 0);
               s7 = updateUserAttempt (a_id userAttempt) (\<lambda>a. a\<lparr>awardedXp := awardedXP\<rparr>) s6
           in (\<lparr>ar_awardedXP = awardedXP, ar_userXP = userXP,
                ar_attemptNumber = newAttempts,
                ar_totalProblemAttempts = newGlobalAttempts,
                ar_totalProblemSolves = newGlobalSolves,
                ar_weightedSolves = weightedSolves,
                ar_originalBaseScore = originalBaseScore p,
                ar_currentBaseScore = newBaseScore\<rparr>, s7)
         else
           let latestUser = findUserById (u_id dbUser) s5
           in (\<lparr>ar_awardedXP = 0,
                ar_userXP = (case latestUser of Some u \<Rightarrow> xp u | None \<Rightarrow> xp dbUser),
                ar_attemptNumber = newAttempts,
                ar_totalProblemAttempts = newGlobalAttempts,
                ar_totalProblemSolves = newGlobalSolves,
                ar_weightedSolves = weightedSolves,
                ar_originalBaseScore = originalBaseScore p,
                ar_currentBaseScore = newBaseScore\<rparr>, s5))"

definition recordAttempt ::
  "(string \<Rightarrow> error + int) \<Rightarrow> string \<Rightarrow> string \<Rightarrow> bool \<Rightarrow> db
     \<Rightarrow> (error + AttemptResult) \<times> db" where
  "recordAttempt sheet discord problemNumber isCorrect s =
     (case loadOrCreateProblem sheet problemNumber s of
        (Inl e, s1) \<Rightarrow> (Inl e, s1)
      | (Inr p0, s1) \<Rightarrow>
          if isFinalized p0 then (Inl FinalizedProblemError, s1)
          else
            (case backfillOriginalBaseScore sheet problemNumber p0 s1 of
               (Inl e, s2) \<Rightarrow> (Inl e, s2)
             | (Inr p, s2) \<Rightarrow>
                 (case scoreAttempt discord isCorrect p s2 of
                    (r, s3) \<Rightarrow> (Inr r, s3))))"

subsection \<open>Sequences of operations\<close>

text \<open>
  The exported operations of the module are the only code of the repository that writes
  to the store (the bot itself only reads it). A reachable store is what a sequence of
  them, each one returning or throwing, leaves of the empty store; the sheet may answer
  differently from call to call.
\<close>

datatype command =
    CmdGetOrCreateUser string
  | CmdAddXP string int
  | CmdRemoveXP string int
  | CmdRecordAttempt string string bool
  | CmdReset string
  | CmdFinalize nat string
  | CmdUnfinalize string

fun run :: "(string \<Rightarrow> error + int) \<Rightarrow> command \<Rightarrow> db \<Rightarrow> db" where
  "run sheet (CmdGetOrCreateUser d) s = snd (getOrCreateUser d s)"
| "run sheet (CmdAddXP d amount) s = snd (addXP d amount s)"
| "run sheet (CmdRemoveXP d amount) s = snd (removeXP d amount s)"
| "run sheet (CmdRecordAttempt d n c) s = snd (recordAttempt sheet d n c s)"
| "run sheet (CmdReset n) s = snd (resetProblemStats n s)"
| "run sheet (CmdFinalize now n) s = snd (finalizeProblemScoring now n s)"
| "run sheet (CmdUnfinalize n) s = snd (unfinalizeProblemScoring n s)"

inductive reachable :: "db \<Rightarrow> bool" where
  reachable_empty: "reachable emptyDb"
| reachable_step: "reachable s \<Longrightarrow> reachable (run sheet c s)"

subsection \<open>Notions used in the statements and proofs\<close>

text \<open>
  \<open>alreadySolved\<close>: the user has a solved attempt row for the problem; \<open>attemptsBefore\<close>:
  the attempts that row counts (0 when there is no such row). \<open>finalBaseScoreOf\<close>
  is the score finalize freezes, \<open>rowDelta\<close> the signed adjustment its loop computes for a
  row (0 for a baseline of 0), \<open>finalizedRow\<close> and \<open>unfinalizedRow\<close> what the two loops
  write to a row, \<open>reverseDeltaOf\<close> the adjustment unfinalize applies for a row, and
  \<open>adjustXpList\<close> the effect of \<^verbatim>\<open>adjustUserXPByDbId\<close> on the users table.
\<close>

definition alreadySolved :: "string \<Rightarrow> string \<Rightarrow> db \<Rightarrow> bool" where
  "alreadySolved d n s =
     (case findUserByDiscordId d s of
        None \<Rightarrow> False
      | Some u \<Rightarrow>
          (case findProblemByNumber n s of
             None \<Rightarrow> False
           | Some p \<Rightarrow>
               (case findUserAttempt (u_id u) (p_id p) s of
                  None \<Rightarrow> False
                | Some a \<Rightarrow> solved a)))"

definition attemptsBefore :: "string \<Rightarrow> string \<Rightarrow> db \<Rightarrow> int" where
  "attemptsBefore d n s =
     (case findUserByDiscordId d s of
        None \<Rightarrow> 0
      | Some u \<Rightarrow>
          (case findProblemByNumber n s of
             None \<Rightarrow> 0
           | Some p \<Rightarrow>
               (case findUserAttempt (u_id u) (p_id p) s of
                  None \<Rightarrow> 0
                | Some a \<Rightarrow> attempts a)))"

definition finalBaseScoreOf :: "dbid \<Rightarrow> db \<Rightarrow> int" where
  "finalBaseScoreOf pid s =
     getDynamicBaseFromWeightedSolves (sumSolveWeights (findSolvedAttempts pid s))"

definition rowDelta :: "int \<Rightarrow> userAttempt \<Rightarrow> int" where
  "rowDelta fbs a =
     (if baselineAward a = 0 then 0 else finalAward fbs a - baselineAward a)"

definition finalizedRow :: "int \<Rightarrow> userAttempt \<Rightarrow> userAttempt \<Rightarrow> userAttempt" where
  "finalizedRow fbs r x =
     x\<lparr>preFinalizeAwardedXp := Some (baselineAward r),
       awardedXp := finalAward fbs r,
       finalizeDelta := rowDelta fbs r\<rparr>"

definition unfinalizedRow :: "userAttempt \<Rightarrow> userAttempt \<Rightarrow> userAttempt" where
  "unfinalizedRow r x =
     (case preFinalizeAwardedXp r of
        None \<Rightarrow> x
      | Some pre \<Rightarrow> x\<lparr>awardedXp := pre, preFinalizeAwardedXp := None, finalizeDelta := 0\<rparr>)"

definition reverseDeltaOf :: "userAttempt \<Rightarrow> int" where
  "reverseDeltaOf r =
     (case preFinalizeAwardedXp r of None \<Rightarrow> 0 | Some pre \<Rightarrow> - finalizeDelta r)"

definition adjustXpList :: "dbid \<Rightarrow> int \<Rightarrow> user list \<Rightarrow> user list" where
  "adjustXpList uid delta us =
     (if delta = 0 then us
      else case find (\<lambda>u. u_id u = uid) us of
        None \<Rightarrow> us
      | Some u \<Rightarrow> map (\<lambda>x. if u_id x = uid then x\<lparr>xp := max 0 (xp u + delta)\<rparr> else x) us)"

definition byRow :: "userAttempt list \<Rightarrow> (userAttempt \<Rightarrow> userAttempt \<Rightarrow> userAttempt)
    \<Rightarrow> userAttempt \<Rightarrow> userAttempt" where
  "byRow rows f x =
     (case find (\<lambda>r. a_id r = a_id x) rows of None \<Rightarrow> x | Some r \<Rightarrow> f r x)"

definition clampAdd :: "int \<Rightarrow> int \<Rightarrow> int" where
  "clampAdd x delta = (if delta = 0 then x else max 0 (x + delta))"

definition byUser :: "userAttempt list \<Rightarrow> (userAttempt \<Rightarrow> int) \<Rightarrow> user \<Rightarrow> user" where
  "byUser rows delta u =
     (case find (\<lambda>r. userId r = u_id u) rows of
        None \<Rightarrow> u
      | Some r \<Rightarrow> u\<lparr>xp := clampAdd (xp u) (delta r)\<rparr>)"

text \<open>
  Invariants of the reachable stores: balances are not negative; ids come from the
  counter; ids and (user, problem) pairs are unique; a row without a snapshot has
  \<^verbatim>\<open>finalizeDelta\<close> 0, an unsolved row has no snapshot, and no row of a problem that is
  not finalized has one.
\<close>

definition xpNonneg :: "db \<Rightarrow> bool" where
  "xpNonneg s = (\<forall>u \<in> set (users s). 0 \<le> xp u)"

definition idsFresh :: "db \<Rightarrow> bool" where
  "idsFresh s \<longleftrightarrow>
     (\<forall>u \<in> set (users s). u_id u < nextId s) \<and>
     (\<forall>p \<in> set (problems s). p_id p < nextId s) \<and>
     (\<forall>a \<in> set (userAttempts s).
        a_id a < nextId s \<and> userId a < nextId s \<and> problemId a < nextId s)"

definition keysDistinct :: "db \<Rightarrow> bool" where
  "keysDistinct s \<longleftrightarrow>
     distinct (map u_id (users s)) \<and>
     distinct (map a_id (userAttempts s)) \<and>
     distinct (map (\<lambda>a. (userId a, problemId a)) (userAttempts s))"

definition snapshotsClean :: "db \<Rightarrow> bool" where
  "snapshotsClean s \<longleftrightarrow>
     (\<forall>a \<in> set (userAttempts s).
        (preFinalizeAwardedXp a = None \<longrightarrow> finalizeDelta a = 0) \<and>
        (\<not> solved a \<longrightarrow> preFinalizeAwardedXp a = None)) \<and>
     (\<forall>p \<in> set (problems s). \<not> isFinalized p \<longrightarrow>
        (\<forall>a \<in> set (userAttempts s). problemId a = p_id p \<longrightarrow> preFinalizeAwardedXp a = None))"

definition wellFormed :: "db \<Rightarrow> bool" where
  "wellFormed s \<longleftrightarrow> idsFresh s \<and> keysDistinct s \<and> snapshotsClean s \<and> xpNonneg s"

subsection \<open>Concrete stores\<close>

text \<open>
  The scenario of the specification: the sheet prices problem 7 at 100; user A solves it
  on the first attempt, user B on the second. \<open>demoOpen\<close> is the store after these three
  attempts, starting from the empty store.
\<close>

definition demoSheet :: "string \<Rightarrow> error + int" where
  "demoSheet n = (if n = ''7'' then Inr 100 else Inl ExternalSourceError)"

definition demoProblem :: problem where
  "demoProblem = \<lparr>p_id = 0, number = ''7'', originalBaseScore = 100, baseScore = 25,
     p_attempts = 3, solves = 2, isFinalized = False, finalizedAt = None\<rparr>"

definition demoUsers :: "user list" where
  "demoUsers = [\<lparr>u_id = 1, discordId = ''A'', xp = 100\<rparr>,
                \<lparr>u_id = 3, discordId = ''B'', xp = 80\<rparr>]"

definition demoAttempts :: "userAttempt list" where
  "demoAttempts =
     [\<lparr>a_id = 2, userId = 1, problemId = 0, attempts = 1, solved = True,
       awardedXp = 100, preFinalizeAwardedXp = None, finalizeDelta = 0\<rparr>,
      \<lparr>a_id = 4, userId = 3, problemId = 0, attempts = 2, solved = True,
       awardedXp = 80, preFinalizeAwardedXp = None, finalizeDelta = 0\<rparr>]"

definition demoOpen :: db where
  "demoOpen = \<lparr>users = demoUsers, problems = [demoProblem],
                userAttempts = demoAttempts, nextId = 5\<rparr>"

definition demoFinalized :: db where
  "demoFinalized =
     demoOpen\<lparr>problems := [demoProblem\<lparr>isFinalized := True, finalizedAt := Some 0\<rparr>]\<rparr>"

definition demoAfterA :: db where
  "demoAfterA = \<lparr>users = [\<lparr>u_id = 1, discordId = ''A'', xp = 100\<rparr>],
     problems = [\<lparr>p_id = 0, number = ''7'', originalBaseScore = 100, baseScore = 25,
                  p_attempts = 1, solves = 1, isFinalized = False, finalizedAt = None\<rparr>],
     userAttempts = [\<lparr>a_id = 2, userId = 1, problemId = 0, attempts = 1, solved = True,
                      awardedXp = 100, preFinalizeAwardedXp = None, finalizeDelta = 0\<rparr>],
     nextId = 3\<rparr>"

definition demoAfterBWrong :: db where
  "demoAfterBWrong = \<lparr>users = [\<lparr>u_id = 1, discordId = ''A'', xp = 100\<rparr>,
                               \<lparr>u_id = 3, discordId = ''B'', xp = 0\<rparr>],
     problems = [\<lparr>p_id = 0, number = ''7'', originalBaseScore = 100, baseScore = 25,
                  p_attempts = 2, solves = 1, isFinalized = False, finalizedAt = None\<rparr>],
     userAttempts = [\<lparr>a_id = 2, userId = 1, problemId = 0, attempts = 1, solved = True,
                      awardedXp = 100, preFinalizeAwardedXp = None, finalizeDelta = 0\<rparr>,
                     \<lparr>a_id = 4, userId = 3, problemId = 0, attempts = 1, solved = False,
                      awardedXp = 0, preFinalizeAwardedXp = None, finalizeDelta = 0\<rparr>],
     nextId = 5\<rparr>"

definition demoResultB :: AttemptResult where
  "demoResultB = \<lparr>ar_awardedXP = 80, ar_userXP = 80, ar_attemptNumber = 2,
     ar_totalProblemAttempts = 3, ar_totalProblemSolves = 2, ar_weightedSolves = 9 / 5,
     ar_originalBaseScore = 100, ar_currentBaseScore = 25\<rparr>"

text \<open>
  \<open>demoLowXp\<close> is \<open>demoOpen\<close> after \<^verbatim>\<open>removeXP\<close> has taken 90 XP from user A;
  \<open>demoLowXpFinalized\<close> and \<open>demoLowXpRestored\<close> are what finalize and then unfinalize
  make of it.
\<close>

definition demoLowXp :: db where
  "demoLowXp = demoOpen\<lparr>users := [\<lparr>u_id = 1, discordId = ''A'', xp = 10\<rparr>,
                                  \<lparr>u_id = 3, discordId = ''B'', xp = 80\<rparr>]\<rparr>"

definition demoLowXpFinalized :: db where
  "demoLowXpFinalized =
     \<lparr>users = [\<lparr>u_id = 1, discordId = ''A'', xp = 0\<rparr>,
               \<lparr>u_id = 3, discordId = ''B'', xp = 20\<rparr>],
      problems = [demoProblem\<lparr>isFinalized := True, finalizedAt := Some 1\<rparr>],
      userAttempts =
        [\<lparr>a_id = 2, userId = 1, problemId = 0, attempts = 1, solved = True,
          awardedXp = 25, preFinalizeAwardedXp = Some 100, finalizeDelta = - 75\<rparr>,
         \<lparr>a_id = 4, userId = 3, problemId = 0, attempts = 2, solved = True,
          awardedXp = 20, preFinalizeAwardedXp = Some 80, finalizeDelta = - 60\<rparr>],
      nextId = 5\<rparr>"

definition demoLowXpRestored :: db where
  "demoLowXpRestored = demoOpen\<lparr>users := [\<lparr>u_id = 1, discordId = ''A'', xp = 75\<rparr>,
                                          \<lparr>u_id = 3, discordId = ''B'', xp = 80\<rparr>]\<rparr>"

text \<open>
  A sheet that prices problem 8 at 0. \<open>demoZero\<close>: user A solves it at once and is
  awarded 0. \<open>demoStale\<close>: user B fails it once, which leaves \<^verbatim>\<open>originalBaseScore\<close> 0 and
  \<^verbatim>\<open>baseScore\<close> 34; \<open>demoStaleSolved\<close>: user A then solves it.
\<close>

definition demoZeroSheet :: "string \<Rightarrow> error + int" where
  "demoZeroSheet n = (if n = ''8'' then Inr 0 else Inl ExternalSourceError)"

definition demoZeroProblem :: problem where
  "demoZeroProblem = \<lparr>p_id = 0, number = ''8'', originalBaseScore = 0, baseScore = 25,
     p_attempts = 1, solves = 1, isFinalized = False, finalizedAt = None\<rparr>"

definition demoZeroAttempt :: userAttempt where
  "demoZeroAttempt = \<lparr>a_id = 2, userId = 1, problemId = 0, attempts = 1, solved = True,
     awardedXp = 0, preFinalizeAwardedXp = None, finalizeDelta = 0\<rparr>"

definition demoZero :: db where
  "demoZero = \<lparr>users = [\<lparr>u_id = 1, discordId = ''A'', xp = 0\<rparr>],
     problems = [demoZeroProblem], userAttempts = [demoZeroAttempt], nextId = 3\<rparr>"

definition demoStale :: db where
  "demoStale = \<lparr>users = [\<lparr>u_id = 1, discordId = ''B'', xp = 0\<rparr>],
     problems = [\<lparr>p_id = 0, number = ''8'', originalBaseScore = 0, baseScore = 34,
                  p_attempts = 1, solves = 0, isFinalized = False, finalizedAt = None\<rparr>],
     userAttempts = [\<lparr>a_id = 2, userId = 1, problemId = 0, attempts = 1, solved = False,
                      awardedXp = 0, preFinalizeAwardedXp = None, finalizeDelta = 0\<rparr>],
     nextId = 3\<rparr>"

definition demoStaleSolved :: db where
  "demoStaleSolved = \<lparr>users = [\<lparr>u_id = 1, discordId = ''B'', xp = 0\<rparr>,
                               \<lparr>u_id = 3, discordId = ''A'', xp = 34\<rparr>],
     problems = [\<lparr>p_id = 0, number = ''8'', originalBaseScore = 0, baseScore = 25,
                  p_attempts = 2, solves = 1, isFinalized = False, finalizedAt = None\<rparr>],
     userAttempts = [\<lparr>a_id = 2, userId = 1, problemId = 0, attempts = 1, solved = False,
                      awardedXp = 0, preFinalizeAwardedXp = None, finalizeDelta = 0\<rparr>,
                     \<lparr>a_id = 4, userId = 3, problemId = 0, attempts = 1, solved = True,
                      awardedXp = 34, preFinalizeAwardedXp = None, finalizeDelta = 0\<rparr>],
     nextId = 5\<rparr>"

text \<open>
  A sheet that prices problem 9 at -5, and the store after user A has solved it at once
  on the empty store. \<open>demoTen\<close>: the store after \<^verbatim>\<open>addXP\<close> has given user A 10 XP on the
  empty store.
\<close>

definition demoNegSheet :: "string \<Rightarrow> error + int" where
  "demoNegSheet n = (if n = ''9'' then Inr (- 5) else Inl ExternalSourceError)"

definition demoNeg :: db where
  "demoNeg = \<lparr>users = [\<lparr>u_id = 1, discordId = ''A'', xp = 0\<rparr>],
     problems = [\<lparr>p_id = 0, number = ''9'', originalBaseScore = - 5, baseScore = 25,
                  p_attempts = 1, solves = 1, isFinalized = False, finalizedAt = None\<rparr>],
     userAttempts = [\<lparr>a_id = 2, userId = 1, problemId = 0, attempts = 1, solved = True,
                      awardedXp = - 5, preFinalizeAwardedXp = None, finalizeDelta = 0\<rparr>],
     nextId = 3\<rparr>"

definition demoTen :: db where
  "demoTen = \<lparr>users = [\<lparr>u_id = 0, discordId = ''A'', xp = 10\<rparr>], problems = [],
               userAttempts = [], nextId = 1\<rparr>"

section \<open>Basic facts\<close>

lemma find_map_upd:
  assumes "find P xs = Some p" and "\<And>q. P (f q) = P q"
  shows "find P (map (\<lambda>q. if g q then f q else q) xs) = Some (if g p then f p else p)"
  using assms by (induction xs) (auto split: if_splits)

lemma find_map_upd_None:
  assumes "find P xs = None" and "\<And>q. P (f q) = P q"
  shows "find P (map (\<lambda>q. if g q then f q else q) xs) = None"
  using assms by (induction xs) (auto split: if_splits)

lemma updateProblem_sel [simp]:
  "users (updateProblem i f s) = users s"
  "userAttempts (updateProblem i f s) = userAttempts s"
  "nextId (updateProblem i f s) = nextId s"
  by (simp_all add: updateProblem_def)

lemma findProblem_updateProblem:
  assumes "findProblemByNumber n s = Some p" and "\<And>q. number (f q) = number q"
  shows "findProblemByNumber n (updateProblem (p_id p) f s) = Some (f p)"
  using find_map_upd [where P = "\<lambda>p. number p = n" and f = f and g = "\<lambda>q. p_id q = p_id p",
      OF assms(1) [unfolded findProblemByNumber_def]] assms(2)
  by (simp add: findProblemByNumber_def updateProblem_def)

lemma sumSolveWeights_Nil: "sumSolveWeights [] = 0"
  by (simp add: sumSolveWeights_def)

lemma curved_0: "curved 0 = 3352515 / 100000"
  by (simp add: curved_def CURVE_A1_def CURVE_B1_def)

lemma dyn_0: "getDynamicBaseFromWeightedSolves 0 = 34"
  by (simp add: getDynamicBaseFromWeightedSolves_def curved_0 MIN_DYNAMIC_BASE_SCORE_def
      round_def)

lemma demo_find_open: "findProblemByNumber ''7'' demoOpen = Some demoProblem"
  by (simp add: findProblemByNumber_def demoOpen_def demoProblem_def)

lemma demo_find_finalized:
  "findProblemByNumber ''7'' demoFinalized =
     Some (demoProblem\<lparr>isFinalized := True, finalizedAt := Some 0\<rparr>)"
  by (simp add: findProblemByNumber_def demoFinalized_def demoOpen_def demoProblem_def)

section \<open>The two paths of the XP adjustment\<close>

text \<open>
  C3, as the code has it. The claim says the adjustment by internal id fails with
  NotFound when no user has that id. \<^verbatim>\<open>adjustUserXPByDbId\<close> returns at \<^verbatim>\<open>if (!user) return;\<close>
  instead: on the empty store, with delta 5, it returns normally and leaves the store
  as it is.
\<close>

theorem adjust_missing_user_counterexample:
  "findUserById 7 emptyDb = None \<and>
   adjustUserXPByDbId 7 5 emptyDb = (Inr (), emptyDb) \<and>
   fst (adjustUserXPByDbId 7 5 emptyDb) \<noteq> Inl NotFound"
  by (simp add: adjustUserXPByDbId_def findUserById_def emptyDb_def)

text \<open>
  C3, amended: neither path fails for a missing user. \<^verbatim>\<open>addXP\<close> and \<^verbatim>\<open>removeXP\<close>, called
  with an external id no user has, create the user with balance 0 and then store
  \<open>max 0 amount\<close> (\<open>max 0 (- amount)\<close> for \<^verbatim>\<open>removeXP\<close>); \<^verbatim>\<open>adjustUserXPByDbId\<close>, called
  with an internal id no user has, returns without error and without any write, for
  every delta.
\<close>

theorem adjust_paths_missing_user:
  "(findUserByDiscordId d s = None \<longrightarrow>
      addXP d amount s =
        (Inr (max 0 amount),
         s\<lparr>users := users s @ [\<lparr>u_id = nextId s, discordId = d, xp = max 0 amount\<rparr>],
           nextId := nextId s + 1\<rparr>) \<and>
      removeXP d amount s =
        (Inr (max 0 (- amount)),
         s\<lparr>users := users s @ [\<lparr>u_id = nextId s, discordId = d, xp = max 0 (- amount)\<rparr>],
           nextId := nextId s + 1\<rparr>)) \<and>
   (findUserById uid s = None \<longrightarrow> adjustUserXPByDbId uid delta s = (Inr (), s))"
proof -
  have keep: "map (\<lambda>u. if discordId u = d then u\<lparr>xp := v\<rparr> else u) (users s) = users s"
    if "findUserByDiscordId d s = None" for v
  proof -
    from that have "\<forall>u \<in> set (users s). discordId u \<noteq> d"
      by (simp add: findUserByDiscordId_def find_None_iff)
    then show ?thesis by (simp add: map_idI)
  qed
  show ?thesis
    by (auto simp: addXP_def removeXP_def getOrCreateUser_def setUserXpByDiscordId_def
        adjustUserXPByDbId_def keep Let_def)
qed

theorem adjust_paths_missing_user_witness:
  "findUserByDiscordId ''C'' demoOpen = None \<and>
   findUserById 9 demoOpen = None \<and>
   fst (addXP ''C'' 30 demoOpen) = Inr 30 \<and>
   fst (removeXP ''C'' 30 demoOpen) = Inr 0 \<and>
   users (snd (addXP ''C'' 30 demoOpen)) =
     demoUsers @ [\<lparr>u_id = 5, discordId = ''C'', xp = 30\<rparr>] \<and>
   adjustUserXPByDbId 9 (- 40) demoOpen = (Inr (), demoOpen)"
proof -
  have h1: "findUserByDiscordId ''C'' demoOpen = None"
    by (simp add: findUserByDiscordId_def demoOpen_def demoUsers_def)
  have h2: "findUserById 9 demoOpen = None"
    by (simp add: findUserById_def demoOpen_def demoUsers_def)
  from adjust_paths_missing_user [of "''C''" demoOpen 30 9 "- 40"] h1 h2
  have "addXP ''C'' 30 demoOpen =
          (Inr 30, demoOpen\<lparr>users := users demoOpen @ [\<lparr>u_id = nextId demoOpen,
             discordId = ''C'', xp = 30\<rparr>], nextId := nextId demoOpen + 1\<rparr>)"
    and "removeXP ''C'' 30 demoOpen =
          (Inr 0, demoOpen\<lparr>users := users demoOpen @ [\<lparr>u_id = nextId demoOpen,
             discordId = ''C'', xp = 0\<rparr>], nextId := nextId demoOpen + 1\<rparr>)"
    and "adjustUserXPByDbId 9 (- 40) demoOpen = (Inr (), demoOpen)"
    by simp_all
  with h1 h2 show ?thesis
    by (simp add: demoOpen_def)
qed

section \<open>Operations in the wrong state\<close>

text \<open>
  C4: on a finalized problem \<^verbatim>\<open>recordAttempt\<close> fails with FinalizedProblemError and
  \<^verbatim>\<open>finalizeProblemScoring\<close> with AlreadyFinalized; on a problem that is not finalized
  \<^verbatim>\<open>unfinalizeProblemScoring\<close> fails with NotFinalized. In each case the store the
  operation leaves is the store it was given: problems, attempt rows and users are
  unchanged.
\<close>

theorem wrong_state_rejected:
  assumes "findProblemByNumber n s = Some p"
  shows "(isFinalized p \<longrightarrow>
            recordAttempt sheet d n c s = (Inl FinalizedProblemError, s) \<and>
            finalizeProblemScoring now n s = (Inl AlreadyFinalized, s)) \<and>
         (\<not> isFinalized p \<longrightarrow>
            unfinalizeProblemScoring n s = (Inl NotFinalized, s))"
  using assms
  by (simp add: recordAttempt_def loadOrCreateProblem_def finalizeProblemScoring_def
      unfinalizeProblemScoring_def)

theorem wrong_state_rejected_witness:
  "findProblemByNumber ''7'' demoFinalized =
     Some (demoProblem\<lparr>isFinalized := True, finalizedAt := Some 0\<rparr>) \<and>
   findProblemByNumber ''7'' demoOpen = Some demoProblem \<and>
   recordAttempt demoSheet ''A'' ''7'' True demoFinalized =
     (Inl FinalizedProblemError, demoFinalized) \<and>
   finalizeProblemScoring 1 ''7'' demoFinalized = (Inl AlreadyFinalized, demoFinalized) \<and>
   unfinalizeProblemScoring ''7'' demoOpen = (Inl NotFinalized, demoOpen)"
  using wrong_state_rejected [OF demo_find_finalized, of demoSheet "''A''" True 1]
    wrong_state_rejected [OF demo_find_open, of demoSheet "''A''" True 1]
    demo_find_finalized demo_find_open
  by (simp add: demoProblem_def)

section \<open>Reset\<close>

text \<open>
  C9: for a problem that exists, \<^verbatim>\<open>resetProblemStats\<close> succeeds; it deletes exactly the
  attempt rows of that problem, sets the problem's \<^verbatim>\<open>attempts\<close> and \<^verbatim>\<open>solves\<close> to 0 and its
  \<^verbatim>\<open>baseScore\<close> to \<^verbatim>\<open>originalBaseScore\<close> when that is positive (else keeps the current
  \<^verbatim>\<open>baseScore\<close>), and leaves the users table, hence every balance, as it was.
\<close>

theorem resetProblemStats_effect:
  assumes "findProblemByNumber n s = Some p"
  shows "\<exists>r s'. resetProblemStats n s = (Inr r, s') \<and>
           userAttempts s' = filter (\<lambda>a. problemId a \<noteq> p_id p) (userAttempts s) \<and>
           (\<forall>a \<in> set (userAttempts s'). problemId a \<noteq> p_id p) \<and>
           findProblemByNumber n s' =
             Some (p\<lparr>p_attempts := 0, solves := 0,
                     baseScore := (if originalBaseScore p > 0 then originalBaseScore p
                                   else baseScore p)\<rparr>) \<and>
           users s' = users s \<and>
           rr_clearedUserAttempts r =
             length (filter (\<lambda>a. problemId a = p_id p) (userAttempts s)) \<and>
           rr_currentBaseScore r =
             (if originalBaseScore p > 0 then originalBaseScore p else baseScore p)"
proof -
  let ?s1 = "s\<lparr>userAttempts := filter (\<lambda>a. problemId a \<noteq> p_id p) (userAttempts s)\<rparr>"
  let ?upd = "\<lambda>q. q\<lparr>p_attempts := 0, solves := 0,
     baseScore := (if originalBaseScore p > 0 then originalBaseScore p else baseScore p)\<rparr>"
  have f1: "findProblemByNumber n ?s1 = Some p"
    using assms by (simp add: findProblemByNumber_def)
  have "findProblemByNumber n (updateProblem (p_id p) ?upd ?s1) = Some (?upd p)"
    by (rule findProblem_updateProblem [OF f1]) simp
  then show ?thesis
    using assms by (simp add: resetProblemStats_def Let_def updateProblem_def)
qed

theorem resetProblemStats_effect_witness:
  "findProblemByNumber ''7'' demoOpen = Some demoProblem \<and>
   (\<exists>r s'. resetProblemStats ''7'' demoOpen = (Inr r, s') \<and>
      userAttempts s' = [] \<and>
      findProblemByNumber ''7'' s' =
        Some (demoProblem\<lparr>p_attempts := 0, solves := 0, baseScore := 100\<rparr>) \<and>
      users s' = demoUsers \<and>
      rr_clearedUserAttempts r = 2 \<and>
      rr_currentBaseScore r = 100)"
proof -
  from resetProblemStats_effect [OF demo_find_open] obtain r s' where
    "resetProblemStats ''7'' demoOpen = (Inr r, s')"
    "userAttempts s' = filter (\<lambda>a. problemId a \<noteq> p_id demoProblem) (userAttempts demoOpen)"
    "findProblemByNumber ''7'' s' =
       Some (demoProblem\<lparr>p_attempts := 0, solves := 0,
               baseScore := (if originalBaseScore demoProblem > 0
                             then originalBaseScore demoProblem else baseScore demoProblem)\<rparr>)"
    "users s' = users demoOpen"
    "rr_clearedUserAttempts r =
       length (filter (\<lambda>a. problemId a = p_id demoProblem) (userAttempts demoOpen))"
    "rr_currentBaseScore r =
       (if originalBaseScore demoProblem > 0
        then originalBaseScore demoProblem else baseScore demoProblem)"
    by blast
  then have "resetProblemStats ''7'' demoOpen = (Inr r, s') \<and>
      userAttempts s' = [] \<and>
      findProblemByNumber ''7'' s' =
        Some (demoProblem\<lparr>p_attempts := 0, solves := 0, baseScore := 100\<rparr>) \<and>
      users s' = demoUsers \<and>
      rr_clearedUserAttempts r = 2 \<and>
      rr_currentBaseScore r = 100"
    by (simp add: demoOpen_def demoProblem_def demoAttempts_def)
  then show ?thesis
    using demo_find_open by blast
qed

section \<open>Finalizing a problem nobody solved\<close>

text \<open>
  C10: for a problem that exists, is not finalized and has no solved attempt row,
  \<^verbatim>\<open>finalizeProblemScoring\<close> succeeds: the problem becomes finalized with \<^verbatim>\<open>baseScore\<close> the
  curve value at zero weighted solves (which is 34), no attempt row and no user is
  touched, and the result reports weighted solves 0 and both counters 0.
\<close>

theorem finalize_without_solvers:
  assumes "findProblemByNumber n s = Some p"
    and "\<not> isFinalized p"
    and "findSolvedAttempts (p_id p) s = []"
  shows "\<exists>r s'. finalizeProblemScoring now n s = (Inr r, s') \<and>
           findProblemByNumber n s' =
             Some (p\<lparr>baseScore := getDynamicBaseFromWeightedSolves 0,
                     isFinalized := True, finalizedAt := Some now\<rparr>) \<and>
           getDynamicBaseFromWeightedSolves 0 = 34 \<and>
           userAttempts s' = userAttempts s \<and>
           users s' = users s \<and>
           fr_finalBaseScore r = getDynamicBaseFromWeightedSolves 0 \<and>
           fr_weightedSolves r = 0 \<and>
           fr_adjustedUsers r = 0 \<and>
           fr_initializedUsers r = 0"
proof -
  let ?upd = "\<lambda>q. q\<lparr>baseScore := getDynamicBaseFromWeightedSolves 0,
                       isFinalized := True, finalizedAt := Some now\<rparr>"
  have "findProblemByNumber n (updateProblem (p_id p) ?upd s) = Some (?upd p)"
    by (rule findProblem_updateProblem [OF assms(1)]) simp
  moreover have "finalizeProblemScoring now n s =
      (Inr \<lparr>fr_problemNumber = number p,
            fr_finalBaseScore = getDynamicBaseFromWeightedSolves 0,
            fr_weightedSolves = 0, fr_adjustedUsers = 0, fr_initializedUsers = 0\<rparr>,
       updateProblem (p_id p) ?upd s)"
    using assms by (simp add: finalizeProblemScoring_def sumSolveWeights_Nil Let_def)
  ultimately show ?thesis
    by (simp add: dyn_0)
qed

theorem finalize_without_solvers_witness:
  "findProblemByNumber ''7'' (demoOpen\<lparr>userAttempts := []\<rparr>) = Some demoProblem \<and>
   \<not> isFinalized demoProblem \<and>
   findSolvedAttempts (p_id demoProblem) (demoOpen\<lparr>userAttempts := []\<rparr>) = [] \<and>
   (\<exists>r s'. finalizeProblemScoring 9 ''7'' (demoOpen\<lparr>userAttempts := []\<rparr>) = (Inr r, s') \<and>
      findProblemByNumber ''7'' s' =
        Some (demoProblem\<lparr>baseScore := 34, isFinalized := True, finalizedAt := Some 9\<rparr>) \<and>
      userAttempts s' = [] \<and> users s' = demoUsers \<and>
      fr_finalBaseScore r = 34 \<and> fr_weightedSolves r = 0 \<and>
      fr_adjustedUsers r = 0 \<and> fr_initializedUsers r = 0)"
proof -
  let ?s = "demoOpen\<lparr>userAttempts := []\<rparr>"
  have h1: "findProblemByNumber ''7'' ?s = Some demoProblem"
    by (simp add: findProblemByNumber_def demoOpen_def demoProblem_def)
  have h2: "\<not> isFinalized demoProblem"
    by (simp add: demoProblem_def)
  have h3: "findSolvedAttempts (p_id demoProblem) ?s = []"
    by (simp add: findSolvedAttempts_def)
  from finalize_without_solvers [OF h1 h2 h3, of 9] obtain r s' where
    "finalizeProblemScoring 9 ''7'' ?s = (Inr r, s')"
    "findProblemByNumber ''7'' s' =
       Some (demoProblem\<lparr>baseScore := getDynamicBaseFromWeightedSolves 0,
               isFinalized := True, finalizedAt := Some 9\<rparr>)"
    "getDynamicBaseFromWeightedSolves 0 = 34"
    "userAttempts s' = userAttempts ?s" "users s' = users ?s"
    "fr_finalBaseScore r = getDynamicBaseFromWeightedSolves 0"
    "fr_weightedSolves r = 0" "fr_adjustedUsers r = 0" "fr_initializedUsers r = 0"
    by blast
  then have "finalizeProblemScoring 9 ''7'' ?s = (Inr r, s') \<and>
      findProblemByNumber ''7'' s' =
        Some (demoProblem\<lparr>baseScore := 34, isFinalized := True, finalizedAt := Some 9\<rparr>) \<and>
      userAttempts s' = [] \<and> users s' = demoUsers \<and>
      fr_finalBaseScore r = 34 \<and> fr_weightedSolves r = 0 \<and>
      fr_adjustedUsers r = 0 \<and> fr_initializedUsers r = 0"
    by (simp add: demoOpen_def)
  then show ?thesis
    using h1 h2 h3 by blast
qed

section \<open>The curve at and beyond one weighted solve\<close>

lemma exp_neg_le_quadratic:
  fixes y :: real
  assumes "0 \<le> y"
  shows "exp (- y) \<le> 1 / (1 + y + y\<^sup>2 / 2)"
proof -
  have l: "1 + y + y\<^sup>2 / 2 \<le> exp y"
    by (rule exp_lower_Taylor_quadratic [OF assms])
  have pos: "0 < 1 + y + y\<^sup>2 / 2"
    using assms by (simp add: add_pos_nonneg)
  have "exp (- y) = 1 / exp y"
    by (simp add: exp_minus inverse_eq_divide)
  also have "\<dots> \<le> 1 / (1 + y + y\<^sup>2 / 2)"
    using l pos by (simp add: frac_le)
  finally show ?thesis .
qed

lemma curved_mono:
  assumes "1 \<le> w"
  shows "curved w \<le> curved 1"
proof -
  have a: "exp (CURVE_a1 * w) \<le> exp (CURVE_a1 * 1)"
    using assms by (simp add: CURVE_a1_def)
  have b: "exp (CURVE_b1 * w) \<le> exp (CURVE_b1 * 1)"
    using assms by (simp add: CURVE_b1_def)
  have "CURVE_A1 * exp (CURVE_a1 * w) \<le> CURVE_A1 * exp (CURVE_a1 * 1)"
    using a by (simp add: CURVE_A1_def)
  moreover have "CURVE_B1 * exp (CURVE_b1 * w) \<le> CURVE_B1 * exp (CURVE_b1 * 1)"
    using b by (simp add: CURVE_B1_def)
  ultimately show ?thesis
    unfolding curved_def by linarith
qed

lemma curved_1_bound: "curved 1 < 51 / 2"
proof -
  have "exp (- (279323 / 10000000 :: real)) \<le> 1 / (1 + 279323 / 10000000 + (279323 / 10000000)\<^sup>2 / 2)"
    by (rule exp_neg_le_quadratic) simp
  also have "\<dots> < 973 / 1000"
    by (simp add: power2_eq_square)
  finally have a: "exp CURVE_a1 < 973 / 1000"
    by (simp add: CURVE_a1_def)
  have "exp (- (402639 / 1000000 :: real)) \<le> 1 / (1 + 402639 / 1000000 + (402639 / 1000000)\<^sup>2 / 2)"
    by (rule exp_neg_le_quadratic) simp
  also have "\<dots> < 674 / 1000"
    by (simp add: power2_eq_square)
  finally have b: "exp CURVE_b1 < 674 / 1000"
    by (simp add: CURVE_b1_def)
  have "CURVE_A1 * exp CURVE_a1 < CURVE_A1 * (973 / 1000)"
    using a by (simp add: CURVE_A1_def)
  moreover have "CURVE_B1 * exp CURVE_b1 < CURVE_B1 * (674 / 1000)"
    using b by (simp add: CURVE_B1_def)
  ultimately have "curved 1 < CURVE_A1 * (973 / 1000) + CURVE_B1 * (674 / 1000)"
    unfolding curved_def by simp
  also have "\<dots> < 51 / 2"
    by (simp add: CURVE_A1_def CURVE_B1_def)
  finally show ?thesis .
qed

lemma dyn_ge_1:
  assumes "1 \<le> w"
  shows "getDynamicBaseFromWeightedSolves w = 25"
proof -
  have "curved w < 51 / 2"
    using curved_mono [OF assms] curved_1_bound by linarith
  then have "round (curved w) \<le> 25"
    unfolding round_def by linarith
  then show ?thesis
    by (simp add: getDynamicBaseFromWeightedSolves_def MIN_DYNAMIC_BASE_SCORE_def)
qed

lemma curved_9_5_bound: "curved (9 / 5) < 21"
proof -
  have "exp (- (2513907 / 50000000 :: real)) \<le> 1 / (1 + 2513907 / 50000000 + (2513907 / 50000000)\<^sup>2 / 2)"
    by (rule exp_neg_le_quadratic) simp
  also have "\<dots> < 952 / 1000"
    by (simp add: power2_eq_square)
  finally have a: "exp (CURVE_a1 * (9 / 5)) < 952 / 1000"
    by (simp add: CURVE_a1_def)
  have "exp (- (3623751 / 5000000 :: real)) \<le> 1 / (1 + 3623751 / 5000000 + (3623751 / 5000000)\<^sup>2 / 2)"
    by (rule exp_neg_le_quadratic) simp
  also have "\<dots> < 504 / 1000"
    by (simp add: power2_eq_square)
  finally have b: "exp (CURVE_b1 * (9 / 5)) < 504 / 1000"
    by (simp add: CURVE_b1_def)
  have "CURVE_A1 * exp (CURVE_a1 * (9 / 5)) < CURVE_A1 * (952 / 1000)"
    using a by (simp add: CURVE_A1_def)
  moreover have "CURVE_B1 * exp (CURVE_b1 * (9 / 5)) < CURVE_B1 * (504 / 1000)"
    using b by (simp add: CURVE_B1_def)
  ultimately have "curved (9 / 5) < CURVE_A1 * (952 / 1000) + CURVE_B1 * (504 / 1000)"
    unfolding curved_def by linarith
  also have "\<dots> < 21"
    by (simp add: CURVE_A1_def CURVE_B1_def)
  finally show ?thesis .
qed

section \<open>The scenario of the specification\<close>

lemmas eval_defs =
  recordAttempt_def loadOrCreateProblem_def backfillOriginalBaseScore_def scoreAttempt_def
  getOrCreateUser_def getOrCreateUserAttempt_def addXP_def
  findProblemByNumber_def findUserByDiscordId_def findUserById_def findUserAttempt_def
  findSolvedAttempts_def setUserXpByDiscordId_def setUserXpById_def updateProblem_def
  updateUserAttempt_def sumSolveWeights_def getSolveWeight_def getWrongAttempts_def
  SCORE_DECAY_def MAX_WRONG_ATTEMPTS_def Let_def

lemma step_A:
  "recordAttempt demoSheet ''A'' ''7'' True emptyDb =
     (Inr \<lparr>ar_awardedXP = 100, ar_userXP = 100, ar_attemptNumber = 1,
           ar_totalProblemAttempts = 1, ar_totalProblemSolves = 1, ar_weightedSolves = 1,
           ar_originalBaseScore = 100, ar_currentBaseScore = 25\<rparr>, demoAfterA)"
  by (simp add: eval_defs emptyDb_def demoSheet_def demoAfterA_def dyn_ge_1)

lemma step_B_wrong:
  "recordAttempt demoSheet ''B'' ''7'' False demoAfterA =
     (Inr \<lparr>ar_awardedXP = 0, ar_userXP = 0, ar_attemptNumber = 1,
           ar_totalProblemAttempts = 2, ar_totalProblemSolves = 1, ar_weightedSolves = 1,
           ar_originalBaseScore = 100, ar_currentBaseScore = 25\<rparr>, demoAfterBWrong)"
  by (simp add: eval_defs demoSheet_def demoAfterA_def demoAfterBWrong_def dyn_ge_1)

lemma step_B_right:
  "recordAttempt demoSheet ''B'' ''7'' True demoAfterBWrong =
     (Inr \<lparr>ar_awardedXP = 80, ar_userXP = 80, ar_attemptNumber = 2,
           ar_totalProblemAttempts = 3, ar_totalProblemSolves = 2, ar_weightedSolves = 9 / 5,
           ar_originalBaseScore = 100, ar_currentBaseScore = 25\<rparr>, demoOpen)"
  by (simp add: eval_defs demoSheet_def demoOpen_def demoUsers_def demoAttempts_def
      demoProblem_def demoAfterBWrong_def dyn_ge_1)

lemma step_B_result:
  "recordAttempt demoSheet ''B'' ''7'' True demoAfterBWrong = (Inr demoResultB, demoOpen)"
  using step_B_right by (simp add: demoResultB_def)

text \<open>
  C2, as stated, fails in its last number. With user A's solve at the first attempt and
  user B's at the second the weighted solves are 9/5, and the curve there is below 21;
  \<^verbatim>\<open>getDynamicBaseFromWeightedSolves\<close> raises it to the minimum 25, which is not about 32.
\<close>

theorem scenario_base_score_counterexample:
  "recordAttempt demoSheet ''B'' ''7'' True demoAfterBWrong =
     (Inr \<lparr>ar_awardedXP = 80, ar_userXP = 80, ar_attemptNumber = 2,
           ar_totalProblemAttempts = 3, ar_totalProblemSolves = 2, ar_weightedSolves = 9 / 5,
           ar_originalBaseScore = 100, ar_currentBaseScore = 25\<rparr>, demoOpen) \<and>
   getDynamicBaseFromWeightedSolves (9 / 5) = 25 \<and>
   curved (9 / 5) < 21 \<and>
   \<not> 31 \<le> getDynamicBaseFromWeightedSolves (9 / 5)"
  using step_B_right curved_9_5_bound by (simp add: dyn_ge_1)

text \<open>
  C2, amended: for a problem the sheet prices at 100 and nobody has tried, user A's
  correct first attempt is awarded 100; user B, after one wrong attempt, is awarded
  \<open>\<lfloor>100 * 0.8\<rfloor> = 80\<close> for the correct second one; the weighted solves are then
  \<open>1 + 0.8 = 9/5\<close> and the stored \<^verbatim>\<open>baseScore\<close> is \<^verbatim>\<open>getDynamicBaseFromWeightedSolves\<close> of 9/5,
  which is 25.
\<close>

theorem scenario_awards:
  "recordAttempt demoSheet ''A'' ''7'' True emptyDb =
     (Inr \<lparr>ar_awardedXP = 100, ar_userXP = 100, ar_attemptNumber = 1,
           ar_totalProblemAttempts = 1, ar_totalProblemSolves = 1, ar_weightedSolves = 1,
           ar_originalBaseScore = 100, ar_currentBaseScore = 25\<rparr>, demoAfterA) \<and>
   recordAttempt demoSheet ''B'' ''7'' False demoAfterA =
     (Inr \<lparr>ar_awardedXP = 0, ar_userXP = 0, ar_attemptNumber = 1,
           ar_totalProblemAttempts = 2, ar_totalProblemSolves = 1, ar_weightedSolves = 1,
           ar_originalBaseScore = 100, ar_currentBaseScore = 25\<rparr>, demoAfterBWrong) \<and>
   recordAttempt demoSheet ''B'' ''7'' True demoAfterBWrong =
     (Inr \<lparr>ar_awardedXP = 80, ar_userXP = 80, ar_attemptNumber = 2,
           ar_totalProblemAttempts = 3, ar_totalProblemSolves = 2, ar_weightedSolves = 9 / 5,
           ar_originalBaseScore = 100, ar_currentBaseScore = 25\<rparr>, demoOpen) \<and>
   \<lfloor>100 * getSolveWeight 2\<rfloor> = 80 \<and>
   getSolveWeight 1 + getSolveWeight 2 = 9 / 5 \<and>
   baseScore demoProblem = getDynamicBaseFromWeightedSolves (9 / 5) \<and>
   getDynamicBaseFromWeightedSolves (9 / 5) = 25"
  using step_A step_B_wrong step_B_right
  by (simp add: dyn_ge_1 demoProblem_def getSolveWeight_def getWrongAttempts_def
      SCORE_DECAY_def MAX_WRONG_ATTEMPTS_def)

section \<open>Every operation keeps the balances non-negative\<close>

lemma updateUserAttempt_sel [simp]:
  "users (updateUserAttempt i f s) = users s"
  "problems (updateUserAttempt i f s) = problems s"
  "nextId (updateUserAttempt i f s) = nextId s"
  by (simp_all add: updateUserAttempt_def)

lemma xpNonneg_updateProblem [simp]: "xpNonneg (updateProblem i f s) = xpNonneg s"
  by (simp add: xpNonneg_def)

lemma xpNonneg_updateUserAttempt [simp]: "xpNonneg (updateUserAttempt i f s) = xpNonneg s"
  by (simp add: xpNonneg_def)

lemma xpNonneg_setByDiscordId:
  "xpNonneg s \<Longrightarrow> 0 \<le> v \<Longrightarrow> xpNonneg (setUserXpByDiscordId d v s)"
  by (auto simp: xpNonneg_def setUserXpByDiscordId_def)

lemma xpNonneg_setById:
  "xpNonneg s \<Longrightarrow> 0 \<le> v \<Longrightarrow> xpNonneg (setUserXpById i v s)"
  by (auto simp: xpNonneg_def setUserXpById_def)

lemma xpNonneg_getOrCreateUser:
  "xpNonneg s \<Longrightarrow> xpNonneg (snd (getOrCreateUser d s))"
  by (auto simp: xpNonneg_def getOrCreateUser_def Let_def split: option.splits)

lemma xpNonneg_addXP: "xpNonneg s \<Longrightarrow> xpNonneg (snd (addXP d amount s))"
  using xpNonneg_getOrCreateUser [of s d]
  by (simp add: addXP_def Let_def case_prod_unfold xpNonneg_setByDiscordId)

lemma xpNonneg_removeXP: "xpNonneg s \<Longrightarrow> xpNonneg (snd (removeXP d amount s))"
  using xpNonneg_getOrCreateUser [of s d]
  by (simp add: removeXP_def Let_def case_prod_unfold xpNonneg_setByDiscordId)

lemma xpNonneg_adjust: "xpNonneg s \<Longrightarrow> xpNonneg (snd (adjustUserXPByDbId uid delta s))"
  by (simp add: adjustUserXPByDbId_def xpNonneg_setById split: option.splits)

lemma xpNonneg_reset: "xpNonneg s \<Longrightarrow> xpNonneg (snd (resetProblemStats n s))"
  by (simp add: resetProblemStats_def Let_def xpNonneg_def split: option.splits)

lemma xpNonneg_finalizeAttempt:
  "xpNonneg (fst acc) \<Longrightarrow> xpNonneg (fst (finalizeAttempt fbs a acc))"
  by (cases acc) (simp add: finalizeAttempt_def Let_def xpNonneg_adjust)

lemma xpNonneg_finalize_loop:
  "xpNonneg (fst acc) \<Longrightarrow> xpNonneg (fst (fold (finalizeAttempt fbs) rows acc))"
  by (induction rows arbitrary: acc) (simp_all add: xpNonneg_finalizeAttempt)

lemma xpNonneg_finalize:
  "xpNonneg s \<Longrightarrow> xpNonneg (snd (finalizeProblemScoring now n s))"
  using xpNonneg_finalize_loop [of "(s, 0, 0)"]
  by (simp add: finalizeProblemScoring_def Let_def case_prod_unfold split: option.splits)

lemma xpNonneg_unfinalizeAttempt:
  "xpNonneg (fst acc) \<Longrightarrow> xpNonneg (fst (unfinalizeAttempt a acc))"
  by (cases acc) (simp add: unfinalizeAttempt_def Let_def xpNonneg_adjust split: option.splits)

lemma xpNonneg_unfinalize_loop:
  "xpNonneg (fst acc) \<Longrightarrow> xpNonneg (fst (fold unfinalizeAttempt rows acc))"
  by (induction rows arbitrary: acc) (simp_all add: xpNonneg_unfinalizeAttempt)

lemma xpNonneg_unfinalize:
  "xpNonneg s \<Longrightarrow> xpNonneg (snd (unfinalizeProblemScoring n s))"
  using xpNonneg_unfinalize_loop [of "(s, 0)"]
  by (simp add: unfinalizeProblemScoring_def Let_def case_prod_unfold split: option.splits)

lemma xpNonneg_loadOrCreateProblem:
  "xpNonneg s \<Longrightarrow> xpNonneg (snd (loadOrCreateProblem sheet n s))"
  by (simp add: loadOrCreateProblem_def Let_def xpNonneg_def split: option.splits sum.splits)

lemma xpNonneg_backfill:
  "xpNonneg s \<Longrightarrow> xpNonneg (snd (backfillOriginalBaseScore sheet n p s))"
  by (simp add: backfillOriginalBaseScore_def split: sum.splits)

lemma xpNonneg_getOrCreateUserAttempt:
  "xpNonneg s \<Longrightarrow> xpNonneg (snd (getOrCreateUserAttempt uid pid s))"
  by (simp add: getOrCreateUserAttempt_def Let_def xpNonneg_def split: option.splits)

lemma xpNonneg_scoreAttempt:
  "xpNonneg s \<Longrightarrow> xpNonneg (snd (scoreAttempt d c p s))"
  using xpNonneg_getOrCreateUserAttempt [OF xpNonneg_getOrCreateUser, of s]
  by (simp add: scoreAttempt_def Let_def case_prod_unfold xpNonneg_addXP)

lemma xpNonneg_recordAttempt:
  "xpNonneg s \<Longrightarrow> xpNonneg (snd (recordAttempt sheet d n c s))"
  by (auto simp: recordAttempt_def case_prod_unfold
      intro!: xpNonneg_scoreAttempt xpNonneg_backfill xpNonneg_loadOrCreateProblem
      split: sum.splits)

lemma xpNonneg_run: "xpNonneg s \<Longrightarrow> xpNonneg (run sheet c s)"
  by (cases c)
    (simp_all add: xpNonneg_getOrCreateUser xpNonneg_addXP xpNonneg_removeXP
      xpNonneg_recordAttempt xpNonneg_reset xpNonneg_finalize xpNonneg_unfinalize)

lemma findUserById_adjust:
  assumes "\<forall>u \<in> set (users s). 0 \<le> xp u"
  shows "findUserById uid (snd (adjustUserXPByDbId uid delta s)) =
           map_option (\<lambda>u. u\<lparr>xp := max 0 (xp u + delta)\<rparr>) (findUserById uid s)"
proof (cases "findUserById uid s")
  case None
  then show ?thesis
    by (simp add: adjustUserXPByDbId_def)
next
  case (Some u)
  then have "u \<in> set (users s)"
    by (auto simp: findUserById_def find_Some_iff)
  with assms have nonneg: "0 \<le> xp u" by simp
  show ?thesis
  proof (cases "delta = 0")
    case True
    with Some nonneg show ?thesis
      by (simp add: adjustUserXPByDbId_def)
  next
    case False
    from find_map_upd [where P = "\<lambda>u. u_id u = uid" and g = "\<lambda>u. u_id u = uid"
        and f = "\<lambda>x. x\<lparr>xp := max 0 (xp u + delta)\<rparr>", OF Some [unfolded findUserById_def]]
    have "findUserById uid (setUserXpById uid (max 0 (xp u + delta)) s) =
        Some (if u_id u = uid then u\<lparr>xp := max 0 (xp u + delta)\<rparr> else u)"
      by (simp add: findUserById_def setUserXpById_def)
    moreover from Some have "u_id u = uid"
      by (auto simp: findUserById_def find_Some_iff)
    ultimately show ?thesis
      using Some False by (simp add: adjustUserXPByDbId_def)
  qed
qed

section \<open>The loops of finalize and unfinalize in closed form\<close>

lemma adjustUserXPByDbId_eq:
  "adjustUserXPByDbId uid delta s = (Inr (), s\<lparr>users := adjustXpList uid delta (users s)\<rparr>)"
  by (simp add: adjustUserXPByDbId_def adjustXpList_def findUserById_def setUserXpById_def
      split: option.splits)

lemma finalizeAttempt_eq:
  "finalizeAttempt fbs r (s, adj, ini) =
     (s\<lparr>users := adjustXpList (userId r) (rowDelta fbs r) (users s),
        userAttempts := map (\<lambda>x. if a_id x = a_id r then finalizedRow fbs r x else x)
                          (userAttempts s)\<rparr>,
      adj + (if rowDelta fbs r \<noteq> 0 then 1 else 0),
      ini + (if baselineAward r = 0 then 1 else 0))"
  by (simp add: finalizeAttempt_def Let_def adjustUserXPByDbId_eq rowDelta_def
      finalizedRow_def updateUserAttempt_def adjustXpList_def)

lemma unfinalizeAttempt_eq:
  "unfinalizeAttempt r (s, cnt) =
     (s\<lparr>users := adjustXpList (userId r) (reverseDeltaOf r) (users s),
        userAttempts := map (\<lambda>x. if a_id x = a_id r then unfinalizedRow r x else x)
                          (userAttempts s)\<rparr>,
      cnt + (if reverseDeltaOf r \<noteq> 0 then 1 else 0))"
proof (cases "preFinalizeAwardedXp r")
  case None
  then have "(\<lambda>x. if a_id x = a_id r then unfinalizedRow r x else x) = (\<lambda>x. x)"
    by (simp add: unfinalizedRow_def fun_eq_iff)
  with None show ?thesis
    by (simp add: unfinalizeAttempt_def reverseDeltaOf_def adjustXpList_def)
next
  case (Some pre)
  then have "unfinalizedRow r =
      (\<lambda>x. x\<lparr>awardedXp := pre, preFinalizeAwardedXp := None, finalizeDelta := 0\<rparr>)"
    by (simp add: unfinalizedRow_def fun_eq_iff)
  with Some show ?thesis
    by (simp add: unfinalizeAttempt_def Let_def adjustUserXPByDbId_eq reverseDeltaOf_def
        updateUserAttempt_def adjustXpList_def)
qed

lemma notin_image_neq: "k r \<notin> k ` set rs \<Longrightarrow> q \<in> set rs \<Longrightarrow> k q \<noteq> k r"
  by (metis imageI)

lemma byRow_Nil [simp]: "byRow [] f x = x"
  by (simp add: byRow_def)

lemma byRow_step:
  assumes "a_id r \<notin> a_id ` set rs" and "\<And>r x. a_id (f r x) = a_id x"
  shows "byRow rs f (if a_id x = a_id r then f r x else x) = byRow (r # rs) f x"
proof (cases "a_id x = a_id r")
  case True
  from notin_image_neq [OF assms(1)] have "find (\<lambda>q. a_id q = a_id r) rs = None"
    by (simp add: find_None_iff)
  with True show ?thesis
    by (simp add: byRow_def assms(2))
next
  case False
  then have "a_id r \<noteq> a_id x" by simp
  then show ?thesis
    by (simp add: byRow_def)
qed

lemma finalizedRow_a_id [simp]: "a_id (finalizedRow fbs r x) = a_id x"
  by (simp add: finalizedRow_def)

lemma unfinalizedRow_a_id [simp]: "a_id (unfinalizedRow r x) = a_id x"
  by (simp add: unfinalizedRow_def split: option.splits)

lemma finalize_loop_eq:
  assumes "distinct (map a_id rows)"
  shows "fold (finalizeAttempt fbs) rows (s, adj, ini) =
     (s\<lparr>users := fold (\<lambda>r. adjustXpList (userId r) (rowDelta fbs r)) rows (users s),
        userAttempts := map (byRow rows (finalizedRow fbs)) (userAttempts s)\<rparr>,
      adj + length (filter (\<lambda>r. rowDelta fbs r \<noteq> 0) rows),
      ini + length (filter (\<lambda>r. baselineAward r = 0) rows))"
  using assms
proof (induction rows arbitrary: s adj ini)
  case Nil
  then show ?case by simp
next
  case (Cons r rs)
  from Cons.prems have d: "distinct (map a_id rs)" and n: "a_id r \<notin> a_id ` set rs"
    by simp_all
  have step: "byRow rs (finalizedRow fbs) (if a_id x = a_id r then finalizedRow fbs r x else x)
      = byRow (r # rs) (finalizedRow fbs) x" for x
    by (rule byRow_step [OF n]) simp
  show ?case
    by (simp add: finalizeAttempt_eq Cons.IH [OF d] o_def step)
qed

lemma unfinalize_loop_eq:
  assumes "distinct (map a_id rows)"
  shows "fold unfinalizeAttempt rows (s, cnt) =
     (s\<lparr>users := fold (\<lambda>r. adjustXpList (userId r) (reverseDeltaOf r)) rows (users s),
        userAttempts := map (byRow rows unfinalizedRow) (userAttempts s)\<rparr>,
      cnt + length (filter (\<lambda>r. reverseDeltaOf r \<noteq> 0) rows))"
  using assms
proof (induction rows arbitrary: s cnt)
  case Nil
  then show ?case by simp
next
  case (Cons r rs)
  from Cons.prems have d: "distinct (map a_id rs)" and n: "a_id r \<notin> a_id ` set rs"
    by simp_all
  have step: "byRow rs unfinalizedRow (if a_id x = a_id r then unfinalizedRow r x else x)
      = byRow (r # rs) unfinalizedRow x" for x
    by (rule byRow_step [OF n]) simp
  show ?case
    by (simp add: unfinalizeAttempt_eq Cons.IH [OF d] o_def step)
qed

lemma find_filter_distinct:
  assumes "distinct (map k xs)" and "x \<in> set xs"
  shows "find (\<lambda>r. k r = k x) (filter P xs) = (if P x then Some x else None)"
  using assms
proof (induction xs)
  case Nil
  then show ?case by simp
next
  case (Cons y ys)
  show ?case
  proof (cases "x = y")
    case True
    from Cons.prems have "k y \<notin> k ` set ys"
      by simp
    from notin_image_neq [OF this] have "\<forall>r \<in> set ys. k r \<noteq> k y"
      by simp
    then have "find (\<lambda>r. k r = k y) (filter P ys) = None"
      by (auto simp: find_None_iff)
    with True show ?thesis by simp
  next
    case False
    with Cons.prems have "x \<in> set ys" and "k y \<noteq> k x" and "distinct (map k ys)"
      by auto
    with Cons.IH show ?thesis by simp
  qed
qed

lemma map_byRow_filter:
  assumes "distinct (map a_id tbl)"
  shows "map (byRow (filter P tbl) f) tbl = map (\<lambda>x. if P x then f x x else x) tbl"
proof (rule map_cong [OF refl])
  fix x assume "x \<in> set tbl"
  from find_filter_distinct [OF assms this, of P]
  show "byRow (filter P tbl) f x = (if P x then f x x else x)"
    by (simp add: byRow_def)
qed

lemma distinct_key_eq:
  assumes "distinct (map k xs)" and "x \<in> set xs" and "y \<in> set xs" and "k x = k y"
  shows "x = y"
  using assms by (meson distinct_map inj_onD)

lemma adjustXpList_distinct:
  assumes "distinct (map u_id us)"
  shows "adjustXpList uid delta us =
     map (\<lambda>u. if u_id u = uid then u\<lparr>xp := clampAdd (xp u) delta\<rparr> else u) us"
proof (cases "delta = 0")
  case True
  then show ?thesis
    by (simp add: adjustXpList_def clampAdd_def map_idI)
next
  case False
  show ?thesis
  proof (cases "find (\<lambda>u. u_id u = uid) us")
    case None
    then have "\<forall>u \<in> set us. u_id u \<noteq> uid"
      by (simp add: find_None_iff)
    then have "map (\<lambda>u. if u_id u = uid then u\<lparr>xp := clampAdd (xp u) delta\<rparr> else u) us = us"
      by (simp add: map_idI)
    with None False show ?thesis
      by (simp add: adjustXpList_def)
  next
    case (Some v)
    then have v: "v \<in> set us" "u_id v = uid"
      by (auto simp: find_Some_iff)
    have "map (\<lambda>x. if u_id x = uid then x\<lparr>xp := max 0 (xp v + delta)\<rparr> else x) us =
          map (\<lambda>u. if u_id u = uid then u\<lparr>xp := clampAdd (xp u) delta\<rparr> else u) us"
    proof (rule map_cong [OF refl])
      fix x assume "x \<in> set us"
      show "(if u_id x = uid then x\<lparr>xp := max 0 (xp v + delta)\<rparr> else x) =
            (if u_id x = uid then x\<lparr>xp := clampAdd (xp x) delta\<rparr> else x)"
      proof (cases "u_id x = uid")
        case True
        with v \<open>x \<in> set us\<close> have "x = v"
          using distinct_key_eq [OF assms] by simp
        with False show ?thesis by (simp add: clampAdd_def)
      next
        case False
        then show ?thesis by simp
      qed
    qed
    with Some False show ?thesis
      by (simp add: adjustXpList_def)
  qed
qed

lemma adjustXpList_u_id [simp]: "map u_id (adjustXpList uid delta us) = map u_id us"
  by (simp add: adjustXpList_def o_def split: option.splits cong: if_cong)

lemma byUser_Nil [simp]: "byUser [] delta u = u"
  by (simp add: byUser_def)

lemma fold_adjust_distinct:
  assumes "distinct (map u_id us)" and "distinct (map userId rows)"
  shows "fold (\<lambda>r. adjustXpList (userId r) (delta r)) rows us = map (byUser rows delta) us"
  using assms
proof (induction rows arbitrary: us)
  case Nil
  then show ?case by simp
next
  case (Cons r rs)
  let ?us1 = "adjustXpList (userId r) (delta r) us"
  from Cons.prems have d: "distinct (map userId rs)" and n: "userId r \<notin> userId ` set rs"
    by simp_all
  have none: "find (\<lambda>q. userId q = userId r) rs = None"
    using notin_image_neq [OF n] by (simp add: find_None_iff)
  have d1: "distinct (map u_id ?us1)"
    using Cons.prems(1) by simp
  have "fold (\<lambda>r. adjustXpList (userId r) (delta r)) rs ?us1 = map (byUser rs delta) ?us1"
    by (rule Cons.IH [OF d1 d])
  also have "\<dots> = map (byUser rs delta)
       (map (\<lambda>u. if u_id u = userId r then u\<lparr>xp := clampAdd (xp u) (delta r)\<rparr> else u) us)"
    by (simp add: adjustXpList_distinct [OF Cons.prems(1)])
  also have "\<dots> = map (byUser (r # rs) delta) us"
  proof -
    have "byUser rs delta (if u_id u = userId r then u\<lparr>xp := clampAdd (xp u) (delta r)\<rparr> else u)
        = byUser (r # rs) delta u" for u
    proof (cases "u_id u = userId r")
      case True
      with none show ?thesis by (simp add: byUser_def)
    next
      case False
      then have "userId r \<noteq> u_id u" by simp
      then show ?thesis by (simp add: byUser_def)
    qed
    then show ?thesis by (simp add: o_def)
  qed
  finally show ?case by simp
qed

lemma fold_adjust_u_id [simp]:
  "map u_id (fold (\<lambda>r. adjustXpList (userId r) (delta r)) rows us) = map u_id us"
  by (induction rows arbitrary: us) simp_all

lemma distinct_solved_ids:
  "distinct (map a_id (userAttempts s)) \<Longrightarrow> distinct (map a_id (findSolvedAttempts pid s))"
  by (simp add: findSolvedAttempts_def distinct_map_filter)

lemma finalizeProblemScoring_eq:
  assumes "findProblemByNumber n s = Some p" and "\<not> isFinalized p"
    and "distinct (map a_id (userAttempts s))"
  shows "finalizeProblemScoring now n s =
     (Inr \<lparr>fr_problemNumber = number p,
           fr_finalBaseScore = finalBaseScoreOf (p_id p) s,
           fr_weightedSolves = sumSolveWeights (findSolvedAttempts (p_id p) s),
           fr_adjustedUsers =
             length (filter (\<lambda>r. rowDelta (finalBaseScoreOf (p_id p) s) r \<noteq> 0)
                       (findSolvedAttempts (p_id p) s)),
           fr_initializedUsers =
             length (filter (\<lambda>r. baselineAward r = 0) (findSolvedAttempts (p_id p) s))\<rparr>,
      updateProblem (p_id p)
        (\<lambda>q. q\<lparr>baseScore := finalBaseScoreOf (p_id p) s, isFinalized := True,
                finalizedAt := Some now\<rparr>)
        (s\<lparr>users := fold (\<lambda>r. adjustXpList (userId r) (rowDelta (finalBaseScoreOf (p_id p) s) r))
                       (findSolvedAttempts (p_id p) s) (users s),
           userAttempts :=
             map (\<lambda>x. if problemId x = p_id p \<and> solved x
                       then finalizedRow (finalBaseScoreOf (p_id p) s) x x else x)
                 (userAttempts s)\<rparr>))"
proof -
  have m: "map (byRow (findSolvedAttempts (p_id p) s) f) (userAttempts s) =
           map (\<lambda>x. if problemId x = p_id p \<and> solved x then f x x else x) (userAttempts s)" for f
    unfolding findSolvedAttempts_def by (rule map_byRow_filter [OF assms(3)])
  show ?thesis
    using assms(1,2)
    by (simp add: finalizeProblemScoring_def Let_def finalBaseScoreOf_def
        finalize_loop_eq [OF distinct_solved_ids [OF assms(3)]] m cong: if_cong)
qed

lemma unfinalizeProblemScoring_eq:
  assumes "findProblemByNumber n s = Some p" and "isFinalized p"
    and "distinct (map a_id (userAttempts s))"
  shows "\<exists>r. unfinalizeProblemScoring n s =
     (Inr r,
      updateProblem (p_id p)
        (\<lambda>q. q\<lparr>baseScore := ur_restoredBaseScore r, isFinalized := False, finalizedAt := None\<rparr>)
        (s\<lparr>users := fold (\<lambda>r. adjustXpList (userId r) (reverseDeltaOf r))
                       (findSolvedAttempts (p_id p) s) (users s),
           userAttempts :=
             map (\<lambda>x. if problemId x = p_id p \<and> solved x then unfinalizedRow x x else x)
                 (userAttempts s)\<rparr>))"
proof -
  have m: "map (byRow (findSolvedAttempts (p_id p) s) f) (userAttempts s) =
           map (\<lambda>x. if problemId x = p_id p \<and> solved x then f x x else x) (userAttempts s)" for f
    unfolding findSolvedAttempts_def by (rule map_byRow_filter [OF assms(3)])
  show ?thesis
    using assms(1,2)
    by (simp add: unfinalizeProblemScoring_def Let_def
        unfinalize_loop_eq [OF distinct_solved_ids [OF assms(3)]] m)
qed

section \<open>Reachable stores are well formed\<close>

lemma map_key_upd:
  assumes "\<And>x. k (f x) = k x"
  shows "map k (map (\<lambda>x. if c x then f x else x) xs) = map k xs"
  by (induction xs) (simp_all add: assms)

lemma wf_empty: "wellFormed emptyDb"
  by (simp add: wellFormed_def idsFresh_def keysDistinct_def snapshotsClean_def xpNonneg_def emptyDb_def)

lemma wf_setUserXpByDiscordId:
  assumes "wellFormed s" and "0 \<le> v"
  shows "wellFormed (setUserXpByDiscordId d v s)"
proof -
  have k: "map u_id (users (setUserXpByDiscordId d v s)) = map u_id (users s)"
    by (simp add: setUserXpByDiscordId_def map_key_upd)
  have "idsFresh (setUserXpByDiscordId d v s)"
    using assms(1) by (auto simp: wellFormed_def idsFresh_def setUserXpByDiscordId_def)
  moreover have "keysDistinct (setUserXpByDiscordId d v s)"
    using assms(1) k by (simp add: wellFormed_def keysDistinct_def) (simp add: setUserXpByDiscordId_def)
  moreover have "snapshotsClean (setUserXpByDiscordId d v s)"
    using assms(1) by (simp add: wellFormed_def snapshotsClean_def setUserXpByDiscordId_def)
  ultimately show ?thesis
    using assms xpNonneg_setByDiscordId [of s v d] by (simp add: wellFormed_def)
qed

lemma wf_getOrCreateUser:
  assumes "wellFormed s"
  shows "wellFormed (snd (getOrCreateUser d s))"
proof (cases "findUserByDiscordId d s")
  case (Some u)
  with assms show ?thesis by (simp add: getOrCreateUser_def)
next
  case None
  let ?s' = "s\<lparr>users := users s @ [\<lparr>u_id = nextId s, discordId = d, xp = 0\<rparr>],
               nextId := nextId s + 1\<rparr>"
  from assms have f: "idsFresh s" and k: "keysDistinct s" and c: "snapshotsClean s"
    and x: "xpNonneg s"
    by (simp_all add: wellFormed_def)
  have "idsFresh ?s'"
    using f by (auto simp: idsFresh_def less_Suc_eq)
  moreover have "keysDistinct ?s'"
    using f k by (auto simp: idsFresh_def keysDistinct_def)
  moreover have "snapshotsClean ?s'"
    using c by (simp add: snapshotsClean_def)
  moreover have "xpNonneg ?s'"
    using x by (auto simp: xpNonneg_def)
  ultimately show ?thesis
    using None by (simp add: getOrCreateUser_def Let_def wellFormed_def)
qed

lemma wf_addXP: "wellFormed s \<Longrightarrow> wellFormed (snd (addXP d amount s))"
  using wf_getOrCreateUser [of s d]
  by (simp add: addXP_def Let_def case_prod_unfold wf_setUserXpByDiscordId)

lemma wf_removeXP: "wellFormed s \<Longrightarrow> wellFormed (snd (removeXP d amount s))"
  using wf_getOrCreateUser [of s d]
  by (simp add: removeXP_def Let_def case_prod_unfold wf_setUserXpByDiscordId)

lemma wf_updateProblem:
  assumes "wellFormed s" and "\<And>q. p_id (f q) = p_id q" and "\<And>q. isFinalized (f q) = isFinalized q"
  shows "wellFormed (updateProblem i f s)"
proof -
  have "idsFresh (updateProblem i f s)"
    using assms(1,2) by (auto simp: wellFormed_def idsFresh_def updateProblem_def)
  moreover have "keysDistinct (updateProblem i f s)"
    using assms(1) by (simp add: wellFormed_def keysDistinct_def)
  moreover have "snapshotsClean (updateProblem i f s)"
    using assms by (auto simp: wellFormed_def snapshotsClean_def updateProblem_def)
  ultimately show ?thesis
    using assms(1) by (simp add: wellFormed_def)
qed

lemma wf_updateUserAttempt:
  assumes "wellFormed s"
    and "\<And>x. a_id (f x) = a_id x" and "\<And>x. userId (f x) = userId x"
    and "\<And>x. problemId (f x) = problemId x"
    and "\<And>x. preFinalizeAwardedXp (f x) = preFinalizeAwardedXp x"
    and "\<And>x. finalizeDelta (f x) = finalizeDelta x"
    and "\<And>x. x \<in> set (userAttempts s) \<Longrightarrow> a_id x = i \<Longrightarrow> solved x \<Longrightarrow> solved (f x)"
  shows "wellFormed (updateUserAttempt i f s)"
proof -
  have k1: "map a_id (userAttempts (updateUserAttempt i f s)) = map a_id (userAttempts s)"
    by (simp add: updateUserAttempt_def map_key_upd assms(2))
  have k2: "map (\<lambda>a. (userId a, problemId a)) (userAttempts (updateUserAttempt i f s)) =
            map (\<lambda>a. (userId a, problemId a)) (userAttempts s)"
    by (simp add: updateUserAttempt_def map_key_upd assms(3,4))
  have "idsFresh (updateUserAttempt i f s)"
    using assms(1,2,3,4) by (auto simp: wellFormed_def idsFresh_def updateUserAttempt_def)
  moreover have "keysDistinct (updateUserAttempt i f s)"
    using assms(1) k1 k2 by (simp add: wellFormed_def keysDistinct_def)
  moreover have "snapshotsClean (updateUserAttempt i f s)"
    using assms(1,4,5,6,7)
    by (simp add: wellFormed_def snapshotsClean_def updateUserAttempt_def) fastforce
  ultimately show ?thesis
    using assms(1) by (simp add: wellFormed_def)
qed

lemma findProblem_in_set: "findProblemByNumber n s = Some p \<Longrightarrow> p \<in> set (problems s)"
  by (auto simp: findProblemByNumber_def find_Some_iff)

lemma finalizedRow_sel [simp]:
  "userId (finalizedRow fbs r x) = userId x"
  "problemId (finalizedRow fbs r x) = problemId x"
  "solved (finalizedRow fbs r x) = solved x"
  "attempts (finalizedRow fbs r x) = attempts x"
  "preFinalizeAwardedXp (finalizedRow fbs r x) = Some (baselineAward r)"
  "awardedXp (finalizedRow fbs r x) = finalAward fbs r"
  "finalizeDelta (finalizedRow fbs r x) = rowDelta fbs r"
  by (simp_all add: finalizedRow_def)

lemma unfinalizedRow_sel [simp]:
  "userId (unfinalizedRow r x) = userId x"
  "problemId (unfinalizedRow r x) = problemId x"
  "solved (unfinalizedRow r x) = solved x"
  "attempts (unfinalizedRow r x) = attempts x"
  by (simp_all add: unfinalizedRow_def split: option.splits)

lemma unfinalizedRow_self:
  "preFinalizeAwardedXp (unfinalizedRow x x) = None"
  "preFinalizeAwardedXp x = None \<longrightarrow> finalizeDelta x = 0 \<Longrightarrow> finalizeDelta (unfinalizedRow x x) = 0"
  by (simp_all add: unfinalizedRow_def split: option.splits)

lemma keys_loop_state:
  assumes "wellFormed s"
    and "\<And>x. a_id (f x) = a_id x" and "\<And>x. userId (f x) = userId x"
    and "\<And>x. problemId (f x) = problemId x"
    and "map u_id us = map u_id (users s)" and "\<forall>u \<in> set us. 0 \<le> xp u"
    and "\<And>q. p_id (g q) = p_id q"
    and "snapshotsClean
           (updateProblem i g (s\<lparr>users := us, userAttempts := map f (userAttempts s)\<rparr>))"
  shows "wellFormed (updateProblem i g (s\<lparr>users := us, userAttempts := map f (userAttempts s)\<rparr>))"
proof -
  let ?s' = "updateProblem i g (s\<lparr>users := us, userAttempts := map f (userAttempts s)\<rparr>)"
  have u: "\<forall>u \<in> set us. u_id u < nextId s"
  proof
    fix u assume "u \<in> set us"
    then have "u_id u \<in> set (map u_id (users s))"
      using assms(5) by (metis image_eqI set_map)
    with assms(1) show "u_id u < nextId s"
      by (auto simp: wellFormed_def idsFresh_def)
  qed
  have "idsFresh ?s'"
    using assms(1,2,3,4,7) u by (auto simp: wellFormed_def idsFresh_def updateProblem_def)
  moreover have "keysDistinct ?s'"
    using assms(1) by (simp add: wellFormed_def keysDistinct_def assms(2,3,4,5) o_def)
  moreover have "xpNonneg ?s'"
    using assms(6) by (simp add: xpNonneg_def)
  ultimately show ?thesis
    using assms(8) by (simp add: wellFormed_def)
qed

lemma wf_finalize:
  assumes "wellFormed s"
  shows "wellFormed (snd (finalizeProblemScoring now n s))"
proof (cases "findProblemByNumber n s")
  case None
  with assms show ?thesis by (simp add: finalizeProblemScoring_def)
next
  case (Some p)
  show ?thesis
  proof (cases "isFinalized p")
    case True
    with Some assms show ?thesis by (simp add: finalizeProblemScoring_def)
  next
    case False
    let ?fbs = "finalBaseScoreOf (p_id p) s"
    let ?f = "\<lambda>x. if problemId x = p_id p \<and> solved x then finalizedRow ?fbs x x else x"
    let ?us = "fold (\<lambda>r. adjustXpList (userId r) (rowDelta ?fbs r))
                 (findSolvedAttempts (p_id p) s) (users s)"
    let ?s1 = "s\<lparr>users := ?us, userAttempts := map ?f (userAttempts s)\<rparr>"
    let ?g = "\<lambda>q. q\<lparr>baseScore := ?fbs, isFinalized := True, finalizedAt := Some now\<rparr>"
    from assms have d: "distinct (map a_id (userAttempts s))"
      by (simp add: wellFormed_def keysDistinct_def)
    have eq: "snd (finalizeProblemScoring now n s) = updateProblem (p_id p) ?g ?s1"
      by (simp add: finalizeProblemScoring_eq [OF Some False d])
    from xpNonneg_finalize [of s now n] assms have "xpNonneg (updateProblem (p_id p) ?g ?s1)"
      by (simp add: eq wellFormed_def)
    then have xp: "\<forall>u \<in> set ?us. 0 \<le> xp u"
      by (simp add: xpNonneg_def)
    from assms have c: "snapshotsClean s" by (simp add: wellFormed_def)
    have c1: "snapshotsClean (updateProblem (p_id p) ?g ?s1)"
      using c by (auto simp: snapshotsClean_def updateProblem_def)
    have "wellFormed (updateProblem (p_id p) ?g ?s1)"
      by (rule keys_loop_state [OF assms _ _ _ _ xp _ c1]) simp_all
    then show ?thesis
      by (simp add: eq)
  qed
qed

lemma wf_unfinalize:
  assumes "wellFormed s"
  shows "wellFormed (snd (unfinalizeProblemScoring n s))"
proof (cases "findProblemByNumber n s")
  case None
  with assms show ?thesis by (simp add: unfinalizeProblemScoring_def)
next
  case (Some p)
  show ?thesis
  proof (cases "isFinalized p")
    case False
    with Some assms show ?thesis by (simp add: unfinalizeProblemScoring_def)
  next
    case True
    let ?f = "\<lambda>x. if problemId x = p_id p \<and> solved x then unfinalizedRow x x else x"
    let ?us = "fold (\<lambda>r. adjustXpList (userId r) (reverseDeltaOf r))
                 (findSolvedAttempts (p_id p) s) (users s)"
    let ?s1 = "s\<lparr>users := ?us, userAttempts := map ?f (userAttempts s)\<rparr>"
    from assms have d: "distinct (map a_id (userAttempts s))"
      by (simp add: wellFormed_def keysDistinct_def)
    from unfinalizeProblemScoring_eq [OF Some True d] obtain res where
      full: "unfinalizeProblemScoring n s =
           (Inr res, updateProblem (p_id p)
             (\<lambda>q. q\<lparr>baseScore := ur_restoredBaseScore res, isFinalized := False,
                     finalizedAt := None\<rparr>) ?s1)"
      by blast
    let ?g = "\<lambda>q. q\<lparr>baseScore := ur_restoredBaseScore res, isFinalized := False,
                     finalizedAt := None\<rparr>"
    have eq: "snd (unfinalizeProblemScoring n s) = updateProblem (p_id p) ?g ?s1"
      by (simp add: full)
    from xpNonneg_unfinalize [of s n] assms have "xpNonneg (updateProblem (p_id p) ?g ?s1)"
      by (simp add: eq wellFormed_def)
    then have xp: "\<forall>u \<in> set ?us. 0 \<le> xp u"
      by (simp add: xpNonneg_def)
    from assms have c: "snapshotsClean s" by (simp add: wellFormed_def)
    have c1: "snapshotsClean (updateProblem (p_id p) ?g ?s1)"
      using c by (auto simp: snapshotsClean_def updateProblem_def unfinalizedRow_self)
    have "wellFormed (updateProblem (p_id p) ?g ?s1)"
      by (rule keys_loop_state [OF assms _ _ _ _ xp _ c1]) simp_all
    then show ?thesis
      by (simp add: eq)
  qed
qed

lemma wf_reset:
  assumes "wellFormed s"
  shows "wellFormed (snd (resetProblemStats n s))"
proof (cases "findProblemByNumber n s")
  case None
  with assms show ?thesis by (simp add: resetProblemStats_def)
next
  case (Some p)
  let ?s1 = "s\<lparr>userAttempts := filter (\<lambda>a. problemId a \<noteq> p_id p) (userAttempts s)\<rparr>"
  have "idsFresh ?s1"
    using assms by (auto simp: wellFormed_def idsFresh_def)
  moreover have "keysDistinct ?s1"
    using assms by (simp add: wellFormed_def keysDistinct_def distinct_map_filter)
  moreover have "snapshotsClean ?s1"
    using assms by (auto simp: wellFormed_def snapshotsClean_def)
  moreover have "xpNonneg ?s1"
    using assms by (simp add: wellFormed_def xpNonneg_def)
  ultimately have "wellFormed ?s1"
    by (simp add: wellFormed_def)
  then show ?thesis
    using Some by (simp add: resetProblemStats_def Let_def wf_updateProblem)
qed

lemma find_append_eq:
  "find P (xs @ ys) = (case find P xs of None \<Rightarrow> find P ys | Some x \<Rightarrow> Some x)"
  by (induction xs) simp_all

lemma getOrCreateUserAttempt_in_set:
  "getOrCreateUserAttempt uid pid s = (a, s1) \<Longrightarrow> a \<in> set (userAttempts s1)"
  by (auto simp: getOrCreateUserAttempt_def findUserAttempt_def find_Some_iff Let_def
      split: option.splits)

lemma getOrCreateUser_in_set:
  "getOrCreateUser d s = (u, s1) \<Longrightarrow> u \<in> set (users s1)"
  by (auto simp: getOrCreateUser_def findUserByDiscordId_def find_Some_iff Let_def
      split: option.splits)

lemma loadOrCreateProblem_post:
  assumes "wellFormed s" and "loadOrCreateProblem sheet n s = (Inr p, s1)"
  shows "wellFormed s1 \<and> findProblemByNumber n s1 = Some p \<and> p_id p < nextId s1 \<and>
         users s1 = users s \<and> userAttempts s1 = userAttempts s"
proof (cases "findProblemByNumber n s")
  case (Some q)
  with assms have "p = q" "s1 = s"
    by (simp_all add: loadOrCreateProblem_def)
  with Some assms(1) findProblem_in_set [OF Some] show ?thesis
    by (auto simp: wellFormed_def idsFresh_def)
next
  case None
  with assms(2) obtain v where v: "sheet n = Inr v"
    and p: "p = \<lparr>p_id = nextId s, number = n, originalBaseScore = v, baseScore = v,
                 p_attempts = 0, solves = 0, isFinalized = False, finalizedAt = None\<rparr>"
    and s1: "s1 = s\<lparr>problems := problems s @ [p], nextId := nextId s + 1\<rparr>"
    by (auto simp: loadOrCreateProblem_def Let_def split: sum.splits)
  from assms(1) have f: "idsFresh s" and k: "keysDistinct s" and c: "snapshotsClean s"
    and x: "xpNonneg s"
    by (simp_all add: wellFormed_def)
  have "idsFresh s1"
    using f by (auto simp: idsFresh_def s1 p less_Suc_eq)
  moreover have "keysDistinct s1"
    using k by (simp add: keysDistinct_def s1)
  moreover have "snapshotsClean s1"
    using c f by (auto simp: snapshotsClean_def idsFresh_def s1 p)
  moreover have "xpNonneg s1"
    using x by (simp add: xpNonneg_def s1)
  moreover have "findProblemByNumber n s1 = Some p"
    using None by (simp add: findProblemByNumber_def s1 p find_append_eq)
  ultimately show ?thesis
    by (simp add: wellFormed_def s1 p)
qed

lemma loadOrCreateProblem_fail:
  "loadOrCreateProblem sheet n s = (Inl e, s1) \<Longrightarrow> s1 = s"
  by (auto simp: loadOrCreateProblem_def Let_def split: option.splits sum.splits)

lemma backfill_post:
  assumes "wellFormed s" and "findProblemByNumber n s = Some p"
    and "backfillOriginalBaseScore sheet n p s = (Inr p', s1)"
  shows "wellFormed s1 \<and> findProblemByNumber n s1 = Some p' \<and> p_id p' = p_id p \<and>
         nextId s1 = nextId s \<and> isFinalized p' = isFinalized p \<and>
         baseScore p' = baseScore p \<and> solves p' = solves p \<and>
         users s1 = users s \<and> userAttempts s1 = userAttempts s"
proof (cases "originalBaseScore p \<le> 0")
  case False
  with assms show ?thesis by (simp add: backfillOriginalBaseScore_def)
next
  case True
  with assms(3) obtain v where v: "sheet n = Inr v"
    and p': "p' = p\<lparr>originalBaseScore := v\<rparr>"
    and s1: "s1 = updateProblem (p_id p) (\<lambda>q. q\<lparr>originalBaseScore := v\<rparr>) s"
    by (auto simp: backfillOriginalBaseScore_def split: sum.splits)
  have "wellFormed s1"
    unfolding s1 by (rule wf_updateProblem [OF assms(1)]) simp_all
  moreover have "findProblemByNumber n s1 = Some p'"
    unfolding s1 p' by (rule findProblem_updateProblem [OF assms(2)]) simp
  ultimately show ?thesis
    by (simp add: p' s1)
qed

lemma backfill_fail:
  "backfillOriginalBaseScore sheet n p s = (Inl e, s1) \<Longrightarrow> s1 = s"
  by (auto simp: backfillOriginalBaseScore_def split: if_splits sum.splits)

lemma getOrCreateUser_nextId: "nextId s \<le> nextId (snd (getOrCreateUser d s))"
  by (simp add: getOrCreateUser_def Let_def split: option.splits)

lemma wf_getOrCreateUserAttempt:
  assumes "wellFormed s" and "pid < nextId s" and "uid < nextId s"
  shows "wellFormed (snd (getOrCreateUserAttempt uid pid s))"
proof (cases "findUserAttempt uid pid s")
  case (Some a)
  with assms show ?thesis by (simp add: getOrCreateUserAttempt_def)
next
  case None
  let ?a = "\<lparr>a_id = nextId s, userId = uid, problemId = pid, attempts = 0, solved = False,
             awardedXp = 0, preFinalizeAwardedXp = None, finalizeDelta = 0\<rparr>"
  let ?s' = "s\<lparr>userAttempts := userAttempts s @ [?a], nextId := nextId s + 1\<rparr>"
  from assms(1) have f: "idsFresh s" and k: "keysDistinct s" and c: "snapshotsClean s"
    and x: "xpNonneg s"
    by (simp_all add: wellFormed_def)
  from None have fresh: "\<forall>a \<in> set (userAttempts s). \<not> (userId a = uid \<and> problemId a = pid)"
    by (simp add: findUserAttempt_def find_None_iff)
  have "idsFresh ?s'"
    using f assms(2,3) by (auto simp: idsFresh_def less_Suc_eq)
  moreover have "keysDistinct ?s'"
    using f k fresh by (auto simp: idsFresh_def keysDistinct_def)
  moreover have "snapshotsClean ?s'"
    using c by (auto simp: snapshotsClean_def)
  moreover have "xpNonneg ?s'"
    using x by (simp add: xpNonneg_def)
  ultimately show ?thesis
    using None by (simp add: getOrCreateUserAttempt_def Let_def wellFormed_def)
qed

lemma wf_scoreAttempt:
  assumes "wellFormed s" and "p_id p < nextId s"
  shows "wellFormed (snd (scoreAttempt d c p s))"
proof -
  obtain u s1 where g1: "getOrCreateUser d s = (u, s1)"
    by (cases "getOrCreateUser d s")
  obtain a s2 where g2: "getOrCreateUserAttempt (u_id u) (p_id p) s1 = (a, s2)"
    by (cases "getOrCreateUserAttempt (u_id u) (p_id p) s1")
  from wf_getOrCreateUser [OF assms(1), of d] g1 have w1: "wellFormed s1" by simp
  from getOrCreateUser_nextId [of s d] g1 assms(2) have "p_id p < nextId s1" by simp
  moreover have "u_id u < nextId s1"
    using w1 getOrCreateUser_in_set [OF g1] by (auto simp: wellFormed_def idsFresh_def)
  ultimately have w2: "wellFormed s2"
    using wf_getOrCreateUserAttempt [OF w1, of "p_id p" "u_id u"] g2 by simp
  from w2 have d2: "distinct (map a_id (userAttempts s2))"
    by (simp add: wellFormed_def keysDistinct_def)
  have same: "x = a" if "x \<in> set (userAttempts s2)" and "a_id x = a_id a" for x
    using distinct_key_eq [OF d2 that(1) getOrCreateUserAttempt_in_set [OF g2] that(2)] .
  let ?newly = "c \<and> \<not> solved a"
  let ?s3 = "updateUserAttempt (a_id a)
               (\<lambda>x. x\<lparr>attempts := attempts a + 1, solved := (solved a \<or> c)\<rparr>) s2"
  let ?s4 = "updateProblem (p_id p)
               (\<lambda>q. q\<lparr>p_attempts := p_attempts p + 1,
                       solves := solves p + (if ?newly then 1 else 0)\<rparr>) ?s3"
  let ?base = "getDynamicBaseFromWeightedSolves (sumSolveWeights (findSolvedAttempts (p_id p) ?s4))"
  let ?s5 = "updateProblem (p_id p) (\<lambda>q. q\<lparr>baseScore := ?base\<rparr>) ?s4"
  let ?award = "\<lfloor>real_of_int (if originalBaseScore p > 0 then originalBaseScore p
                                  else baseScore p) * getSolveWeight (attempts a + 1)\<rfloor>"
  let ?s7 = "updateUserAttempt (a_id a) (\<lambda>x. x\<lparr>awardedXp := ?award\<rparr>) (snd (addXP d ?award ?s5))"
  have eq: "snd (scoreAttempt d c p s) = (if ?newly then ?s7 else ?s5)"
    by (simp add: scoreAttempt_def g1 g2 Let_def case_prod_unfold)
  have w3: "wellFormed ?s3"
    by (rule wf_updateUserAttempt [OF w2]) (auto dest: same)
  have w4: "wellFormed ?s4"
    by (rule wf_updateProblem [OF w3]) simp_all
  have w5: "wellFormed ?s5"
    by (rule wf_updateProblem [OF w4]) simp_all
  have w7: "wellFormed ?s7"
    by (rule wf_updateUserAttempt [OF wf_addXP [OF w5]]) simp_all
  show ?thesis
    unfolding eq using w5 w7 by (simp only: if_split) blast
qed

lemma wf_recordAttempt:
  assumes "wellFormed s"
  shows "wellFormed (snd (recordAttempt sheet d n c s))"
proof (cases "loadOrCreateProblem sheet n s")
  case (Pair res s1)
  show ?thesis
  proof (cases res)
    case (Inl e)
    with Pair loadOrCreateProblem_fail [of sheet n s e s1] assms show ?thesis
      by (simp add: recordAttempt_def)
  next
    case (Inr p0)
    from loadOrCreateProblem_post [OF assms Pair [unfolded Inr]]
    have w1: "wellFormed s1" and f1: "findProblemByNumber n s1 = Some p0" and i1: "p_id p0 < nextId s1"
      by simp_all
    show ?thesis
    proof (cases "isFinalized p0")
      case True
      with Pair Inr w1 show ?thesis by (simp add: recordAttempt_def)
    next
      case False
      show ?thesis
      proof (cases "backfillOriginalBaseScore sheet n p0 s1")
        case (Pair res2 s2)
        show ?thesis
        proof (cases res2)
          case (Inl e)
          with Pair backfill_fail [of sheet n p0 s1 e s2] w1 False
            \<open>loadOrCreateProblem sheet n s = (res, s1)\<close> \<open>res = Inr p0\<close>
          show ?thesis by (simp add: recordAttempt_def)
        next
          case (Inr p)
          from backfill_post [OF w1 f1 Pair [unfolded Inr]] i1
          have "wellFormed s2" and "p_id p < nextId s2" by simp_all
          from wf_scoreAttempt [OF this, of d c]
          show ?thesis
            using Pair Inr False \<open>loadOrCreateProblem sheet n s = (res, s1)\<close> \<open>res = Inr p0\<close>
            by (simp add: recordAttempt_def case_prod_unfold)
        qed
      qed
    qed
  qed
qed

lemma wf_run: "wellFormed s \<Longrightarrow> wellFormed (run sheet c s)"
  by (cases c)
    (simp_all add: wf_getOrCreateUser wf_addXP wf_removeXP wf_recordAttempt wf_reset
      wf_finalize wf_unfinalize)

lemma reachable_wf: "reachable s \<Longrightarrow> wellFormed s"
  by (induction rule: reachable.induct) (simp_all add: wf_empty wf_run)

lemma demoOpen_reachable: "reachable demoOpen"
proof -
  have "reachable (run demoSheet (CmdRecordAttempt ''A'' ''7'' True) emptyDb)"
    by (rule reachable_step [OF reachable_empty])
  then have "reachable demoAfterA"
    by (simp add: step_A)
  then have "reachable (run demoSheet (CmdRecordAttempt ''B'' ''7'' False) demoAfterA)"
    by (rule reachable_step)
  then have "reachable demoAfterBWrong"
    by (simp add: step_B_wrong)
  then have "reachable (run demoSheet (CmdRecordAttempt ''B'' ''7'' True) demoAfterBWrong)"
    by (rule reachable_step)
  then show ?thesis
    by (simp add: step_B_right)
qed

lemma demoAfterBWrong_reachable: "reachable demoAfterBWrong"
proof -
  have "reachable (run demoSheet (CmdRecordAttempt ''A'' ''7'' True) emptyDb)"
    by (rule reachable_step [OF reachable_empty])
  then have "reachable demoAfterA"
    by (simp add: step_A)
  then have "reachable (run demoSheet (CmdRecordAttempt ''B'' ''7'' False) demoAfterA)"
    by (rule reachable_step)
  then show ?thesis
    by (simp add: step_B_wrong)
qed

lemma demoLowXp_reachable: "reachable demoLowXp"
proof -
  have "reachable (run demoSheet (CmdRemoveXP ''A'' 90) demoOpen)"
    by (rule reachable_step [OF demoOpen_reachable])
  moreover have "run demoSheet (CmdRemoveXP ''A'' 90) demoOpen = demoLowXp"
    by (simp add: removeXP_def getOrCreateUser_def findUserByDiscordId_def
        setUserXpByDiscordId_def demoOpen_def demoUsers_def demoLowXp_def)
  ultimately show ?thesis by simp
qed

lemma demoZero_step:
  "recordAttempt demoZeroSheet ''A'' ''8'' True emptyDb =
     (Inr \<lparr>ar_awardedXP = 0, ar_userXP = 0, ar_attemptNumber = 1,
           ar_totalProblemAttempts = 1, ar_totalProblemSolves = 1, ar_weightedSolves = 1,
           ar_originalBaseScore = 0, ar_currentBaseScore = 25\<rparr>, demoZero)"
  by (simp add: eval_defs emptyDb_def demoZeroSheet_def demoZero_def demoZeroProblem_def
      demoZeroAttempt_def dyn_ge_1)

lemma demoZero_reachable: "reachable demoZero"
proof -
  have "reachable (run demoZeroSheet (CmdRecordAttempt ''A'' ''8'' True) emptyDb)"
    by (rule reachable_step [OF reachable_empty])
  then show ?thesis
    by (simp add: demoZero_step)
qed

lemma demoStale_step:
  "recordAttempt demoZeroSheet ''B'' ''8'' False emptyDb =
     (Inr \<lparr>ar_awardedXP = 0, ar_userXP = 0, ar_attemptNumber = 1,
           ar_totalProblemAttempts = 1, ar_totalProblemSolves = 0, ar_weightedSolves = 0,
           ar_originalBaseScore = 0, ar_currentBaseScore = 34\<rparr>, demoStale)"
  by (simp add: eval_defs emptyDb_def demoZeroSheet_def demoStale_def dyn_0)

lemma demoStale_reachable: "reachable demoStale"
proof -
  have "reachable (run demoZeroSheet (CmdRecordAttempt ''B'' ''8'' False) emptyDb)"
    by (rule reachable_step [OF reachable_empty])
  then show ?thesis
    by (simp add: demoStale_step)
qed

section \<open>Finalize followed by unfinalize\<close>

lemma distinct_userId_solved:
  assumes "distinct (map (\<lambda>a. (userId a, problemId a)) tbl)"
  shows "distinct (map userId (filter (\<lambda>a. problemId a = pid \<and> solved a) tbl))"
  using assms
proof (induction tbl)
  case Nil
  then show ?case by simp
next
  case (Cons x xs)
  then have ih: "distinct (map userId (filter (\<lambda>a. problemId a = pid \<and> solved a) xs))"
    and n: "(userId x, problemId x) \<notin> (\<lambda>a. (userId a, problemId a)) ` set xs"
    by simp_all
  have "userId x \<notin> userId ` set (filter (\<lambda>a. problemId a = pid \<and> solved a) xs)"
    if "problemId x = pid"
  proof
    assume "userId x \<in> userId ` set (filter (\<lambda>a. problemId a = pid \<and> solved a) xs)"
    then obtain y where "y \<in> set xs" "problemId y = pid" "userId y = userId x"
      by auto
    with that have "(userId x, problemId x) = (userId y, problemId y)" by simp
    with \<open>y \<in> set xs\<close> n show False by (metis (mono_tags, lifting) image_iff)
  qed
  with ih show ?case by simp
qed

lemma filter_map_upd:
  assumes "\<And>x. P (f x) = P x"
  shows "filter P (map (\<lambda>x. if P x then f x else x) xs) = map f (filter P xs)"
  by (induction xs) (simp_all add: assms)

lemma findSolvedAttempts_tbl:
  "userAttempts s' = tbl \<Longrightarrow>
   findSolvedAttempts pid s' = filter (\<lambda>a. problemId a = pid \<and> solved a) tbl"
  by (simp add: findSolvedAttempts_def)

lemma clampAdd_round_trip:
  assumes "0 \<le> x"
  shows "clampAdd (clampAdd x d) (- d) = (if 0 \<le> x + d then x else - d)"
  using assms by (simp add: clampAdd_def)

lemma byUser_twice:
  assumes "0 \<le> xp u"
  shows "byUser rows (\<lambda>r. - delta r) (byUser rows delta u) =
     (case find (\<lambda>a. userId a = u_id u) rows of
        None \<Rightarrow> u
      | Some a \<Rightarrow> if 0 \<le> xp u + delta a then u else u\<lparr>xp := - delta a\<rparr>)"
  using assms
  by (cases "find (\<lambda>a. userId a = u_id u) rows")
    (simp_all add: byUser_def clampAdd_round_trip)

lemma restore_row:
  assumes "preFinalizeAwardedXp x = None" and "finalizeDelta x = 0"
  shows "unfinalizedRow (finalizedRow fbs x x) (finalizedRow fbs x x) = x"
  using assms
  by (cases x) (simp add: unfinalizedRow_def finalizedRow_def baselineAward_def)

lemmas finalize_eval_defs =
  finalizeProblemScoring_def unfinalizeProblemScoring_def finalizeAttempt_def
  unfinalizeAttempt_def adjustUserXPByDbId_def baselineAward_def finalAward_def
  getWeightedSolves_def
  findProblemByNumber_def findUserById_def findSolvedAttempts_def setUserXpById_def
  updateProblem_def updateUserAttempt_def sumSolveWeights_def getSolveWeight_def
  getWrongAttempts_def SCORE_DECAY_def MAX_WRONG_ATTEMPTS_def Let_def

lemma demoLowXp_finalize:
  "finalizeProblemScoring 1 ''7'' demoLowXp =
     (Inr \<lparr>fr_problemNumber = ''7'', fr_finalBaseScore = 25, fr_weightedSolves = 9 / 5,
           fr_adjustedUsers = 2, fr_initializedUsers = 0\<rparr>, demoLowXpFinalized)"
  by (simp add: finalize_eval_defs demoLowXp_def demoLowXpFinalized_def demoOpen_def
      demoProblem_def demoAttempts_def dyn_ge_1)

lemma demoLowXp_unfinalize:
  "unfinalizeProblemScoring ''7'' demoLowXpFinalized =
     (Inr \<lparr>ur_problemNumber = ''7'', ur_restoredBaseScore = 25, ur_revertedUsers = 2\<rparr>,
      demoLowXpRestored)"
  by (simp add: finalize_eval_defs demoLowXpRestored_def demoLowXpFinalized_def demoOpen_def
      demoProblem_def demoAttempts_def dyn_ge_1)

text \<open>
  C1, as stated, fails on the ledger. \<open>demoLowXp\<close> is reachable: user A holds 10 XP and a
  solved row worth 100. Finalizing problem 7 re-prices the row to 25, delta -75; the
  balance is clamped at 0, so only 10 are taken. Unfinalizing adds 75: user A ends with
  75, not with the 10 held before the finalize.
\<close>

theorem round_trip_low_balance_counterexample:
  "reachable demoLowXp \<and>
   finalizeProblemScoring 1 ''7'' demoLowXp =
     (Inr \<lparr>fr_problemNumber = ''7'', fr_finalBaseScore = 25, fr_weightedSolves = 9 / 5,
           fr_adjustedUsers = 2, fr_initializedUsers = 0\<rparr>, demoLowXpFinalized) \<and>
   unfinalizeProblemScoring ''7'' demoLowXpFinalized =
     (Inr \<lparr>ur_problemNumber = ''7'', ur_restoredBaseScore = 25, ur_revertedUsers = 2\<rparr>,
      demoLowXpRestored) \<and>
   findUserByDiscordId ''A'' demoLowXp = Some \<lparr>u_id = 1, discordId = ''A'', xp = 10\<rparr> \<and>
   findUserByDiscordId ''A'' demoLowXpRestored = Some \<lparr>u_id = 1, discordId = ''A'', xp = 75\<rparr> \<and>
   users demoLowXpRestored \<noteq> users demoLowXp"
  using demoLowXp_reachable demoLowXp_finalize demoLowXp_unfinalize
  by (simp add: findUserByDiscordId_def demoLowXp_def demoLowXpRestored_def)

lemma demo_finalBaseScore: "finalBaseScoreOf 0 demoOpen = 25"
  by (simp add: finalBaseScoreOf_def findSolvedAttempts_def sumSolveWeights_def
      getSolveWeight_def getWrongAttempts_def SCORE_DECAY_def MAX_WRONG_ATTEMPTS_def
      demoOpen_def demoAttempts_def dyn_ge_1)

text \<open>
  C1, amended: in every reachable store and for every problem that is not finalized,
  finalize followed at once by unfinalize succeeds and gives back the table of attempt
  rows exactly (every solved row has its pre-finalize \<^verbatim>\<open>awardedXp\<close> again); a user's balance
  is back at its pre-finalize value when the user has no solved row for the problem or
  the balance could take the finalize delta of that row (\<open>0 \<le> xp + delta\<close>), and is
  \<open>- delta\<close> otherwise, the clamp at zero having swallowed the difference.
\<close>

theorem finalize_unfinalize_round_trip:
  assumes "reachable s" and "findProblemByNumber n s = Some p" and "\<not> isFinalized p"
  shows "\<exists>r1 s1 r2 s2.
           finalizeProblemScoring now n s = (Inr r1, s1) \<and>
           unfinalizeProblemScoring n s1 = (Inr r2, s2) \<and>
           fr_finalBaseScore r1 = finalBaseScoreOf (p_id p) s \<and>
           userAttempts s2 = userAttempts s \<and>
           users s2 =
             map (\<lambda>u. case find (\<lambda>a. userId a = u_id u) (findSolvedAttempts (p_id p) s) of
                         None \<Rightarrow> u
                       | Some a \<Rightarrow>
                           if 0 \<le> xp u + rowDelta (finalBaseScoreOf (p_id p) s) a then u
                           else u\<lparr>xp := - rowDelta (finalBaseScoreOf (p_id p) s) a\<rparr>)
                 (users s)"
proof -
  let ?pid = "p_id p"
  let ?fbs = "finalBaseScoreOf ?pid s"
  let ?rows = "findSolvedAttempts ?pid s"
  let ?P = "\<lambda>x. problemId x = ?pid \<and> solved x"
  let ?fin = "\<lambda>x. finalizedRow ?fbs x x"
  let ?T1 = "map (\<lambda>x. if ?P x then ?fin x else x) (userAttempts s)"
  let ?U1 = "fold (\<lambda>r. adjustXpList (userId r) (rowDelta ?fbs r)) ?rows (users s)"
  let ?g = "\<lambda>q. q\<lparr>baseScore := ?fbs, isFinalized := True, finalizedAt := Some now\<rparr>"
  let ?s1 = "updateProblem ?pid ?g (s\<lparr>users := ?U1, userAttempts := ?T1\<rparr>)"
  from reachable_wf [OF assms(1)] have w: "wellFormed s" .
  then have d: "distinct (map a_id (userAttempts s))"
    and du: "distinct (map u_id (users s))"
    and dp: "distinct (map (\<lambda>a. (userId a, problemId a)) (userAttempts s))"
    and clean: "snapshotsClean s" and xp: "\<forall>u \<in> set (users s). 0 \<le> xp u"
    by (simp_all add: wellFormed_def keysDistinct_def xpNonneg_def)
  have dr: "distinct (map userId ?rows)"
    unfolding findSolvedAttempts_def by (rule distinct_userId_solved [OF dp])
  \<comment> \<open>finalize\<close>
  obtain r1 where fin: "finalizeProblemScoring now n s = (Inr r1, ?s1)"
    and r1: "fr_finalBaseScore r1 = ?fbs"
    using finalizeProblemScoring_eq [OF assms(2,3) d, of now] by simp
  \<comment> \<open>the store after finalize\<close>
  have f0: "findProblemByNumber n (s\<lparr>users := ?U1, userAttempts := ?T1\<rparr>) = Some p"
    using assms(2) by (simp add: findProblemByNumber_def)
  have f1: "findProblemByNumber n ?s1 = Some (?g p)"
    using findProblem_updateProblem [OF f0, of ?g] by simp
  have fz: "isFinalized (?g p)" by simp
  have T1: "userAttempts ?s1 = ?T1" by simp
  have U1: "users ?s1 = ?U1" by simp
  have mk: "map a_id ?T1 = map a_id (userAttempts s)"
    by (rule map_key_upd) simp
  have d1: "distinct (map a_id (userAttempts ?s1))"
    unfolding T1 mk by (rule d)
  have rows1: "findSolvedAttempts ?pid ?s1 = map ?fin ?rows"
  proof -
    have "findSolvedAttempts ?pid ?s1 = filter ?P ?T1"
      by (rule findSolvedAttempts_tbl [OF T1])
    also have "\<dots> = map ?fin (filter ?P (userAttempts s))"
      by (rule filter_map_upd) simp
    finally show ?thesis
      by (simp add: findSolvedAttempts_def)
  qed
  \<comment> \<open>unfinalize\<close>
  from unfinalizeProblemScoring_eq [OF f1 fz d1] obtain r2 where
    unf: "unfinalizeProblemScoring n ?s1 =
       (Inr r2, updateProblem (p_id (?g p))
          (\<lambda>q. q\<lparr>baseScore := ur_restoredBaseScore r2, isFinalized := False,
                  finalizedAt := None\<rparr>)
          (?s1\<lparr>users := fold (\<lambda>r. adjustXpList (userId r) (reverseDeltaOf r))
                           (findSolvedAttempts (p_id (?g p)) ?s1) (users ?s1),
               userAttempts :=
                 map (\<lambda>x. if problemId x = p_id (?g p) \<and> solved x then unfinalizedRow x x else x)
                   (userAttempts ?s1)\<rparr>))"
    by blast
  let ?s2 = "snd (unfinalizeProblemScoring n ?s1)"
  \<comment> \<open>the attempt rows are back\<close>
  have rowback: "(if ?P (if ?P x then ?fin x else x)
               then unfinalizedRow (if ?P x then ?fin x else x) (if ?P x then ?fin x else x)
               else (if ?P x then ?fin x else x)) = x" if "x \<in> set (userAttempts s)" for x
  proof (cases "?P x")
    case True
    from findProblem_in_set [OF assms(2)] assms(3) clean that True
    have "preFinalizeAwardedXp x = None" and "finalizeDelta x = 0"
      by (auto simp: snapshotsClean_def)
    with True show ?thesis by (simp add: restore_row)
  next
    case False
    then show ?thesis by auto
  qed
  have T2: "userAttempts ?s2 = userAttempts s"
    by (simp add: unf o_def map_idI rowback cong: if_cong)
  \<comment> \<open>the ledger\<close>
  have U1': "?U1 = map (byUser ?rows (rowDelta ?fbs)) (users s)"
    by (rule fold_adjust_distinct [OF du dr])
  have du1: "distinct (map u_id ?U1)"
    using du by simp
  have "users ?s2 = fold (\<lambda>r. adjustXpList (userId r) (reverseDeltaOf r)) (map ?fin ?rows) ?U1"
    using rows1 by (simp add: unf)
  also have "\<dots> = fold (\<lambda>r. adjustXpList (userId r) (- rowDelta ?fbs r)) ?rows ?U1"
    by (simp add: fold_map o_def reverseDeltaOf_def)
  also have "\<dots> = map (byUser ?rows (\<lambda>r. - rowDelta ?fbs r)) ?U1"
    by (rule fold_adjust_distinct [OF du1 dr])
  also have "\<dots> = map (\<lambda>u. byUser ?rows (\<lambda>r. - rowDelta ?fbs r) (byUser ?rows (rowDelta ?fbs) u))
                      (users s)"
    by (simp add: U1' o_def)
  also have "\<dots> = map (\<lambda>u. case find (\<lambda>a. userId a = u_id u) ?rows of
                         None \<Rightarrow> u
                       | Some a \<Rightarrow>
                           if 0 \<le> xp u + rowDelta ?fbs a then u
                           else u\<lparr>xp := - rowDelta ?fbs a\<rparr>) (users s)"
    by (rule map_cong [OF refl]) (simp add: byUser_twice xp)
  finally have U2: "users ?s2 = map (\<lambda>u. case find (\<lambda>a. userId a = u_id u) ?rows of
                         None \<Rightarrow> u
                       | Some a \<Rightarrow>
                           if 0 \<le> xp u + rowDelta ?fbs a then u
                           else u\<lparr>xp := - rowDelta ?fbs a\<rparr>) (users s)" .
  have "unfinalizeProblemScoring n ?s1 = (Inr r2, ?s2)"
    by (simp add: unf)
  with fin r1 T2 U2 show ?thesis
    by blast
qed

theorem finalize_unfinalize_round_trip_witness:
  "reachable demoOpen \<and> findProblemByNumber ''7'' demoOpen = Some demoProblem \<and>
   \<not> isFinalized demoProblem \<and>
   (\<exists>r1 s1 r2 s2.
      finalizeProblemScoring 1 ''7'' demoOpen = (Inr r1, s1) \<and>
      unfinalizeProblemScoring ''7'' s1 = (Inr r2, s2) \<and>
      fr_finalBaseScore r1 = 25 \<and>
      userAttempts s2 = demoAttempts \<and> users s2 = demoUsers)"
proof -
  have h: "\<not> isFinalized demoProblem"
    by (simp add: demoProblem_def)
  from finalize_unfinalize_round_trip [OF demoOpen_reachable demo_find_open h, of 1]
  obtain r1 s1 r2 s2 where
    "finalizeProblemScoring 1 ''7'' demoOpen = (Inr r1, s1)"
    "unfinalizeProblemScoring ''7'' s1 = (Inr r2, s2)"
    "fr_finalBaseScore r1 = finalBaseScoreOf (p_id demoProblem) demoOpen"
    "userAttempts s2 = userAttempts demoOpen"
    "users s2 =
       map (\<lambda>u. case find (\<lambda>a. userId a = u_id u)
                        (findSolvedAttempts (p_id demoProblem) demoOpen) of
                   None \<Rightarrow> u
                 | Some a \<Rightarrow>
                     if 0 \<le> xp u + rowDelta (finalBaseScoreOf (p_id demoProblem) demoOpen) a
                     then u
                     else u\<lparr>xp := - rowDelta (finalBaseScoreOf (p_id demoProblem) demoOpen) a\<rparr>)
           (users demoOpen)"
    by blast
  note facts = this
  have fb: "finalBaseScoreOf (p_id demoProblem) demoOpen = 25"
    by (simp add: demoProblem_def demo_finalBaseScore)
  have rows: "findSolvedAttempts (p_id demoProblem) demoOpen = demoAttempts"
    by (simp add: findSolvedAttempts_def demoProblem_def demoOpen_def demoAttempts_def)
  have tbl: "users demoOpen = demoUsers" "userAttempts demoOpen = demoAttempts"
    by (simp_all add: demoOpen_def)
  have m: "map (\<lambda>u. case find (\<lambda>a. userId a = u_id u) demoAttempts of
                   None \<Rightarrow> u
                 | Some a \<Rightarrow> if 0 \<le> xp u + rowDelta 25 a then u
                             else u\<lparr>xp := - rowDelta 25 a\<rparr>) demoUsers = demoUsers"
    by (simp add: demoUsers_def demoAttempts_def rowDelta_def baselineAward_def
        finalAward_def getSolveWeight_def getWrongAttempts_def SCORE_DECAY_def
        MAX_WRONG_ATTEMPTS_def)
  from facts have
    "finalizeProblemScoring 1 ''7'' demoOpen = (Inr r1, s1) \<and>
     unfinalizeProblemScoring ''7'' s1 = (Inr r2, s2) \<and>
     fr_finalBaseScore r1 = 25 \<and>
     userAttempts s2 = demoAttempts \<and> users s2 = demoUsers"
    by (simp only: fb rows tbl m)
  with demoOpen_reachable demo_find_open h show ?thesis
    by blast
qed

section \<open>Rows that were never priced\<close>

lemma find_map_fix:
  assumes "\<And>x. x \<in> set xs \<Longrightarrow> P (h x) = P x" and "\<And>x. x \<in> set xs \<Longrightarrow> P x \<Longrightarrow> h x = x"
  shows "find P (map h xs) = find P xs"
  using assms by (induction xs) auto

lemma find_by_key:
  assumes "distinct (map k xs)" and "x \<in> set xs"
  shows "find (\<lambda>r. k r = k x) xs = Some x"
  using find_filter_distinct [OF assms, of "\<lambda>_. True"] by simp

text \<open>
  C7: when \<^verbatim>\<open>finalizeProblemScoring\<close> runs on a reachable store, a solved row of the problem
  whose baseline award is 0 gets \<^verbatim>\<open>preFinalizeAwardedXp\<close> 0, \<^verbatim>\<open>awardedXp\<close> the final award
  \<open>\<lfloor>finalBaseScore * solveWeight(attempts)\<rfloor>\<close> and \<^verbatim>\<open>finalizeDelta\<close> 0; the user of the row is
  left as stored; \<^verbatim>\<open>initializedUsers\<close> counts exactly the rows with baseline 0 and
  \<^verbatim>\<open>adjustedUsers\<close> only rows with another baseline (those whose award changes).
\<close>

theorem finalize_initializes_unpriced_rows:
  assumes "reachable s" and "findProblemByNumber n s = Some p" and "\<not> isFinalized p"
    and "a \<in> set (findSolvedAttempts (p_id p) s)" and "baselineAward a = 0"
  shows "\<exists>r s'.
           finalizeProblemScoring now n s = (Inr r, s') \<and>
           find (\<lambda>x. a_id x = a_id a) (userAttempts s') =
             Some (a\<lparr>preFinalizeAwardedXp := Some 0,
                     awardedXp := \<lfloor>real_of_int (fr_finalBaseScore r) *
                                    getSolveWeight (attempts a)\<rfloor>,
                     finalizeDelta := 0\<rparr>) \<and>
           findUserById (userId a) s' = findUserById (userId a) s \<and>
           fr_initializedUsers r =
             length (filter (\<lambda>x. baselineAward x = 0) (findSolvedAttempts (p_id p) s)) \<and>
           fr_adjustedUsers r =
             length (filter (\<lambda>x. baselineAward x \<noteq> 0 \<and>
                                  finalAward (fr_finalBaseScore r) x \<noteq> baselineAward x)
                       (findSolvedAttempts (p_id p) s))"
proof -
  let ?pid = "p_id p"
  let ?fbs = "finalBaseScoreOf ?pid s"
  let ?rows = "findSolvedAttempts ?pid s"
  let ?P = "\<lambda>x. problemId x = ?pid \<and> solved x"
  let ?fin = "\<lambda>x. finalizedRow ?fbs x x"
  let ?T1 = "map (\<lambda>x. if ?P x then ?fin x else x) (userAttempts s)"
  let ?U1 = "fold (\<lambda>r. adjustXpList (userId r) (rowDelta ?fbs r)) ?rows (users s)"
  let ?g = "\<lambda>q. q\<lparr>baseScore := ?fbs, isFinalized := True, finalizedAt := Some now\<rparr>"
  let ?s1 = "updateProblem ?pid ?g (s\<lparr>users := ?U1, userAttempts := ?T1\<rparr>)"
  from reachable_wf [OF assms(1)] have
    d: "distinct (map a_id (userAttempts s))"
    and du: "distinct (map u_id (users s))"
    and dp: "distinct (map (\<lambda>a. (userId a, problemId a)) (userAttempts s))"
    by (simp_all add: wellFormed_def keysDistinct_def)
  have dr: "distinct (map userId ?rows)"
    unfolding findSolvedAttempts_def by (rule distinct_userId_solved [OF dp])
  from assms(4) have a_in: "a \<in> set (userAttempts s)" and Pa: "?P a"
    by (simp_all add: findSolvedAttempts_def)
  obtain r where fin: "finalizeProblemScoring now n s = (Inr r, ?s1)"
    and r1: "fr_finalBaseScore r = ?fbs"
    and r2: "fr_initializedUsers r = length (filter (\<lambda>x. baselineAward x = 0) ?rows)"
    and r3: "fr_adjustedUsers r = length (filter (\<lambda>x. rowDelta ?fbs x \<noteq> 0) ?rows)"
    using finalizeProblemScoring_eq [OF assms(2,3) d, of now] by simp
  \<comment> \<open>the row\<close>
  have "find (\<lambda>x. a_id x = a_id a) ?T1 = Some (if ?P a then ?fin a else a)"
    by (rule find_map_upd [OF find_by_key [OF d a_in]]) simp
  also have "(if ?P a then ?fin a else a) =
      a\<lparr>preFinalizeAwardedXp := Some 0,
        awardedXp := \<lfloor>real_of_int ?fbs * getSolveWeight (attempts a)\<rfloor>,
        finalizeDelta := 0\<rparr>"
    using Pa assms(5) by (simp add: finalizedRow_def rowDelta_def finalAward_def)
  finally have row: "find (\<lambda>x. a_id x = a_id a) (userAttempts ?s1) =
      Some (a\<lparr>preFinalizeAwardedXp := Some 0,
              awardedXp := \<lfloor>real_of_int ?fbs * getSolveWeight (attempts a)\<rfloor>,
              finalizeDelta := 0\<rparr>)"
    by simp
  \<comment> \<open>the user\<close>
  have U1: "?U1 = map (byUser ?rows (rowDelta ?fbs)) (users s)"
    by (rule fold_adjust_distinct [OF du dr])
  have same: "byUser ?rows (rowDelta ?fbs) u = u" if "u_id u = userId a" for u
  proof -
    have "find (\<lambda>r. userId r = userId a) ?rows = Some a"
      by (rule find_by_key [OF dr assms(4)])
    with that assms(5) show ?thesis
      by (simp add: byUser_def rowDelta_def clampAdd_def)
  qed
  have key: "u_id (byUser ?rows (rowDelta ?fbs) u) = u_id u" for u
    by (simp add: byUser_def split: option.splits)
  have "find (\<lambda>u. u_id u = userId a) (map (byUser ?rows (rowDelta ?fbs)) (users s)) =
        find (\<lambda>u. u_id u = userId a) (users s)"
    by (rule find_map_fix) (simp_all add: key same)
  then have usr: "findUserById (userId a) ?s1 = findUserById (userId a) s"
    by (simp add: findUserById_def U1)
  \<comment> \<open>the counters\<close>
  have "filter (\<lambda>x. rowDelta ?fbs x \<noteq> 0) ?rows =
        filter (\<lambda>x. baselineAward x \<noteq> 0 \<and> finalAward ?fbs x \<noteq> baselineAward x) ?rows"
    by (rule filter_cong [OF refl]) (auto simp: rowDelta_def)
  with r3 have adj: "fr_adjustedUsers r =
      length (filter (\<lambda>x. baselineAward x \<noteq> 0 \<and> finalAward ?fbs x \<noteq> baselineAward x) ?rows)"
    by simp
  from fin row usr r2 adj show ?thesis
    unfolding r1 [symmetric] by blast
qed

theorem finalize_initializes_unpriced_rows_witness:
  "reachable demoZero \<and> findProblemByNumber ''8'' demoZero = Some demoZeroProblem \<and>
   \<not> isFinalized demoZeroProblem \<and>
   demoZeroAttempt \<in> set (findSolvedAttempts (p_id demoZeroProblem) demoZero) \<and>
   baselineAward demoZeroAttempt = 0 \<and>
   (\<exists>r s'.
      finalizeProblemScoring 1 ''8'' demoZero = (Inr r, s') \<and>
      fr_finalBaseScore r = 25 \<and>
      find (\<lambda>x. a_id x = 2) (userAttempts s') =
        Some (demoZeroAttempt\<lparr>preFinalizeAwardedXp := Some 0, awardedXp := 25,
                finalizeDelta := 0\<rparr>) \<and>
      findUserById 1 s' = Some \<lparr>u_id = 1, discordId = ''A'', xp = 0\<rparr> \<and>
      fr_initializedUsers r = 1 \<and> fr_adjustedUsers r = 0)"
proof -
  have h1: "findProblemByNumber ''8'' demoZero = Some demoZeroProblem"
    by (simp add: findProblemByNumber_def demoZero_def demoZeroProblem_def)
  have h2: "\<not> isFinalized demoZeroProblem"
    by (simp add: demoZeroProblem_def)
  have rows: "findSolvedAttempts (p_id demoZeroProblem) demoZero = [demoZeroAttempt]"
    by (simp add: findSolvedAttempts_def demoZero_def demoZeroProblem_def demoZeroAttempt_def)
  have h3: "demoZeroAttempt \<in> set (findSolvedAttempts (p_id demoZeroProblem) demoZero)"
    by (simp add: rows)
  have h4: "baselineAward demoZeroAttempt = 0"
    by (simp add: baselineAward_def demoZeroAttempt_def)
  from finalize_initializes_unpriced_rows [OF demoZero_reachable h1 h2 h3 h4, of 1]
  obtain r s' where
    e: "finalizeProblemScoring 1 ''8'' demoZero = (Inr r, s')"
    and "find (\<lambda>x. a_id x = a_id demoZeroAttempt) (userAttempts s') =
           Some (demoZeroAttempt\<lparr>preFinalizeAwardedXp := Some 0,
                   awardedXp := \<lfloor>real_of_int (fr_finalBaseScore r) *
                                  getSolveWeight (attempts demoZeroAttempt)\<rfloor>,
                   finalizeDelta := 0\<rparr>)"
    and "findUserById (userId demoZeroAttempt) s' = findUserById (userId demoZeroAttempt) demoZero"
    and "fr_initializedUsers r =
           length (filter (\<lambda>x. baselineAward x = 0)
                     (findSolvedAttempts (p_id demoZeroProblem) demoZero))"
    and "fr_adjustedUsers r =
           length (filter (\<lambda>x. baselineAward x \<noteq> 0 \<and>
                                finalAward (fr_finalBaseScore r) x \<noteq> baselineAward x)
                     (findSolvedAttempts (p_id demoZeroProblem) demoZero))"
    by blast
  note facts = this
  have fb: "fr_finalBaseScore r = 25"
    using e by (simp add: finalize_eval_defs demoZero_def demoZeroProblem_def
        demoZeroAttempt_def dyn_ge_1) auto
  have sel: "a_id demoZeroAttempt = 2" "userId demoZeroAttempt = 1"
    "attempts demoZeroAttempt = 1"
    by (simp_all add: demoZeroAttempt_def)
  have w: "getSolveWeight 1 = 1"
    by (simp add: getSolveWeight_def getWrongAttempts_def MAX_WRONG_ATTEMPTS_def)
  have u: "findUserById 1 demoZero = Some \<lparr>u_id = 1, discordId = ''A'', xp = 0\<rparr>"
    by (simp add: findUserById_def demoZero_def)
  from facts have
    "finalizeProblemScoring 1 ''8'' demoZero = (Inr r, s') \<and>
      fr_finalBaseScore r = 25 \<and>
      find (\<lambda>x. a_id x = 2) (userAttempts s') =
        Some (demoZeroAttempt\<lparr>preFinalizeAwardedXp := Some 0, awardedXp := 25,
                finalizeDelta := 0\<rparr>) \<and>
      findUserById 1 s' = Some \<lparr>u_id = 1, discordId = ''A'', xp = 0\<rparr> \<and>
      fr_initializedUsers r = 1 \<and> fr_adjustedUsers r = 0"
    by (simp add: fb sel w u [unfolded One_nat_def] rows h4)
  with demoZero_reachable h1 h2 h3 h4 show ?thesis
    by blast
qed

section \<open>What recording an attempt leaves behind\<close>

lemma getOrCreateUser_post:
  assumes "getOrCreateUser d s = (u, s1)"
  shows "findUserByDiscordId d s1 = Some u \<and> problems s1 = problems s \<and>
         userAttempts s1 = userAttempts s \<and>
         (findUserByDiscordId d s = Some u \<and> s1 = s \<or>
          findUserByDiscordId d s = None \<and> u_id u = nextId s \<and> xp u = 0)"
proof (cases "findUserByDiscordId d s")
  case (Some v)
  with assms show ?thesis by (simp add: getOrCreateUser_def)
next
  case None
  with assms show ?thesis
    by (auto simp: getOrCreateUser_def Let_def findUserByDiscordId_def find_append_eq)
qed

lemma getOrCreateUserAttempt_post:
  assumes "getOrCreateUserAttempt uid pid s = (a, s1)"
  shows "findUserAttempt uid pid s1 = Some a \<and> problems s1 = problems s \<and>
         users s1 = users s \<and>
         (findUserAttempt uid pid s = Some a \<and> s1 = s \<or>
          findUserAttempt uid pid s = None \<and> \<not> solved a \<and> attempts a = 0)"
proof (cases "findUserAttempt uid pid s")
  case (Some v)
  with assms show ?thesis by (simp add: getOrCreateUserAttempt_def)
next
  case None
  with assms show ?thesis
    by (auto simp: getOrCreateUserAttempt_def Let_def findUserAttempt_def find_append_eq)
qed

lemma findUserAttempt_updateUserAttempt:
  assumes "findUserAttempt uid pid s = Some a"
    and "\<And>x. userId (f x) = userId x" and "\<And>x. problemId (f x) = problemId x"
  shows "findUserAttempt uid pid (updateUserAttempt (a_id a) f s) = Some (f a)"
  using find_map_upd [where P = "\<lambda>a. userId a = uid \<and> problemId a = pid" and f = f
      and g = "\<lambda>x. a_id x = a_id a", OF assms(1) [unfolded findUserAttempt_def]] assms(2,3)
  by (simp add: findUserAttempt_def updateUserAttempt_def)

lemma findUserAttempt_tbl:
  "userAttempts s' = userAttempts s \<Longrightarrow> findUserAttempt uid pid s' = findUserAttempt uid pid s"
  by (simp add: findUserAttempt_def)

lemma findUserByDiscordId_tbl:
  "users s' = users s \<Longrightarrow> findUserByDiscordId d s' = findUserByDiscordId d s"
  by (simp add: findUserByDiscordId_def)

lemma addXP_existing:
  assumes "findUserByDiscordId d s = Some u"
  shows "addXP d amount s =
           (Inr (max 0 (xp u + amount)), setUserXpByDiscordId d (max 0 (xp u + amount)) s)"
    and "findUserByDiscordId d (setUserXpByDiscordId d v s) = Some (u\<lparr>xp := v\<rparr>)"
proof -
  show "addXP d amount s =
           (Inr (max 0 (xp u + amount)), setUserXpByDiscordId d (max 0 (xp u + amount)) s)"
    using assms by (simp add: addXP_def getOrCreateUser_def Let_def)
  from assms have "discordId u = d"
    by (auto simp: findUserByDiscordId_def find_Some_iff)
  with find_map_upd [where P = "\<lambda>u. discordId u = d" and f = "\<lambda>u. u\<lparr>xp := v\<rparr>"
      and g = "\<lambda>u. discordId u = d", OF assms [unfolded findUserByDiscordId_def]]
  show "findUserByDiscordId d (setUserXpByDiscordId d v s) = Some (u\<lparr>xp := v\<rparr>)"
    by (simp add: findUserByDiscordId_def setUserXpByDiscordId_def)
qed

lemma setUserXpByDiscordId_sel [simp]:
  "problems (setUserXpByDiscordId d v s) = problems s"
  "userAttempts (setUserXpByDiscordId d v s) = userAttempts s"
  "nextId (setUserXpByDiscordId d v s) = nextId s"
  by (simp_all add: setUserXpByDiscordId_def)

lemma scoreAttempt_post:
  assumes f: "findProblemByNumber n s = Some p"
    and g1: "getOrCreateUser d s = (u, s1)"
    and g2: "getOrCreateUserAttempt (u_id u) (p_id p) s1 = (a, s2)"
    and sc: "scoreAttempt d c p s = (r, s')"
  shows "\<exists>p' u' a'.
      findProblemByNumber n s' = Some p' \<and> p_id p' = p_id p \<and>
      isFinalized p' = isFinalized p \<and> originalBaseScore p' = originalBaseScore p \<and>
      solves p' = ar_totalProblemSolves r \<and> baseScore p' = ar_currentBaseScore r \<and>
      findUserByDiscordId d s' = Some u' \<and> u_id u' = u_id u \<and>
      findUserAttempt (u_id u) (p_id p) s' = Some a' \<and>
      solved a' = (solved a \<or> c) \<and> attempts a' = ar_attemptNumber r \<and>
      ar_attemptNumber r = attempts a + 1 \<and>
      ar_originalBaseScore r = originalBaseScore p \<and>
      ar_totalProblemSolves r = solves p + (if c \<and> \<not> solved a then 1 else 0) \<and>
      (if c \<and> \<not> solved a
       then ar_awardedXP r =
              \<lfloor>real_of_int (if originalBaseScore p > 0 then originalBaseScore p
                              else baseScore p) * getSolveWeight (attempts a + 1)\<rfloor> \<and>
            xp u' = max 0 (xp u + ar_awardedXP r) \<and> ar_userXP r = xp u' \<and>
            awardedXp a' = ar_awardedXP r
       else ar_awardedXP r = 0 \<and> users s' = users s1 \<and> awardedXp a' = awardedXp a)"
proof -
  let ?newly = "c \<and> \<not> solved a"
  let ?f3 = "\<lambda>x. x\<lparr>attempts := attempts a + 1, solved := (solved a \<or> c)\<rparr>"
  let ?s3 = "updateUserAttempt (a_id a) ?f3 s2"
  let ?f4 = "\<lambda>q. q\<lparr>p_attempts := p_attempts p + 1,
                     solves := solves p + (if ?newly then 1 else 0)\<rparr>"
  let ?s4 = "updateProblem (p_id p) ?f4 ?s3"
  let ?ws = "sumSolveWeights (findSolvedAttempts (p_id p) ?s4)"
  let ?base = "getDynamicBaseFromWeightedSolves ?ws"
  let ?f5 = "\<lambda>q. q\<lparr>baseScore := ?base\<rparr>"
  let ?s5 = "updateProblem (p_id p) ?f5 ?s4"
  let ?award = "\<lfloor>real_of_int (if originalBaseScore p > 0 then originalBaseScore p
                                  else baseScore p) * getSolveWeight (attempts a + 1)\<rfloor>"
  let ?v = "max 0 (xp u + ?award)"
  let ?s6 = "setUserXpByDiscordId d ?v ?s5"
  let ?f7 = "\<lambda>x. x\<lparr>awardedXp := ?award\<rparr>"
  let ?s7 = "updateUserAttempt (a_id a) ?f7 ?s6"
  from getOrCreateUser_post [OF g1] have
    u1: "findUserByDiscordId d s1 = Some u" and pr1: "problems s1 = problems s"
    by simp_all
  from getOrCreateUserAttempt_post [OF g2] have
    a2: "findUserAttempt (u_id u) (p_id p) s2 = Some a" and pr2: "problems s2 = problems s1"
    and us2: "users s2 = users s1"
    by simp_all
  \<comment> \<open>the problem row\<close>
  have p2: "findProblemByNumber n s2 = Some p"
    using f pr1 pr2 by (simp add: findProblemByNumber_def)
  have p3: "findProblemByNumber n ?s3 = Some p"
    using p2 by (simp add: findProblemByNumber_def)
  have p4: "findProblemByNumber n ?s4 = Some (?f4 p)"
    by (rule findProblem_updateProblem [OF p3]) simp
  have "findProblemByNumber n ?s5 = Some (?f5 (?f4 p))"
    using findProblem_updateProblem [OF p4, of ?f5] by simp
  then have p5: "findProblemByNumber n ?s5 = Some (?f5 (?f4 p))"
    and p7: "findProblemByNumber n ?s7 = Some (?f5 (?f4 p))"
    by (simp_all add: findProblemByNumber_def)
  \<comment> \<open>the user row\<close>
  have u5: "findUserByDiscordId d ?s5 = Some u"
    using u1 us2 by (simp add: findUserByDiscordId_def)
  have add: "addXP d ?award ?s5 = (Inr ?v, ?s6)"
    by (rule addXP_existing(1) [OF u5])
  have u7: "findUserByDiscordId d ?s7 = Some (u\<lparr>xp := ?v\<rparr>)"
    using addXP_existing(2) [OF u5, of ?v] by (simp add: findUserByDiscordId_def)
  \<comment> \<open>the attempt row\<close>
  have a3: "findUserAttempt (u_id u) (p_id p) ?s3 = Some (?f3 a)"
    by (rule findUserAttempt_updateUserAttempt [OF a2]) simp_all
  then have a5: "findUserAttempt (u_id u) (p_id p) ?s5 = Some (?f3 a)"
    and a6: "findUserAttempt (u_id u) (p_id p) ?s6 = Some (?f3 a)"
    by (simp_all add: findUserAttempt_def)
  have "findUserAttempt (u_id u) (p_id p) (updateUserAttempt (a_id (?f3 a)) ?f7 ?s6) =
          Some (?f7 (?f3 a))"
    by (rule findUserAttempt_updateUserAttempt [OF a6]) simp_all
  then have a7: "findUserAttempt (u_id u) (p_id p) ?s7 = Some (?f7 (?f3 a))"
    by simp
  \<comment> \<open>the result\<close>
  have eq0: "scoreAttempt d c p s =
      (if ?newly
       then (\<lparr>ar_awardedXP = ?award,
              ar_userXP = (case fst (addXP d ?award ?s5) of Inr v \<Rightarrow> v | Inl e \<Rightarrow> 0),
              ar_attemptNumber = attempts a + 1,
              ar_totalProblemAttempts = p_attempts p + 1,
              ar_totalProblemSolves = solves p + 1, ar_weightedSolves = ?ws,
              ar_originalBaseScore = originalBaseScore p, ar_currentBaseScore = ?base\<rparr>,
             updateUserAttempt (a_id a) ?f7 (snd (addXP d ?award ?s5)))
       else (\<lparr>ar_awardedXP = 0,
              ar_userXP = (case findUserById (u_id u) ?s5 of Some w \<Rightarrow> xp w | None \<Rightarrow> xp u),
              ar_attemptNumber = attempts a + 1,
              ar_totalProblemAttempts = p_attempts p + 1,
              ar_totalProblemSolves = solves p, ar_weightedSolves = ?ws,
              ar_originalBaseScore = originalBaseScore p, ar_currentBaseScore = ?base\<rparr>, ?s5))"
    by (simp add: scoreAttempt_def g1 g2 Let_def case_prod_unfold cong: option.case_cong)
  have eq: "scoreAttempt d c p s =
      (if ?newly
       then (\<lparr>ar_awardedXP = ?award, ar_userXP = ?v, ar_attemptNumber = attempts a + 1,
              ar_totalProblemAttempts = p_attempts p + 1,
              ar_totalProblemSolves = solves p + 1, ar_weightedSolves = ?ws,
              ar_originalBaseScore = originalBaseScore p, ar_currentBaseScore = ?base\<rparr>, ?s7)
       else (\<lparr>ar_awardedXP = 0,
              ar_userXP = (case findUserById (u_id u) ?s5 of Some w \<Rightarrow> xp w | None \<Rightarrow> xp u),
              ar_attemptNumber = attempts a + 1,
              ar_totalProblemAttempts = p_attempts p + 1,
              ar_totalProblemSolves = solves p, ar_weightedSolves = ?ws,
              ar_originalBaseScore = originalBaseScore p, ar_currentBaseScore = ?base\<rparr>, ?s5))"
    unfolding eq0 add by (simp only: fst_conv snd_conv sum.case)
  let ?r7 = "\<lparr>ar_awardedXP = ?award, ar_userXP = ?v, ar_attemptNumber = attempts a + 1,
              ar_totalProblemAttempts = p_attempts p + 1,
              ar_totalProblemSolves = solves p + 1, ar_weightedSolves = ?ws,
              ar_originalBaseScore = originalBaseScore p, ar_currentBaseScore = ?base\<rparr>"
  let ?r5 = "\<lparr>ar_awardedXP = 0,
              ar_userXP = (case findUserById (u_id u) ?s5 of Some w \<Rightarrow> xp w | None \<Rightarrow> xp u),
              ar_attemptNumber = attempts a + 1,
              ar_totalProblemAttempts = p_attempts p + 1,
              ar_totalProblemSolves = solves p, ar_weightedSolves = ?ws,
              ar_originalBaseScore = originalBaseScore p, ar_currentBaseScore = ?base\<rparr>"
  show ?thesis
  proof (cases ?newly)
    case True
    have "scoreAttempt d c p s = (?r7, ?s7)"
      unfolding eq by (rule if_P [OF True])
    with sc have "(r, s') = (?r7, ?s7)"
      by (simp only:)
    then have "r = ?r7 \<and> s' = ?s7"
      by (rule iffD1 [OF prod.inject])
    then have r: "r = ?r7" and s': "s' = ?s7"
      by (rule conjunct1, rule conjunct2)
    from True p7 u7 a7 show ?thesis
      unfolding s' r by (intro exI [of _ "?f5 (?f4 p)"] exI [of _ "u\<lparr>xp := ?v\<rparr>"]
          exI [of _ "?f7 (?f3 a)"]) simp
  next
    case False
    have "scoreAttempt d c p s = (?r5, ?s5)"
      unfolding eq by (rule if_not_P [OF False])
    with sc have "(r, s') = (?r5, ?s5)"
      by (simp only:)
    then have "r = ?r5 \<and> s' = ?s5"
      by (rule iffD1 [OF prod.inject])
    then have r: "r = ?r5" and s': "s' = ?s5"
      by (rule conjunct1, rule conjunct2)
    from False p5 u5 a5 us2 show ?thesis
      unfolding s' r by (intro exI [of _ "?f5 (?f4 p)"] exI [of _ u] exI [of _ "?f3 a"]) simp
  qed
qed

lemma recordAttempt_ok:
  assumes "recordAttempt sheet d n c s = (Inr r, s')"
  shows "\<exists>p0 sa p sb.
           loadOrCreateProblem sheet n s = (Inr p0, sa) \<and> \<not> isFinalized p0 \<and>
           backfillOriginalBaseScore sheet n p0 sa = (Inr p, sb) \<and>
           scoreAttempt d c p sb = (r, s')"
  using assms
  by (auto simp: recordAttempt_def split: prod.splits sum.splits if_splits)

lemma recordAttempt_from_parts:
  assumes "loadOrCreateProblem sheet n s = (Inr p0, sa)" and "\<not> isFinalized p0"
    and "backfillOriginalBaseScore sheet n p0 sa = (Inr p, sb)"
    and "scoreAttempt d c p sb = (r, s')"
  shows "recordAttempt sheet d n c s = (Inr r, s')"
  using assms by (simp add: recordAttempt_def)

lemma loadOrCreateProblem_find:
  assumes "loadOrCreateProblem sheet n s = (Inr p, s1)"
  shows "findProblemByNumber n s1 = Some p \<and> users s1 = users s \<and>
         userAttempts s1 = userAttempts s \<and> nextId s \<le> nextId s1 \<and>
         (findProblemByNumber n s = Some p \<and> s1 = s \<or>
          findProblemByNumber n s = None \<and> sheet n = Inr (originalBaseScore p) \<and>
          baseScore p = originalBaseScore p \<and> p_id p = nextId s)"
proof (cases "findProblemByNumber n s")
  case (Some q)
  with assms show ?thesis by (simp add: loadOrCreateProblem_def)
next
  case None
  with assms show ?thesis
    by (auto simp: loadOrCreateProblem_def Let_def findProblemByNumber_def find_append_eq
        split: sum.splits)
qed

lemma backfill_find:
  assumes "findProblemByNumber n s = Some p"
    and "backfillOriginalBaseScore sheet n p s = (Inr p', s1)"
  shows "findProblemByNumber n s1 = Some p' \<and> p_id p' = p_id p \<and>
         isFinalized p' = isFinalized p \<and> baseScore p' = baseScore p \<and>
         solves p' = solves p \<and> users s1 = users s \<and> userAttempts s1 = userAttempts s \<and>
         nextId s1 = nextId s \<and>
         (if originalBaseScore p \<le> 0 then sheet n = Inr (originalBaseScore p')
          else originalBaseScore p' = originalBaseScore p)"
proof (cases "originalBaseScore p \<le> 0")
  case False
  with assms show ?thesis by (simp add: backfillOriginalBaseScore_def)
next
  case True
  with assms(2) obtain v where v: "sheet n = Inr v"
    and p': "p' = p\<lparr>originalBaseScore := v\<rparr>"
    and s1: "s1 = updateProblem (p_id p) (\<lambda>q. q\<lparr>originalBaseScore := v\<rparr>) s"
    by (auto simp: backfillOriginalBaseScore_def split: sum.splits)
  have "findProblemByNumber n s1 = Some p'"
    unfolding s1 p' by (rule findProblem_updateProblem [OF assms(1)]) simp
  with True v show ?thesis
    by (simp add: p' s1)
qed

lemma backfill_again:
  assumes "originalBaseScore p \<le> 0 \<longrightarrow> sheet n = Inr (originalBaseScore p)"
  shows "\<exists>p' s1. backfillOriginalBaseScore sheet n p s = (Inr p', s1)"
  using assms by (simp add: backfillOriginalBaseScore_def)

lemma getOrCreateUser_found:
  "findUserByDiscordId d s = Some u \<Longrightarrow> getOrCreateUser d s = (u, s)"
  by (simp add: getOrCreateUser_def)

lemma getOrCreateUserAttempt_found:
  "findUserAttempt uid pid s = Some a \<Longrightarrow> getOrCreateUserAttempt uid pid s = (a, s)"
  by (simp add: getOrCreateUserAttempt_def)

text \<open>
  C5: after a call of \<^verbatim>\<open>recordAttempt\<close> with \<^verbatim>\<open>isCorrect = true\<close> has returned, a second such
  call for the same user and problem (the sheet answering as before) returns as well,
  with \<^verbatim>\<open>awardedXP\<close> 0 and the \<^verbatim>\<open>totalProblemSolves\<close> of the first call, and leaves the
  users table, hence every balance, as the first call left it. This holds for every
  store the first call may start from.
\<close>

theorem second_correct_attempt_awards_nothing:
  assumes "recordAttempt sheet d n True s = (Inr r1, s1)"
  shows "\<exists>r2 s2. recordAttempt sheet d n True s1 = (Inr r2, s2) \<and>
           ar_awardedXP r2 = 0 \<and>
           ar_totalProblemSolves r2 = ar_totalProblemSolves r1 \<and>
           users s2 = users s1"
proof -
  from recordAttempt_ok [OF assms] obtain p0 sa p sb where
    l: "loadOrCreateProblem sheet n s = (Inr p0, sa)" and nf: "\<not> isFinalized p0"
    and b: "backfillOriginalBaseScore sheet n p0 sa = (Inr p, sb)"
    and sc: "scoreAttempt d True p sb = (r1, s1)"
    by blast
  from loadOrCreateProblem_find [OF l] have fa: "findProblemByNumber n sa = Some p0"
    by simp
  from backfill_find [OF fa b] have fb: "findProblemByNumber n sb = Some p"
    and fin: "isFinalized p = isFinalized p0"
    and sh: "originalBaseScore p \<le> 0 \<longrightarrow> sheet n = Inr (originalBaseScore p)"
    by (auto split: if_splits)
  obtain u t1 where g1: "getOrCreateUser d sb = (u, t1)"
    by (cases "getOrCreateUser d sb")
  obtain a t2 where g2: "getOrCreateUserAttempt (u_id u) (p_id p) t1 = (a, t2)"
    by (cases "getOrCreateUserAttempt (u_id u) (p_id p) t1")
  from scoreAttempt_post [OF fb g1 g2 sc] obtain p' u' a' where
    fp': "findProblemByNumber n s1 = Some p'" and id': "p_id p' = p_id p"
    and fin': "isFinalized p' = isFinalized p"
    and orig': "originalBaseScore p' = originalBaseScore p"
    and solves': "solves p' = ar_totalProblemSolves r1"
    and fu': "findUserByDiscordId d s1 = Some u'" and uid': "u_id u' = u_id u"
    and fa': "findUserAttempt (u_id u) (p_id p) s1 = Some a'" and solved': "solved a'"
    by auto
  \<comment> \<open>the second call\<close>
  have l2: "loadOrCreateProblem sheet n s1 = (Inr p', s1)"
    using fp' by (simp add: loadOrCreateProblem_def)
  have nf2: "\<not> isFinalized p'"
    using fin' fin nf by simp
  from sh orig' have "originalBaseScore p' \<le> 0 \<longrightarrow> sheet n = Inr (originalBaseScore p')"
    by simp
  from backfill_again [of p' sheet n s1, OF this] obtain p2 sb2 where
    b2: "backfillOriginalBaseScore sheet n p' s1 = (Inr p2, sb2)"
    by blast
  from backfill_find [OF fp' b2] have fb2: "findProblemByNumber n sb2 = Some p2"
    and id2: "p_id p2 = p_id p'" and solves2: "solves p2 = solves p'"
    and us2: "users sb2 = users s1" and at2: "userAttempts sb2 = userAttempts s1"
    by simp_all
  have fu2: "findUserByDiscordId d sb2 = Some u'"
    using fu' findUserByDiscordId_tbl [OF us2] by simp
  have fa2: "findUserAttempt (u_id u') (p_id p2) sb2 = Some a'"
    using fa' findUserAttempt_tbl [OF at2] by (simp add: uid' id2 id')
  obtain r2 s2 where sc2: "scoreAttempt d True p2 sb2 = (r2, s2)"
    by (cases "scoreAttempt d True p2 sb2")
  from scoreAttempt_post [OF fb2 getOrCreateUser_found [OF fu2]
      getOrCreateUserAttempt_found [OF fa2] sc2] solved'
  have "ar_awardedXP r2 = 0" and "users s2 = users sb2"
    and "ar_totalProblemSolves r2 = solves p2"
    by auto
  with us2 solves2 solves' recordAttempt_from_parts [OF l2 nf2 b2 sc2] show ?thesis
    by auto
qed

theorem second_correct_attempt_awards_nothing_witness:
  "recordAttempt demoSheet ''B'' ''7'' True demoAfterBWrong = (Inr demoResultB, demoOpen) \<and>
   ar_awardedXP demoResultB = 80 \<and>
   (\<exists>r2 s2. recordAttempt demoSheet ''B'' ''7'' True demoOpen = (Inr r2, s2) \<and>
      ar_awardedXP r2 = 0 \<and> ar_totalProblemSolves r2 = 2 \<and> users s2 = demoUsers)"
proof -
  from second_correct_attempt_awards_nothing [OF step_B_result] obtain r2 s2 where
    "recordAttempt demoSheet ''B'' ''7'' True demoOpen = (Inr r2, s2)"
    "ar_awardedXP r2 = 0" "ar_totalProblemSolves r2 = ar_totalProblemSolves demoResultB"
    "users s2 = users demoOpen"
    by blast
  then have "recordAttempt demoSheet ''B'' ''7'' True demoOpen = (Inr r2, s2) \<and>
      ar_awardedXP r2 = 0 \<and> ar_totalProblemSolves r2 = 2 \<and> users s2 = demoUsers"
    by (simp add: demoResultB_def demoOpen_def)
  with step_B_result show ?thesis
    by (auto simp: demoResultB_def)
qed

lemma demoStale_solve:
  "recordAttempt demoZeroSheet ''A'' ''8'' True demoStale =
     (Inr \<lparr>ar_awardedXP = 34, ar_userXP = 34, ar_attemptNumber = 1,
           ar_totalProblemAttempts = 2, ar_totalProblemSolves = 1, ar_weightedSolves = 1,
           ar_originalBaseScore = 0, ar_currentBaseScore = 25\<rparr>, demoStaleSolved)"
  by (simp add: eval_defs demoZeroSheet_def demoStale_def demoStaleSolved_def dyn_ge_1)

lemma demoNeg_step:
  "recordAttempt demoNegSheet ''A'' ''9'' True emptyDb =
     (Inr \<lparr>ar_awardedXP = - 5, ar_userXP = 0, ar_attemptNumber = 1,
           ar_totalProblemAttempts = 1, ar_totalProblemSolves = 1, ar_weightedSolves = 1,
           ar_originalBaseScore = - 5, ar_currentBaseScore = 25\<rparr>, demoNeg)"
  by (simp add: eval_defs emptyDb_def demoNegSheet_def demoNeg_def dyn_ge_1)

text \<open>
  C6, as stated, fails in the fallback and in the ledger. In \<open>demoStale\<close> the problem has
  \<^verbatim>\<open>originalBaseScore\<close> 0 (and the sheet still says 0) and the stored \<^verbatim>\<open>baseScore\<close> 34. User A's
  first-time solve recomputes the \<^verbatim>\<open>baseScore\<close> to 25 but is awarded 34: the award starts
  from the \<^verbatim>\<open>baseScore\<close> the problem row held when the call loaded it, not from the one
  recomputed for this attempt. And with a sheet that prices problem 9 at -5, user A's
  first-time solve on the empty store is awarded -5 while the balance stays 0: the
  award is not added, the balance is clamped at zero.
\<close>

theorem award_uses_stored_base_counterexample:
  "reachable demoStale \<and> \<not> alreadySolved ''A'' ''8'' demoStale \<and>
   recordAttempt demoZeroSheet ''A'' ''8'' True demoStale =
     (Inr \<lparr>ar_awardedXP = 34, ar_userXP = 34, ar_attemptNumber = 1,
           ar_totalProblemAttempts = 2, ar_totalProblemSolves = 1, ar_weightedSolves = 1,
           ar_originalBaseScore = 0, ar_currentBaseScore = 25\<rparr>, demoStaleSolved) \<and>
   \<lfloor>real_of_int 25 * getSolveWeight 1\<rfloor> = 25 \<and>
   (34::int) \<noteq> \<lfloor>real_of_int 25 * getSolveWeight 1\<rfloor> \<and>
   reachable emptyDb \<and> \<not> alreadySolved ''A'' ''9'' emptyDb \<and>
   findUserByDiscordId ''A'' emptyDb = None \<and>
   recordAttempt demoNegSheet ''A'' ''9'' True emptyDb =
     (Inr \<lparr>ar_awardedXP = - 5, ar_userXP = 0, ar_attemptNumber = 1,
           ar_totalProblemAttempts = 1, ar_totalProblemSolves = 1, ar_weightedSolves = 1,
           ar_originalBaseScore = - 5, ar_currentBaseScore = 25\<rparr>, demoNeg) \<and>
   findUserByDiscordId ''A'' demoNeg = Some \<lparr>u_id = 1, discordId = ''A'', xp = 0\<rparr> \<and>
   (0::int) \<noteq> 0 + (- 5)"
  using demoStale_reachable demoStale_solve reachable_empty demoNeg_step
  by (simp add: alreadySolved_def findUserByDiscordId_def demoStale_def getSolveWeight_def
      getWrongAttempts_def MAX_WRONG_ATTEMPTS_def emptyDb_def demoNeg_def)

text \<open>
  C6, amended: on a first-time solve (a correct attempt of a user with no solved row for
  the problem) in a reachable store, \<^verbatim>\<open>recordAttempt\<close> awards
  \<open>\<lfloor>baseForAward * solveWeight(attemptNumber)\<rfloor>\<close>. The attempt number is one more than the
  attempts the user's row counted before (0 without a row). \<open>baseForAward\<close> is the
  \<^verbatim>\<open>originalBaseScore\<close> of the problem row when that is positive and otherwise the
  \<^verbatim>\<open>baseScore\<close> the row held before this call (for a problem created by the call, the
  sheet's value); the \<^verbatim>\<open>originalBaseScore\<close> is the one the row had before the call when that
  was positive, and the sheet's value when it was not or the call created the problem.
  The user's balance becomes \<open>max 0 (xp + award)\<close>, which is \<open>xp + award\<close> for an award
  that is not negative; the award is stored as \<^verbatim>\<open>awardedXp\<close> on the now solved row and
  returned together with the new balance, the row's \<^verbatim>\<open>originalBaseScore\<close> and its
  recomputed \<^verbatim>\<open>baseScore\<close>.
\<close>

theorem first_solve_award:
  assumes "reachable s" and "recordAttempt sheet d n True s = (Inr r, s')"
    and "\<not> alreadySolved d n s"
  shows "ar_awardedXP r =
           \<lfloor>real_of_int
              (if 0 < ar_originalBaseScore r then ar_originalBaseScore r
               else (case findProblemByNumber n s of
                       Some q \<Rightarrow> baseScore q
                     | None \<Rightarrow> ar_originalBaseScore r)) *
            getSolveWeight (ar_attemptNumber r)\<rfloor> \<and>
         ar_attemptNumber r = attemptsBefore d n s + 1 \<and>
         (case findProblemByNumber n s of
            Some q \<Rightarrow>
              if 0 < originalBaseScore q then ar_originalBaseScore r = originalBaseScore q
              else sheet n = Inr (ar_originalBaseScore r)
          | None \<Rightarrow> sheet n = Inr (ar_originalBaseScore r)) \<and>
         (\<exists>u' p' a'.
            findUserByDiscordId d s' = Some u' \<and>
            xp u' = max 0 ((case findUserByDiscordId d s of Some w \<Rightarrow> xp w | None \<Rightarrow> 0) +
                           ar_awardedXP r) \<and>
            (0 \<le> ar_awardedXP r \<longrightarrow>
               xp u' = (case findUserByDiscordId d s of Some w \<Rightarrow> xp w | None \<Rightarrow> 0) +
                       ar_awardedXP r) \<and>
            ar_userXP r = xp u' \<and>
            findProblemByNumber n s' = Some p' \<and>
            originalBaseScore p' = ar_originalBaseScore r \<and>
            baseScore p' = ar_currentBaseScore r \<and>
            (case findProblemByNumber n s of Some q \<Rightarrow> p_id p' = p_id q | None \<Rightarrow> p_id p' = nextId s) \<and>
            (case findUserByDiscordId d s of Some w \<Rightarrow> u_id u' = u_id w | None \<Rightarrow> True) \<and>
            findUserAttempt (u_id u') (p_id p') s' = Some a' \<and>
            solved a' \<and> attempts a' = ar_attemptNumber r \<and>
            awardedXp a' = ar_awardedXP r)"
proof -
  from reachable_wf [OF assms(1)] have w: "wellFormed s" .
  from recordAttempt_ok [OF assms(2)] obtain p0 sa p sb where
    l: "loadOrCreateProblem sheet n s = (Inr p0, sa)" and nf: "\<not> isFinalized p0"
    and b: "backfillOriginalBaseScore sheet n p0 sa = (Inr p, sb)"
    and sc: "scoreAttempt d True p sb = (r, s')"
    by blast
  from loadOrCreateProblem_find [OF l] have fa: "findProblemByNumber n sa = Some p0"
    and usa: "users sa = users s" and ata: "userAttempts sa = userAttempts s"
    and nxa: "nextId s \<le> nextId sa"
    and pcase: "findProblemByNumber n s = Some p0 \<or>
      findProblemByNumber n s = None \<and> sheet n = Inr (originalBaseScore p0) \<and>
      baseScore p0 = originalBaseScore p0 \<and> p_id p0 = nextId s"
    by auto
  from backfill_find [OF fa b] have fb: "findProblemByNumber n sb = Some p"
    and idp: "p_id p = p_id p0" and bs: "baseScore p = baseScore p0"
    and usb: "users sb = users sa" and atb: "userAttempts sb = userAttempts sa"
    and nxb: "nextId sb = nextId sa"
    and ocase: "if originalBaseScore p0 \<le> 0 then sheet n = Inr (originalBaseScore p)
                else originalBaseScore p = originalBaseScore p0"
    by simp_all
  obtain u t1 where g1: "getOrCreateUser d sb = (u, t1)"
    by (cases "getOrCreateUser d sb")
  obtain a t2 where g2: "getOrCreateUserAttempt (u_id u) (p_id p) t1 = (a, t2)"
    by (cases "getOrCreateUserAttempt (u_id u) (p_id p) t1")
  from getOrCreateUser_post [OF g1] have at1: "userAttempts t1 = userAttempts sb"
    and ucase: "findUserByDiscordId d sb = Some u \<or>
                findUserByDiscordId d sb = None \<and> u_id u = nextId sb \<and> xp u = 0"
    by auto
  have fus: "findUserByDiscordId d sb = findUserByDiscordId d s"
    using usa usb by (simp add: findUserByDiscordId_def)
  have fas: "findUserAttempt i j t1 = findUserAttempt i j s" for i j
    using at1 atb ata by (simp add: findUserAttempt_def)
  from getOrCreateUserAttempt_post [OF g2] have
    acase: "findUserAttempt (u_id u) (p_id p) s = Some a \<or>
            findUserAttempt (u_id u) (p_id p) s = None \<and> \<not> solved a \<and> attempts a = 0"
    unfolding fas by auto
  \<comment> \<open>the row the call works on is the row the store held for the pair, if any\<close>
  have prior: "solved a = alreadySolved d n s \<and> attempts a = attemptsBefore d n s"
  proof (cases "findUserAttempt (u_id u) (p_id p) s")
    case (Some a0)
    with acase have fs: "findUserAttempt (u_id u) (p_id p) s = Some a" by simp
    then have "a \<in> set (userAttempts s)" "userId a = u_id u" "problemId a = p_id p"
      by (auto simp: findUserAttempt_def find_Some_iff)
    with w have lt: "u_id u < nextId s" "p_id p < nextId s"
      by (auto simp: wellFormed_def idsFresh_def)
    from ucase lt(1) nxa nxb have fu: "findUserByDiscordId d s = Some u"
      unfolding fus by auto
    from pcase lt(2) idp have fp: "findProblemByNumber n s = Some p0"
      by auto
    from fu fp fs idp show ?thesis
      by (simp add: alreadySolved_def attemptsBefore_def)
  next
    case None
    with acase have a0: "\<not> solved a" "attempts a = 0" by simp_all
    have "\<not> alreadySolved d n s \<and> attemptsBefore d n s = 0"
    proof (cases "findUserByDiscordId d s")
      case None
      then show ?thesis by (simp add: alreadySolved_def attemptsBefore_def)
    next
      case (Some w)
      with ucase fus have uw: "u = w" by simp
      show ?thesis
      proof (cases "findProblemByNumber n s")
        case None
        with Some show ?thesis by (simp add: alreadySolved_def attemptsBefore_def)
      next
        case (Some q)
        with pcase have "p0 = q" by simp
        with Some \<open>findUserByDiscordId d s = Some w\<close> uw idp
          \<open>findUserAttempt (u_id u) (p_id p) s = None\<close>
        show ?thesis by (simp add: alreadySolved_def attemptsBefore_def)
      qed
    qed
    with a0 show ?thesis by simp
  qed
  with assms(3) have unsolved: "\<not> solved a" and att: "attempts a = attemptsBefore d n s"
    by simp_all
  \<comment> \<open>the balance and the base the award starts from\<close>
  have xpu: "xp u = (case findUserByDiscordId d s of Some w \<Rightarrow> xp w | None \<Rightarrow> 0)"
    using ucase unfolding fus by auto
  have uid: "(case findUserByDiscordId d s of Some w \<Rightarrow> u_id u = u_id w | None \<Rightarrow> True)"
    using ucase unfolding fus by auto
  have xp0: "0 \<le> xp u"
  proof -
    from wf_getOrCreateUser [OF w, of d] have "xpNonneg (snd (getOrCreateUser d s))"
      by (simp add: wellFormed_def)
    moreover have "getOrCreateUser d s = (u, snd (getOrCreateUser d s)) \<or> xp u = 0"
      using ucase usa usb
      by (auto simp: getOrCreateUser_def findUserByDiscordId_def)
    ultimately show ?thesis
      using getOrCreateUser_in_set [of d s u "snd (getOrCreateUser d s)"]
      by (auto simp: xpNonneg_def)
  qed
  have base: "(if 0 < originalBaseScore p then originalBaseScore p else baseScore p) =
      (if 0 < originalBaseScore p then originalBaseScore p
       else (case findProblemByNumber n s of
               Some q \<Rightarrow> baseScore q | None \<Rightarrow> originalBaseScore p))"
  proof (cases "findProblemByNumber n s")
    case (Some q)
    with pcase bs show ?thesis by simp
  next
    case None
    with pcase have c: "sheet n = Inr (originalBaseScore p0)"
      "baseScore p0 = originalBaseScore p0"
      by simp_all
    with ocase have "originalBaseScore p = originalBaseScore p0"
      by (simp split: if_splits)
    with None c bs show ?thesis by simp
  qed
  have orig: "(case findProblemByNumber n s of
            Some q \<Rightarrow>
              if 0 < originalBaseScore q then originalBaseScore p = originalBaseScore q
              else sheet n = Inr (originalBaseScore p)
          | None \<Rightarrow> sheet n = Inr (originalBaseScore p))"
  proof (cases "findProblemByNumber n s")
    case (Some q)
    with pcase have "p0 = q" by simp
    with Some ocase show ?thesis by (simp split: if_splits)
  next
    case None
    with pcase have "sheet n = Inr (originalBaseScore p0)" by simp
    with None ocase show ?thesis by (simp split: if_splits)
  qed
  have pid: "(case findProblemByNumber n s of Some q \<Rightarrow> p_id p = p_id q | None \<Rightarrow> p_id p = nextId s)"
    using pcase idp by (auto split: option.splits)
  from scoreAttempt_post [OF fb g1 g2 sc] unsolved obtain p' u' a' where
    post: "findProblemByNumber n s' = Some p'" "p_id p' = p_id p"
    "findUserByDiscordId d s' = Some u'" "u_id u' = u_id u"
    "findUserAttempt (u_id u) (p_id p) s' = Some a'"
    "solved a'" "attempts a' = ar_attemptNumber r" "ar_attemptNumber r = attempts a + 1"
    "ar_awardedXP r =
       \<lfloor>real_of_int (if originalBaseScore p > 0 then originalBaseScore p else baseScore p) *
        getSolveWeight (attempts a + 1)\<rfloor>"
    "xp u' = max 0 (xp u + ar_awardedXP r)" "ar_userXP r = xp u'"
    "awardedXp a' = ar_awardedXP r"
    "originalBaseScore p' = originalBaseScore p" "baseScore p' = ar_currentBaseScore r"
    and orr: "ar_originalBaseScore r = originalBaseScore p"
    by auto
  have award: "ar_awardedXP r =
           \<lfloor>real_of_int
              (if 0 < originalBaseScore p then originalBaseScore p
               else (case findProblemByNumber n s of
                       Some q \<Rightarrow> baseScore q
                     | None \<Rightarrow> originalBaseScore p)) *
            getSolveWeight (ar_attemptNumber r)\<rfloor>"
    using post(8,9) base by simp
  have num: "ar_attemptNumber r = attemptsBefore d n s + 1"
    using post(8) att by simp
  have ledger: "xp u' = max 0 ((case findUserByDiscordId d s of Some w \<Rightarrow> xp w | None \<Rightarrow> 0) +
                           ar_awardedXP r)"
    using post(10) xpu by simp
  have exact: "0 \<le> ar_awardedXP r \<longrightarrow>
               xp u' = (case findUserByDiscordId d s of Some w \<Rightarrow> xp w | None \<Rightarrow> 0) +
                       ar_awardedXP r"
    using post(10) xpu xp0 by simp
  have row: "findUserAttempt (u_id u') (p_id p') s' = Some a'"
    using post(5) post(2) post(4) by simp
  have pid': "(case findProblemByNumber n s of Some q \<Rightarrow> p_id p' = p_id q | None \<Rightarrow> p_id p' = nextId s)"
    using pid post(2) by (simp split: option.splits)
  have uid': "(case findUserByDiscordId d s of Some w \<Rightarrow> u_id u' = u_id w | None \<Rightarrow> True)"
    using uid post(4) by (simp split: option.splits)
  from award num orig ledger exact row pid' uid' post(1,3,6,7,11,12,13,14) show ?thesis
    unfolding orr by blast
qed

theorem first_solve_award_witness:
  "reachable demoAfterBWrong \<and>
   recordAttempt demoSheet ''B'' ''7'' True demoAfterBWrong = (Inr demoResultB, demoOpen) \<and>
   \<not> alreadySolved ''B'' ''7'' demoAfterBWrong \<and>
   attemptsBefore ''B'' ''7'' demoAfterBWrong = 1 \<and>
   ar_awardedXP demoResultB = \<lfloor>real_of_int 100 * getSolveWeight 2\<rfloor> \<and>
   ar_awardedXP demoResultB = 80 \<and>
   ar_attemptNumber demoResultB = 2 \<and>
   ar_originalBaseScore demoResultB = 100 \<and>
   (\<exists>u' p' a'.
      findUserByDiscordId ''B'' demoOpen = Some u' \<and> xp u' = 0 + 80 \<and>
      ar_userXP demoResultB = xp u' \<and>
      findProblemByNumber ''7'' demoOpen = Some p' \<and>
      originalBaseScore p' = 100 \<and> baseScore p' = 25 \<and> p_id p' = 0 \<and> u_id u' = 3 \<and>
      findUserAttempt (u_id u') (p_id p') demoOpen = Some a' \<and>
      solved a' \<and> attempts a' = 2 \<and> awardedXp a' = 80)"
proof -
  have h: "\<not> alreadySolved ''B'' ''7'' demoAfterBWrong"
    by (simp add: alreadySolved_def findUserByDiscordId_def findProblemByNumber_def
        findUserAttempt_def demoAfterBWrong_def)
  have ab: "attemptsBefore ''B'' ''7'' demoAfterBWrong = 1"
    by (simp add: attemptsBefore_def findUserByDiscordId_def findProblemByNumber_def
        findUserAttempt_def demoAfterBWrong_def)
  have b: "findUserByDiscordId ''B'' demoAfterBWrong = Some \<lparr>u_id = 3, discordId = ''B'', xp = 0\<rparr>"
    by (simp add: findUserByDiscordId_def demoAfterBWrong_def)
  have q: "findProblemByNumber ''7'' demoAfterBWrong =
      Some \<lparr>p_id = 0, number = ''7'', originalBaseScore = 100, baseScore = 25,
            p_attempts = 2, solves = 1, isFinalized = False, finalizedAt = None\<rparr>"
    by (simp add: findProblemByNumber_def demoAfterBWrong_def)
  have sel: "ar_awardedXP demoResultB = 80" "ar_originalBaseScore demoResultB = 100"
    "ar_attemptNumber demoResultB = 2" "ar_userXP demoResultB = 80"
    "ar_currentBaseScore demoResultB = 25"
    by (simp_all add: demoResultB_def)
  from first_solve_award [OF demoAfterBWrong_reachable step_B_result h]
  have "ar_awardedXP demoResultB = \<lfloor>real_of_int 100 * getSolveWeight 2\<rfloor> \<and>
     (\<exists>u' p' a'.
      findUserByDiscordId ''B'' demoOpen = Some u' \<and> xp u' = 0 + 80 \<and>
      ar_userXP demoResultB = xp u' \<and>
      findProblemByNumber ''7'' demoOpen = Some p' \<and>
      originalBaseScore p' = 100 \<and> baseScore p' = 25 \<and> p_id p' = 0 \<and> u_id u' = 3 \<and>
      findUserAttempt (u_id u') (p_id p') demoOpen = Some a' \<and>
      solved a' \<and> attempts a' = 2 \<and> awardedXp a' = 80)"
    by (simp add: b q sel ab)
  with demoAfterBWrong_reachable step_B_result h ab sel(1,2,3) show ?thesis
    by blast
qed

section \<open>The balances the ledger operations store\<close>

lemma findUserByDiscordId_written:
  "findUserByDiscordId d (setUserXpByDiscordId d v (snd (getOrCreateUser d s))) =
     Some ((fst (getOrCreateUser d s))\<lparr>xp := v\<rparr>)"
proof -
  obtain u s1 where g: "getOrCreateUser d s = (u, s1)"
    by (cases "getOrCreateUser d s")
  from getOrCreateUser_post [OF g] have "findUserByDiscordId d s1 = Some u"
    by simp
  from addXP_existing(2) [OF this, of v] g show ?thesis
    by simp
qed

lemma other_users_kept:
  "filter (\<lambda>u. discordId u \<noteq> d) (users (setUserXpByDiscordId d v (snd (getOrCreateUser d s)))) =
   filter (\<lambda>u. discordId u \<noteq> d) (users s)"
proof -
  have "filter (\<lambda>u. discordId u \<noteq> d) (map (\<lambda>u. if discordId u = d then u\<lparr>xp := v\<rparr> else u) us) =
        filter (\<lambda>u. discordId u \<noteq> d) us" for us :: "user list"
    by (induction us) simp_all
  then show ?thesis
    by (simp add: setUserXpByDiscordId_def getOrCreateUser_def Let_def split: option.splits)
qed

lemma other_tables_kept:
  "problems (setUserXpByDiscordId d v (snd (getOrCreateUser d s))) = problems s"
  "userAttempts (setUserXpByDiscordId d v (snd (getOrCreateUser d s))) = userAttempts s"
  by (simp_all add: getOrCreateUser_def Let_def split: option.splits)

lemma adjust_others_kept:
  "filter (\<lambda>u. u_id u \<noteq> uid) (users (snd (adjustUserXPByDbId uid delta s))) =
     filter (\<lambda>u. u_id u \<noteq> uid) (users s)"
  "problems (snd (adjustUserXPByDbId uid delta s)) = problems s"
  "userAttempts (snd (adjustUserXPByDbId uid delta s)) = userAttempts s"
proof -
  have "filter (\<lambda>u. u_id u \<noteq> uid) (map (\<lambda>u. if u_id u = uid then u\<lparr>xp := v\<rparr> else u) us) =
      filter (\<lambda>u. u_id u \<noteq> uid) us" for us :: "user list" and v
    by (induction us) simp_all
  then show "filter (\<lambda>u. u_id u \<noteq> uid) (users (snd (adjustUserXPByDbId uid delta s))) =
     filter (\<lambda>u. u_id u \<noteq> uid) (users s)"
    by (simp add: adjustUserXPByDbId_def setUserXpById_def split: option.splits)
  show "problems (snd (adjustUserXPByDbId uid delta s)) = problems s"
    by (simp add: adjustUserXPByDbId_def setUserXpById_def split: option.splits)
  show "userAttempts (snd (adjustUserXPByDbId uid delta s)) = userAttempts s"
    by (simp add: adjustUserXPByDbId_def setUserXpById_def split: option.splits)
qed

text \<open>
  C8: in every store that any sequence of operations can reach, no user's balance is
  negative. \<^verbatim>\<open>addXP\<close> and \<^verbatim>\<open>removeXP\<close> store for the user (found or created by the call), and
  return, \<open>max 0\<close> of the old balance (0 for a created user) plus or minus the amount;
  \<^verbatim>\<open>adjustUserXPByDbId\<close>, the adjustment finalize and unfinalize use, leaves an existing
  user with \<open>max 0 (xp + delta)\<close>; each of the three leaves every other user, the
  problems and the attempt rows as they were. The award of \<^verbatim>\<open>recordAttempt\<close> goes through
  \<^verbatim>\<open>addXP\<close>.
\<close>

theorem xp_never_negative:
  assumes "reachable s"
  shows "(\<forall>u \<in> set (users s). 0 \<le> xp u) \<and>
         fst (addXP d amount s) =
           Inr (max 0 ((case findUserByDiscordId d s of Some u \<Rightarrow> xp u | None \<Rightarrow> 0) + amount)) \<and>
         findUserByDiscordId d (snd (addXP d amount s)) =
           Some ((fst (getOrCreateUser d s))
                   \<lparr>xp := max 0 ((case findUserByDiscordId d s of Some u \<Rightarrow> xp u | None \<Rightarrow> 0)
                                 + amount)\<rparr>) \<and>
         filter (\<lambda>u. discordId u \<noteq> d) (users (snd (addXP d amount s))) =
           filter (\<lambda>u. discordId u \<noteq> d) (users s) \<and>
         problems (snd (addXP d amount s)) = problems s \<and>
         userAttempts (snd (addXP d amount s)) = userAttempts s \<and>
         fst (removeXP d amount s) =
           Inr (max 0 ((case findUserByDiscordId d s of Some u \<Rightarrow> xp u | None \<Rightarrow> 0) - amount)) \<and>
         findUserByDiscordId d (snd (removeXP d amount s)) =
           Some ((fst (getOrCreateUser d s))
                   \<lparr>xp := max 0 ((case findUserByDiscordId d s of Some u \<Rightarrow> xp u | None \<Rightarrow> 0)
                                 - amount)\<rparr>) \<and>
         filter (\<lambda>u. discordId u \<noteq> d) (users (snd (removeXP d amount s))) =
           filter (\<lambda>u. discordId u \<noteq> d) (users s) \<and>
         problems (snd (removeXP d amount s)) = problems s \<and>
         userAttempts (snd (removeXP d amount s)) = userAttempts s \<and>
         findUserById uid (snd (adjustUserXPByDbId uid delta s)) =
           map_option (\<lambda>u. u\<lparr>xp := max 0 (xp u + delta)\<rparr>) (findUserById uid s) \<and>
         filter (\<lambda>u. u_id u \<noteq> uid) (users (snd (adjustUserXPByDbId uid delta s))) =
           filter (\<lambda>u. u_id u \<noteq> uid) (users s) \<and>
         problems (snd (adjustUserXPByDbId uid delta s)) = problems s \<and>
         userAttempts (snd (adjustUserXPByDbId uid delta s)) = userAttempts s"
proof -
  from assms have "xpNonneg s"
    by (induction rule: reachable.induct)
      (simp_all add: xpNonneg_def emptyDb_def xpNonneg_run [unfolded xpNonneg_def])
  then have inv: "\<forall>u \<in> set (users s). 0 \<le> xp u"
    by (simp add: xpNonneg_def)
  let ?x = "case findUserByDiscordId d s of Some u \<Rightarrow> xp u | None \<Rightarrow> 0"
  have x: "xp (fst (getOrCreateUser d s)) = ?x"
    by (simp add: getOrCreateUser_def Let_def split: option.splits)
  have a: "addXP d amount s =
      (Inr (max 0 (?x + amount)),
       setUserXpByDiscordId d (max 0 (?x + amount)) (snd (getOrCreateUser d s)))"
    using x by (simp add: addXP_def Let_def case_prod_unfold)
  have r: "removeXP d amount s =
      (Inr (max 0 (?x - amount)),
       setUserXpByDiscordId d (max 0 (?x - amount)) (snd (getOrCreateUser d s)))"
    using x by (simp add: removeXP_def Let_def case_prod_unfold)
  show ?thesis
    unfolding a r fst_conv snd_conv
    using inv findUserById_adjust [OF inv] adjust_others_kept
    by (simp only: findUserByDiscordId_written other_users_kept other_tables_kept simp_thms)
qed

lemma demoTen_reachable: "reachable demoTen"
proof -
  have "reachable (run demoSheet (CmdAddXP ''A'' 10) emptyDb)"
    by (rule reachable_step [OF reachable_empty])
  moreover have "run demoSheet (CmdAddXP ''A'' 10) emptyDb = demoTen"
    by (simp add: addXP_def getOrCreateUser_def findUserByDiscordId_def
        setUserXpByDiscordId_def emptyDb_def demoTen_def Let_def)
  ultimately show ?thesis by simp
qed

theorem xp_never_negative_witness:
  "reachable demoTen \<and>
   0 \<le> xp (hd (users demoTen)) \<and>
   fst (addXP ''A'' (- 3) demoTen) = Inr 7 \<and>
   findUserByDiscordId ''A'' (snd (addXP ''A'' (- 3) demoTen)) =
     Some \<lparr>u_id = 0, discordId = ''A'', xp = 7\<rparr> \<and>
   fst (removeXP ''A'' 30 demoTen) = Inr 0 \<and>
   findUserByDiscordId ''A'' (snd (removeXP ''A'' 30 demoTen)) =
     Some \<lparr>u_id = 0, discordId = ''A'', xp = 0\<rparr> \<and>
   findUserById 0 (snd (adjustUserXPByDbId 0 (- 4) demoTen)) =
     Some \<lparr>u_id = 0, discordId = ''A'', xp = 6\<rparr>"
proof -
  have f: "findUserByDiscordId ''A'' demoTen = Some \<lparr>u_id = 0, discordId = ''A'', xp = 10\<rparr>"
    by (simp add: findUserByDiscordId_def demoTen_def)
  have g: "fst (getOrCreateUser ''A'' demoTen) = \<lparr>u_id = 0, discordId = ''A'', xp = 10\<rparr>"
    by (simp add: getOrCreateUser_def f)
  have i: "findUserById 0 demoTen = Some \<lparr>u_id = 0, discordId = ''A'', xp = 10\<rparr>"
    by (simp add: findUserById_def demoTen_def)
  have us: "users demoTen = [\<lparr>u_id = 0, discordId = ''A'', xp = 10\<rparr>]"
    by (simp add: demoTen_def)
  from xp_never_negative [OF demoTen_reachable, of "''A''" "- 3" 0 "- 4"]
  have "0 \<le> xp (hd (users demoTen)) \<and>
        fst (addXP ''A'' (- 3) demoTen) = Inr 7 \<and>
        findUserByDiscordId ''A'' (snd (addXP ''A'' (- 3) demoTen)) =
          Some \<lparr>u_id = 0, discordId = ''A'', xp = 7\<rparr> \<and>
        findUserById 0 (snd (adjustUserXPByDbId 0 (- 4) demoTen)) =
          Some \<lparr>u_id = 0, discordId = ''A'', xp = 6\<rparr>"
    unfolding f g i us by simp
  moreover from xp_never_negative [OF demoTen_reachable, of "''A''" 30 0 0]
  have "fst (removeXP ''A'' 30 demoTen) = Inr 0 \<and>
        findUserByDiscordId ''A'' (snd (removeXP ''A'' 30 demoTen)) =
          Some \<lparr>u_id = 0, discordId = ''A'', xp = 0\<rparr>"
    unfolding f g i us by simp
  ultimately show ?thesis
    using demoTen_reachable by blast
qed

end
